(* ===== verification/Go_Prelude.thy ===== *)
theory Go_Prelude
  imports Main
begin

text \<open>
  Shared vocabulary of the development: Go's error values, panics, the named collections of
  rewrite rules the component theories fill, reachability of a step relation, and the interface
  locale of an inductive invariant.

  Conventions used by every theory.
  \<^item> A Go result of type \<^verbatim>\<open>error\<close> is \<open>error option\<close>, with \<^const>\<open>None\<close> for \<^verbatim>\<open>nil\<close>; a result
    \<^verbatim>\<open>(T, error)\<close> whose \<^verbatim>\<open>T\<close> is meaningless on error is \<open>error + T\<close>; where the code hands back a
    useful \<^verbatim>\<open>T\<close> beside the error the pair is kept.
  \<^item> A function that can panic returns an \<open>outcome\<close>.
  \<^item> An error message keeps its format string and its arguments apart: \<^verbatim>\<open>fmt\<close> is not modelled.
\<close>

section \<open>Errors and panics\<close>

datatype error =
    Errorf string "string list" \<comment> \<open>\<^verbatim>\<open>fmt.Errorf(format, args...)\<close> without \<^verbatim>\<open>%w\<close>\<close>
  | Wrapf string "string list" error \<comment> \<open>\<^verbatim>\<open>fmt.Errorf\<close> with \<^verbatim>\<open>%w\<close>: the last argument is the wrapped error\<close>
  | ErrNotFound string \<comment> \<open>\<^verbatim>\<open>store.ErrNotFound\<close>\<close>
  | External string \<comment> \<open>an error made by code outside the repository\<close>

datatype 'a outcome =
    Return 'a
  | Panic string

fun returned :: "'a outcome \<Rightarrow> bool" where
  "returned (Return _) = True"
| "returned (Panic _) = False"

fun map_outcome_val :: "('a \<Rightarrow> 'b) \<Rightarrow> 'a outcome \<Rightarrow> 'b outcome" where
  "map_outcome_val f (Return x) = Return (f x)"
| "map_outcome_val f (Panic m) = Panic m"

lemma returned_iff: "returned x \<longleftrightarrow> (\<exists>v. x = Return v)"
  by (cases x) auto

lemma returned_map_outcome_val [simp]: "returned (map_outcome_val f x) = returned x"
  by (cases x) auto

lemma map_outcome_val_Return [simp]:
  "map_outcome_val f x = Return y \<longleftrightarrow> (\<exists>v. x = Return v \<and> y = f v)"
  by (cases x) auto

section \<open>Collections\<close>

named_theorems go_ops "definitions of operations, unfolded by the component proofs"

section \<open>Maps\<close>

lemma ran_map_upd_subset: "ran (m(k \<mapsto> v)) \<subseteq> insert v (ran m)"
  by (auto simp: ran_def)

lemma ran_map_del_subset: "ran (m(k := None)) \<subseteq> ran m"
  by (auto simp: ran_def split: if_splits)

lemma map_del_absent: "m k = None \<Longrightarrow> m(k := None) = m"
  by (auto simp: fun_eq_iff)

section \<open>Reachability and invariants\<close>

inductive reach :: "('s \<Rightarrow> bool) \<Rightarrow> ('s \<Rightarrow> 's \<Rightarrow> bool) \<Rightarrow> 's \<Rightarrow> bool"
  for init :: "'s \<Rightarrow> bool" and step :: "'s \<Rightarrow> 's \<Rightarrow> bool" where
  reach_init: "init s \<Longrightarrow> reach init step s"
| reach_step: "reach init step s \<Longrightarrow> step s t \<Longrightarrow> reach init step t"

text \<open>The interface of an inductive invariant: what a component proves of its initial states and
  of one step, and what every user of its reachable states gets.\<close>

locale invariant_system =
  fixes init :: "'s \<Rightarrow> bool"
    and step :: "'s \<Rightarrow> 's \<Rightarrow> bool"
    and inv :: "'s \<Rightarrow> bool"
  assumes inv_init: "init s \<Longrightarrow> inv s"
    and inv_step: "inv s \<Longrightarrow> step s t \<Longrightarrow> inv t"
begin

lemma reach_inv: "reach init step s \<Longrightarrow> inv s"
  by (induction rule: reach.induct) (blast intro: inv_init inv_step)+

lemma star_inv: "inv s \<Longrightarrow> step\<^sup>*\<^sup>* s t \<Longrightarrow> inv t"
  by (rotate_tac, induction rule: rtranclp_induct) (blast intro: inv_step)+

end

lemma reach_rtranclp: "reach init step t \<longleftrightarrow> (\<exists>s. init s \<and> step\<^sup>*\<^sup>* s t)"
proof
  show "reach init step t \<Longrightarrow> \<exists>s. init s \<and> step\<^sup>*\<^sup>* s t"
    by (induction rule: reach.induct) (blast intro: rtranclp.rtrancl_into_rtrancl)+
next
  assume "\<exists>s. init s \<and> step\<^sup>*\<^sup>* s t"
  then obtain s where "step\<^sup>*\<^sup>* s t" and "init s" by blast
  then show "reach init step t"
    by (induction rule: rtranclp_induct) (blast intro: reach.intros)+
qed

end
