(* ===== verification/Go_Strings.thy ===== *)
theory Go_Strings
  imports Go_Prelude
begin

text \<open>
  The functions of Go's \<^verbatim>\<open>strings\<close> package that the controller calls, on byte strings. A Go string
  is a sequence of bytes (UTF-8 for the literals), so a string is a list of \<^typ>\<open>char\<close>, one per byte.

  \<^item> \<^verbatim>\<open>strings.SplitN\<close> with a one-byte separator (\<^verbatim>\<open>":"\<close> in \<^verbatim>\<open>header_round_tripper.go\<close>, \<^verbatim>\<open>"/"\<close> in
    \<^verbatim>\<open>setup.go\<close>);
  \<^item> \<^verbatim>\<open>strings.TrimSpace\<close>, with the multi-byte white space of \<^verbatim>\<open>unicode.IsSpace\<close>
    (\<^verbatim>\<open>file_service.go\<close>);
  \<^item> \<^verbatim>\<open>strings.ReplaceAll\<close> with one-byte arguments and \<^verbatim>\<open>strings.ToUpper\<close> on ASCII letters
    (\<^verbatim>\<open>env.go\<close>, applied to flag names, which are ASCII).
\<close>

section \<open>SplitN\<close>

fun SplitN :: "string \<Rightarrow> char \<Rightarrow> nat \<Rightarrow> string list" where
  "SplitN s sep 0 = []"
| "SplitN s sep (Suc 0) = [s]"
| "SplitN s sep (Suc (Suc n)) =
     (case dropWhile (\<lambda>c. c \<noteq> sep) s of
        [] \<Rightarrow> [s]
      | _ # rest \<Rightarrow> takeWhile (\<lambda>c. c \<noteq> sep) s # SplitN rest sep (Suc n))"

fun join_sep :: "char \<Rightarrow> string list \<Rightarrow> string" where
  "join_sep sep [] = []"
| "join_sep sep [x] = x"
| "join_sep sep (x # y # xs) = x @ sep # join_sep sep (y # xs)"

lemma SplitN_Suc_not_Nil [simp]: "SplitN s sep (Suc n) \<noteq> []"
  by (cases n) (auto split: list.splits)

text \<open>The two cases of a split, by whether the separator occurs.\<close>

lemma dropWhile_sep: "sep \<in> set s \<Longrightarrow> \<exists>rest. dropWhile (\<lambda>c. c \<noteq> sep) s = sep # rest"
  by (induction s) auto

lemma dropWhile_no_sep: "sep \<notin> set s \<Longrightarrow> dropWhile (\<lambda>c. c \<noteq> sep) s = []"
  by (auto simp: dropWhile_eq_Nil_conv)

lemma SplitN_no_sep: "sep \<notin> set s \<Longrightarrow> SplitN s sep (Suc n) = [s]"
  by (cases n) (simp_all add: dropWhile_no_sep)

lemma SplitN_sep:
  assumes "sep \<in> set s"
  shows "SplitN s sep (Suc (Suc n)) =
    takeWhile (\<lambda>c. c \<noteq> sep) s # SplitN (tl (dropWhile (\<lambda>c. c \<noteq> sep) s)) sep (Suc n)"
proof -
  obtain rest where "dropWhile (\<lambda>c. c \<noteq> sep) s = sep # rest"
    using dropWhile_sep [OF assms] by blast
  then show ?thesis by simp
qed

lemma split_at_first:
  assumes "sep \<in> set s"
  shows "s = takeWhile (\<lambda>c. c \<noteq> sep) s @ sep # tl (dropWhile (\<lambda>c. c \<noteq> sep) s)"
proof -
  obtain rest where "dropWhile (\<lambda>c. c \<noteq> sep) s = sep # rest"
    using dropWhile_sep [OF assms] by blast
  then show ?thesis using takeWhile_dropWhile_id [of "\<lambda>c. c \<noteq> sep" s] by simp
qed

declare SplitN.simps(3) [simp del]

lemma join_sep_Cons: "xs \<noteq> [] \<Longrightarrow> join_sep sep (x # xs) = x @ sep # join_sep sep xs"
  by (cases xs) auto

lemma join_SplitN: "join_sep sep (SplitN s sep (Suc n)) = s"
proof (induction n arbitrary: s)
  case 0
  show ?case by simp
next
  case (Suc n)
  show ?case
  proof (cases "sep \<in> set s")
    case False
    then show ?thesis by (simp add: SplitN_no_sep)
  next
    case True
    then show ?thesis
      using split_at_first [OF True] by (simp add: SplitN_sep join_sep_Cons Suc.IH)
  qed
qed

lemma length_SplitN_le: "length (SplitN s sep n) \<le> n"
proof (induction s sep n rule: SplitN.induct)
  case (3 s sep n)
  then show ?case by (cases "sep \<in> set s") (auto simp: SplitN.simps(3) split: list.splits)
qed auto

lemma takeWhile_at_sep:
  "sep \<notin> set p \<Longrightarrow> takeWhile (\<lambda>c. c \<noteq> sep) (p @ sep # rest) = p"
  by (induction p) auto

lemma dropWhile_at_sep:
  "sep \<notin> set p \<Longrightarrow> dropWhile (\<lambda>c. c \<noteq> sep) (p @ sep # rest) = sep # rest"
  by (induction p) auto

lemma SplitN_at_sep:
  "sep \<notin> set p \<Longrightarrow> SplitN (p @ sep # rest) sep (Suc (Suc n)) = p # SplitN rest sep (Suc n)"
  by (simp add: SplitN_sep takeWhile_at_sep dropWhile_at_sep)

lemma SplitN_two:
  "SplitN s sep 2 =
     (if sep \<in> set s
      then [takeWhile (\<lambda>c. c \<noteq> sep) s, tl (dropWhile (\<lambda>c. c \<noteq> sep) s)] else [s])"
  by (simp add: numeral_2_eq_2 SplitN_sep SplitN_no_sep)

lemma first_sep_unique:
  assumes "p @ sep # x = q @ sep # y" and "sep \<notin> set p" and "sep \<notin> set q"
  shows "p = q \<and> x = y"
proof -
  have "p = q"
    using takeWhile_at_sep [OF assms(2), of x] takeWhile_at_sep [OF assms(3), of y] assms(1)
    by simp
  with assms(1) show ?thesis by simp
qed

lemma last_sep_unique:
  assumes "x @ sep # p = y @ sep # q" and "sep \<notin> set p" and "sep \<notin> set q"
  shows "x = y \<and> p = q"
proof -
  have "rev p @ sep # rev x = rev q @ sep # rev y"
    using arg_cong [OF assms(1), of rev] by simp
  then have "rev p = rev q \<and> rev x = rev y"
    using assms(2,3) by (intro first_sep_unique) auto
  then show ?thesis by simp
qed

section \<open>TrimSpace\<close>

text \<open>The UTF-8 encodings of the runes for which \<^verbatim>\<open>unicode.IsSpace\<close> holds.\<close>

definition space_runes :: "string list" where
  "space_runes =
     [[CHR 0x09], [CHR 0x0A], [CHR 0x0B], [CHR 0x0C], [CHR 0x0D], [CHR 0x20],
      [CHR 0xC2, CHR 0x85], [CHR 0xC2, CHR 0xA0], [CHR 0xE1, CHR 0x9A, CHR 0x80],
      [CHR 0xE2, CHR 0x80, CHR 0x80], [CHR 0xE2, CHR 0x80, CHR 0x81],
      [CHR 0xE2, CHR 0x80, CHR 0x82], [CHR 0xE2, CHR 0x80, CHR 0x83],
      [CHR 0xE2, CHR 0x80, CHR 0x84], [CHR 0xE2, CHR 0x80, CHR 0x85],
      [CHR 0xE2, CHR 0x80, CHR 0x86], [CHR 0xE2, CHR 0x80, CHR 0x87],
      [CHR 0xE2, CHR 0x80, CHR 0x88], [CHR 0xE2, CHR 0x80, CHR 0x89],
      [CHR 0xE2, CHR 0x80, CHR 0x8A], [CHR 0xE2, CHR 0x80, CHR 0xA8],
      [CHR 0xE2, CHR 0x80, CHR 0xA9], [CHR 0xE2, CHR 0x80, CHR 0xAF],
      [CHR 0xE2, CHR 0x81, CHR 0x9F], [CHR 0xE3, CHR 0x80, CHR 0x80]]"

fun strip_prefix :: "string \<Rightarrow> string \<Rightarrow> string option" where
  "strip_prefix [] s = Some s"
| "strip_prefix (p # ps) [] = None"
| "strip_prefix (p # ps) (c # cs) = (if p = c then strip_prefix ps cs else None)"

fun strip_any :: "string list \<Rightarrow> string \<Rightarrow> string option" where
  "strip_any [] s = None"
| "strip_any (p # ps) s = (case strip_prefix p s of None \<Rightarrow> strip_any ps s | Some t \<Rightarrow> Some t)"

lemma strip_prefix_Some: "strip_prefix p s = Some t \<longleftrightarrow> s = p @ t"
  by (induction p s rule: strip_prefix.induct) auto

lemma strip_any_Some: "strip_any ps s = Some t \<Longrightarrow> \<exists>p \<in> set ps. s = p @ t"
  by (induction ps) (auto simp: strip_prefix_Some split: option.splits)

text \<open>Dropping leading runes as long as one of \<open>ps\<close> is a prefix. An empty rune would not make
  progress; none of \<^const>\<open>space_runes\<close> is empty.\<close>

function trim_prefixes :: "string list \<Rightarrow> string \<Rightarrow> string" where
  "trim_prefixes ps s =
     (case strip_any ps s of
        None \<Rightarrow> s
      | Some t \<Rightarrow> if length t < length s then trim_prefixes ps t else s)"
  by pat_completeness auto
termination
  by (relation "measure (\<lambda>(ps, s). length s)") auto

declare trim_prefixes.simps [simp del]

definition TrimSpace :: "string \<Rightarrow> string" where
  "TrimSpace s =
     rev (trim_prefixes (map rev space_runes) (rev (trim_prefixes space_runes s)))"

lemma trim_prefixes_None: "strip_any ps s = None \<Longrightarrow> trim_prefixes ps s = s"
  by (subst trim_prefixes.simps) simp

lemma trim_prefixes_Some:
  "strip_any ps s = Some t \<Longrightarrow> length t < length s \<Longrightarrow> trim_prefixes ps s = trim_prefixes ps t"
  by (subst trim_prefixes.simps) simp

text \<open>What is dropped is a sequence of runes of \<open>ps\<close>.\<close>

lemma trim_prefixes_dropped:
  "\<exists>rs. set rs \<subseteq> set ps \<and> s = concat rs @ trim_prefixes ps s"
proof (induction ps s rule: trim_prefixes.induct)
  case (1 ps s)
  show ?case
  proof (cases "\<exists>t. strip_any ps s = Some t \<and> length t < length s")
    case True
    then obtain t where t: "strip_any ps s = Some t" "length t < length s" by blast
    obtain p where p: "p \<in> set ps" "s = p @ t"
      using strip_any_Some [OF t(1)] by blast
    obtain rs where "set rs \<subseteq> set ps" "t = concat rs @ trim_prefixes ps t"
      using "1.IH" [OF t] by blast
    with p t have "set (p # rs) \<subseteq> set ps \<and> s = concat (p # rs) @ trim_prefixes ps s"
      by (simp add: trim_prefixes_Some)
    then show ?thesis by blast
  next
    case False
    then have "trim_prefixes ps s = s"
      by (subst trim_prefixes.simps) (auto split: option.splits)
    then show ?thesis by (intro exI [of _ "[]"]) simp
  qed
qed

lemma TrimSpace_Nil [simp]: "TrimSpace [] = []"
proof -
  have "trim_prefixes ps [] = []" for ps
    by (subst trim_prefixes.simps) (simp split: option.split)
  then show ?thesis by (simp add: TrimSpace_def)
qed

text \<open>A string that trims to nothing is a sequence of white-space runes; so one whose first byte
  starts none of them is not blank.\<close>

lemma TrimSpace_blank:
  assumes "TrimSpace s = []"
  shows "\<exists>rs. set rs \<subseteq> set space_runes \<and> s = concat rs"
proof -
  let ?t = "trim_prefixes space_runes s"
  obtain rs where rs: "set rs \<subseteq> set space_runes" "s = concat rs @ ?t"
    using trim_prefixes_dropped by blast
  have "trim_prefixes (map rev space_runes) (rev ?t) = []"
    using assms by (simp add: TrimSpace_def)
  then obtain qs where qs: "set qs \<subseteq> set (map rev space_runes)" "rev ?t = concat qs"
    using trim_prefixes_dropped [of "map rev space_runes" "rev ?t"] by auto
  have "?t = concat (rev (map rev qs))"
    using arg_cong [OF qs(2), of rev] by (simp add: rev_concat rev_map)
  moreover have "set (rev (map rev qs)) \<subseteq> set space_runes"
    using qs(1) by auto
  ultimately show ?thesis
    using rs by (intro exI [of _ "rs @ rev (map rev qs)"]) auto
qed

definition starts_space :: "char \<Rightarrow> bool" where
  "starts_space c \<longleftrightarrow> c \<in> set (map hd space_runes)"

lemma space_runes_not_Nil: "p \<in> set space_runes \<Longrightarrow> p \<noteq> []"
  by (auto simp: space_runes_def)

lemma concat_runes_hd:
  "set rs \<subseteq> set space_runes \<Longrightarrow> concat rs = c # cs \<Longrightarrow> starts_space c"
proof (induction rs)
  case (Cons r rs)
  then have "r \<in> set space_runes" and "r \<noteq> []"
    using space_runes_not_Nil by auto
  with Cons.prems(2) have "c = hd r" by (cases r) auto
  with \<open>r \<in> set space_runes\<close> show ?case by (auto simp: starts_space_def)
qed simp

lemma TrimSpace_not_blank: "\<not> starts_space c \<Longrightarrow> TrimSpace (c # cs) \<noteq> []"
  using TrimSpace_blank concat_runes_hd by metis

section \<open>ReplaceAll and ToUpper\<close>

definition ReplaceAll_char :: "string \<Rightarrow> char \<Rightarrow> char \<Rightarrow> string" where
  "ReplaceAll_char s old new = map (\<lambda>c. if c = old then new else c) s"

definition to_upper_char :: "char \<Rightarrow> char" where
  "to_upper_char c =
     (let n = (of_char c :: nat) in if 97 \<le> n \<and> n \<le> 122 then char_of (n - 32) else c)"

definition ToUpper :: "string \<Rightarrow> string" where
  "ToUpper s = map to_upper_char s"

end
