(* ===== verification/KongFile_Types.thy ===== *)
theory KongFile_Types
  imports Go_Strings
begin

text \<open>
  The data of the controller: the custom resource \<^verbatim>\<open>KongFile\<close> of \<^verbatim>\<open>pkg/apis/v1/kongfile_types.go\<close>
  with the group and version it is registered under (\<^verbatim>\<open>groupversion_info.go\<close>), the \<^verbatim>\<open>File\<close> sent to
  the Kong Admin API (\<^verbatim>\<open>internal/kong/types.go\<close>), and Go's heap of \<^verbatim>\<open>KongFile\<close> objects.

  Of the Kubernetes types embedded in \<^verbatim>\<open>KongFile\<close> the records keep the fields the repository reads:
  name, namespace, annotations and deletion timestamp of \<^verbatim>\<open>ObjectMeta\<close>, kind and version of
  \<^verbatim>\<open>TypeMeta\<close>. A Go map is a partial function; a time is an \<^typ>\<open>int\<close> with 0 for the zero time.

  Reconciler, cache and proxy share \<^verbatim>\<open>KongFile\<close> objects by pointer: the cache keeps the very pointer
  the reconciler goes on to write. A pointer is therefore a reference into an explicit heap.
\<close>

section \<open>The resource\<close>

type_synonym Kind = string

definition CONTENT :: Kind where
  "CONTENT = ''CONTENT''"

definition SPECIFICATION :: Kind where
  "SPECIFICATION = ''SPECIFICATION''"

definition ASSET :: Kind where
  "ASSET = ''ASSET''"

lemmas kind_defs = CONTENT_def SPECIFICATION_def ASSET_def

record KongFileSpec =
  Spec_Layout :: string
  Spec_Path :: string
  Spec_Title :: string
  Spec_Name :: string
  Spec_Content :: string
  Spec_Kind :: Kind

record KongFileStatus =
  Validated :: bool

record TypeMeta =
  tm_Kind :: string
  tm_APIVersion :: string

type_synonym time = int

record ObjectMeta =
  om_Name :: string
  om_Namespace :: string
  om_Annotations :: "string \<rightharpoonup> string"
  om_DeletionTimestamp :: "time option"

record KongFile =
  kf_TypeMeta :: TypeMeta
  kf_Meta :: ObjectMeta
  kf_Spec :: KongFileSpec
  kf_Status :: KongFileStatus

text \<open>\<^verbatim>\<open>metav1.Time.IsZero\<close> on a pointer: \<^verbatim>\<open>nil\<close> and the zero time.\<close>

fun time_IsZero :: "time option \<Rightarrow> bool" where
  "time_IsZero None = True"
| "time_IsZero (Some t) = (t = 0)"

definition zero_KongFile :: KongFile where
  "zero_KongFile =
     \<lparr>kf_TypeMeta = \<lparr>tm_Kind = '''', tm_APIVersion = ''''\<rparr>,
      kf_Meta = \<lparr>om_Name = '''', om_Namespace = '''', om_Annotations = Map.empty,
        om_DeletionTimestamp = None\<rparr>,
      kf_Spec = \<lparr>Spec_Layout = '''', Spec_Path = '''', Spec_Title = '''', Spec_Name = '''',
        Spec_Content = '''', Spec_Kind = ''''\<rparr>,
      kf_Status = \<lparr>Validated = False\<rparr>\<rparr>"

record GroupVersionResource =
  gvr_Group :: string
  gvr_Version :: string
  gvr_Resource :: string

record GroupVersion =
  gv_Group :: string
  gv_Version :: string

definition SchemeGroupVersion :: GroupVersion where
  "SchemeGroupVersion = \<lparr>gv_Group = ''developer.konghq.com'', gv_Version = ''v1''\<rparr>"

text \<open>The package variable \<^verbatim>\<open>SchemeBuilder\<close> after \<^verbatim>\<open>init\<close> has registered the two types. controller-runtime's builder
  is the parameter: how one is made for a group and version, how it registers types, and how it adds them to
  a scheme.\<close>

record ('b, 's) scheme_lib =
  sb_new :: "GroupVersion \<Rightarrow> 'b"
  sb_Register :: "string list \<Rightarrow> 'b \<Rightarrow> 'b"
  sb_AddToScheme :: "'b \<Rightarrow> 's \<Rightarrow> error option \<times> 's"

definition SchemeBuilder :: "('b, 's) scheme_lib \<Rightarrow> 'b" where
  "SchemeBuilder lib = sb_Register lib [''KongFile'', ''KongFileList''] (sb_new lib SchemeGroupVersion)"

definition AddToScheme :: "('b, 's) scheme_lib \<Rightarrow> 's \<Rightarrow> error option \<times> 's" where
  "AddToScheme lib = sb_AddToScheme lib (SchemeBuilder lib)"

text \<open>With a builder that keeps what it is given, both types are known under the group and version.\<close>

lemma AddToScheme_knows_both:
  assumes "\<And>gv. sb_new lib gv = (gv, [])" and "\<And>ts gv us. sb_Register lib ts (gv, us) = (gv, us @ ts)"
    and "\<And>gv ts s. sb_AddToScheme lib (gv, ts) s = (None, s \<union> {gv} \<times> set ts)"
  shows "AddToScheme lib {} = (None, {(SchemeGroupVersion, ''KongFile''), (SchemeGroupVersion, ''KongFileList'')})"
  by (auto simp: AddToScheme_def SchemeBuilder_def assms)

section \<open>The file sent to Kong\<close>

text \<open>Every field is a pointer to a string or an int, \<^verbatim>\<open>nil\<close> when unset (\<^verbatim>\<open>omitempty\<close>).\<close>

record File =
  Checksum :: "string option"
  ID :: "string option"
  CreatedAt :: "int option"
  file_Path :: "string option"
  file_Contents :: "string option"

definition zero_File :: File where
  "zero_File = \<lparr>Checksum = None, ID = None, CreatedAt = None, file_Path = None, file_Contents = None\<rparr>"

section \<open>Pointers\<close>

type_synonym ref = nat

record heap =
  at_ref :: "ref \<Rightarrow> KongFile"
  next_ref :: ref

text \<open>\<^verbatim>\<open>new(KongFile)\<close>, and the write of a whole object through its pointer.\<close>

definition new_KongFile :: "heap \<Rightarrow> ref \<times> heap" where
  "new_KongFile h =
     (next_ref h,
      h\<lparr>at_ref := (at_ref h)(next_ref h := zero_KongFile), next_ref := Suc (next_ref h)\<rparr>)"

definition write_ref :: "ref \<Rightarrow> KongFile \<Rightarrow> heap \<Rightarrow> heap" where
  "write_ref r v h = h\<lparr>at_ref := (at_ref h)(r := v)\<rparr>"

lemma at_write_ref [simp]: "at_ref (write_ref r v h) q = (if q = r then v else at_ref h q)"
  by (simp add: write_ref_def)

lemma next_write_ref [simp]: "next_ref (write_ref r v h) = next_ref h"
  by (simp add: write_ref_def)

lemma write_ref_twice [simp]: "write_ref r v (write_ref r u h) = write_ref r v h"
  by (simp add: write_ref_def)

lemma new_KongFile_ref [simp]: "fst (new_KongFile h) = next_ref h"
  by (simp add: new_KongFile_def)

lemma next_new_KongFile [simp]: "next_ref (snd (new_KongFile h)) = Suc (next_ref h)"
  by (simp add: new_KongFile_def)

lemma at_new_KongFile [simp]:
  "at_ref (snd (new_KongFile h)) q = (if q = next_ref h then zero_KongFile else at_ref h q)"
  by (simp add: new_KongFile_def)

text \<open>An interface value of type \<^verbatim>\<open>client.Object\<close> or \<^verbatim>\<open>runtime.Object\<close>, when not \<^verbatim>\<open>nil\<close>: a pointer
  to a \<^verbatim>\<open>KongFile\<close>, or an object of another kind with its type, namespace and name.\<close>

datatype Object =
    KongFileObj ref
  | OtherObj string string string

text \<open>What \<^verbatim>\<open>%T\<close> and \<^verbatim>\<open>GetObjectKind().GroupVersionKind()\<close> say of a value in an error message.\<close>

fun object_kind :: "Object \<Rightarrow> string" where
  "object_kind (KongFileObj _) = ''KongFile''"
| "object_kind (OtherObj gvk _ _) = gvk"

end
