(* ===== verification/Deep_Copies.thy ===== *)
theory Deep_Copies
  imports KongFile_Types
begin

text \<open>
  The deep copies of \<^verbatim>\<open>pkg/apis/v1/zz_generated.deepcopy.go\<close>, with the list type of
  \<^verbatim>\<open>kongfile_types.go\<close>. controller-runtime copies every object it hands out of its informer cache with
  them, so that the reconciler may write into what it was given.

  A copy is a matter of memory, not of values: the annotations of an object are a Go map, its deletion
  timestamp is a pointer, the items of a list are a window of an array. The memory here is a record of typed
  stores with one allocation counter; an element of an array is a cell with an address like any other
  variable. The copies of \<^verbatim>\<open>ObjectMeta\<close> and \<^verbatim>\<open>ListMeta\<close> are apimachinery's, hence a parameter with a contract,
  the locale \<open>meta_copies\<close>.

  The views read a cell as the value the rest of the development works with; the cells of an object are
  its footprint. A deep copy has the view of the original and a footprint of its own.
\<close>

section \<open>Memory\<close>

record mem_ObjectMeta =
  mm_Name :: string
  mm_Namespace :: string
  mm_Annotations :: "nat option" \<comment> \<open>the storage of the map, \<^const>\<open>None\<close> for a \<^verbatim>\<open>nil\<close> map\<close>
  mm_DeletionTimestamp :: "nat option"

record mem_ListMeta =
  lm_ResourceVersion :: string
  lm_Continue :: string
  lm_RemainingItemCount :: "nat option"

record mem_KongFile =
  m_TypeMeta :: TypeMeta
  m_ObjectMeta :: mem_ObjectMeta
  m_Spec :: KongFileSpec
  m_Status :: KongFileStatus

text \<open>A slice is the address of its first element and its length, \<^const>\<open>None\<close> for a \<^verbatim>\<open>nil\<close> slice.\<close>

record KongFileList =
  l_TypeMeta :: TypeMeta
  l_ListMeta :: mem_ListMeta
  l_Items :: "(nat \<times> nat) option"

record memory =
  mem_maps :: "nat \<Rightarrow> (string \<rightharpoonup> string)"
  mem_ints :: "nat \<Rightarrow> int" \<comment> \<open>times and counts\<close>
  mem_files :: "nat \<Rightarrow> mem_KongFile"
  mem_lists :: "nat \<Rightarrow> KongFileList"
  mem_specs :: "nat \<Rightarrow> KongFileSpec"
  mem_statuses :: "nat \<Rightarrow> KongFileStatus"
  mem_next :: nat

definition zero_mem_KongFile :: mem_KongFile where
  "zero_mem_KongFile =
     \<lparr>m_TypeMeta = kf_TypeMeta zero_KongFile,
      m_ObjectMeta = \<lparr>mm_Name = '''', mm_Namespace = '''', mm_Annotations = None, mm_DeletionTimestamp = None\<rparr>,
      m_Spec = kf_Spec zero_KongFile, m_Status = kf_Status zero_KongFile\<rparr>"

definition zero_KongFileList :: KongFileList where
  "zero_KongFileList =
     \<lparr>l_TypeMeta = kf_TypeMeta zero_KongFile,
      l_ListMeta = \<lparr>lm_ResourceVersion = '''', lm_Continue = '''', lm_RemainingItemCount = None\<rparr>,
      l_Items = None\<rparr>"

text \<open>\<^verbatim>\<open>new\<close> for the types, and \<^verbatim>\<open>make([]KongFile, n)\<close>.\<close>

definition make_KongFiles :: "nat \<Rightarrow> memory \<Rightarrow> nat \<times> memory" where
  "make_KongFiles n m =
     (mem_next m,
      m\<lparr>mem_files := \<lambda>a. if mem_next m \<le> a \<and> a < mem_next m + n then zero_mem_KongFile else mem_files m a,
        mem_next := mem_next m + n\<rparr>)"

definition alloc_KongFile :: "memory \<Rightarrow> nat \<times> memory" where
  "alloc_KongFile m =
     (mem_next m, m\<lparr>mem_files := (mem_files m)(mem_next m := zero_mem_KongFile), mem_next := mem_next m + 1\<rparr>)"

definition alloc_KongFileList :: "memory \<Rightarrow> nat \<times> memory" where
  "alloc_KongFileList m =
     (mem_next m, m\<lparr>mem_lists := (mem_lists m)(mem_next m := zero_KongFileList), mem_next := mem_next m + 1\<rparr>)"

definition alloc_KongFileSpec :: "memory \<Rightarrow> nat \<times> memory" where
  "alloc_KongFileSpec m =
     (mem_next m, m\<lparr>mem_specs := (mem_specs m)(mem_next m := kf_Spec zero_KongFile), mem_next := mem_next m + 1\<rparr>)"

definition alloc_KongFileStatus :: "memory \<Rightarrow> nat \<times> memory" where
  "alloc_KongFileStatus m =
     (mem_next m, m\<lparr>mem_statuses := (mem_statuses m)(mem_next m := kf_Status zero_KongFile), mem_next := mem_next m + 1\<rparr>)"

definition put_file :: "nat \<Rightarrow> mem_KongFile \<Rightarrow> memory \<Rightarrow> memory" where
  "put_file a v m = m\<lparr>mem_files := (mem_files m)(a := v)\<rparr>"

definition put_list :: "nat \<Rightarrow> KongFileList \<Rightarrow> memory \<Rightarrow> memory" where
  "put_list a v m = m\<lparr>mem_lists := (mem_lists m)(a := v)\<rparr>"

section \<open>zz_generated.deepcopy.go\<close>

text \<open>apimachinery's \<^verbatim>\<open>DeepCopyInto\<close> of the metadata: what it writes to its target, and the memory.\<close>

record meta_lib =
  ObjectMeta_DeepCopyInto :: "mem_ObjectMeta \<Rightarrow> memory \<Rightarrow> mem_ObjectMeta \<times> memory"
  ListMeta_DeepCopyInto :: "mem_ListMeta \<Rightarrow> memory \<Rightarrow> mem_ListMeta \<times> memory"

definition KongFile_DeepCopyInto :: "meta_lib \<Rightarrow> nat \<Rightarrow> nat \<Rightarrow> memory \<Rightarrow> memory" where
  "KongFile_DeepCopyInto lib src out m =
     (let m1 = put_file out (mem_files m src) m;
          m2 = put_file out ((mem_files m1 out)\<lparr>m_TypeMeta := m_TypeMeta (mem_files m1 src)\<rparr>) m1;
          (meta, m3) = ObjectMeta_DeepCopyInto lib (m_ObjectMeta (mem_files m2 src)) m2;
          m4 = put_file out ((mem_files m3 out)\<lparr>m_ObjectMeta := meta\<rparr>) m3;
          m5 = put_file out ((mem_files m4 out)\<lparr>m_Spec := m_Spec (mem_files m4 src)\<rparr>) m4
      in put_file out ((mem_files m5 out)\<lparr>m_Status := m_Status (mem_files m5 src)\<rparr>) m5)"

text \<open>The receivers are pointers, \<^const>\<open>None\<close> for \<^verbatim>\<open>nil\<close>.\<close>

fun KongFile_DeepCopy :: "meta_lib \<Rightarrow> nat option \<Rightarrow> memory \<Rightarrow> nat option \<times> memory" where
  "KongFile_DeepCopy lib None m = (None, m)"
| "KongFile_DeepCopy lib (Some src) m =
     (let (out, m1) = alloc_KongFile m in (Some out, KongFile_DeepCopyInto lib src out m1))"

text \<open>A \<^verbatim>\<open>runtime.Object\<close> that is not \<^verbatim>\<open>nil\<close>: a pointer with its type.\<close>

datatype runtime_Object =
    KongFilePtr nat
  | KongFileListPtr nat

definition KongFile_DeepCopyObject :: "meta_lib \<Rightarrow> nat option \<Rightarrow> memory \<Rightarrow> runtime_Object option \<times> memory" where
  "KongFile_DeepCopyObject lib src m =
     (case KongFile_DeepCopy lib src m of
        (Some c, m') \<Rightarrow> (Some (KongFilePtr c), m')
      | (None, m') \<Rightarrow> (None, m'))"

text \<open>The address of an element of a slice; indexing past its length panics.\<close>

definition slice_index :: "(nat \<times> nat) option \<Rightarrow> nat \<Rightarrow> nat option" where
  "slice_index s i = (case s of None \<Rightarrow> None | Some (first, n) \<Rightarrow> if i < n then Some (first + i) else None)"

text \<open>The loop over the items reads both slices through the two lists in every round.\<close>

fun copy_items :: "meta_lib \<Rightarrow> nat \<Rightarrow> nat \<Rightarrow> nat list \<Rightarrow> memory \<Rightarrow> memory outcome" where
  "copy_items lib src out [] m = Return m"
| "copy_items lib src out (i # is) m =
     (case (slice_index (l_Items (mem_lists m src)) i, slice_index (l_Items (mem_lists m out)) i) of
        (Some a, Some b) \<Rightarrow> copy_items lib src out is (KongFile_DeepCopyInto lib a b m)
      | _ \<Rightarrow> Panic ''index out of range'')"

definition KongFileList_DeepCopyInto :: "meta_lib \<Rightarrow> nat \<Rightarrow> nat \<Rightarrow> memory \<Rightarrow> memory outcome" where
  "KongFileList_DeepCopyInto lib src out m =
     (let m1 = put_list out (mem_lists m src) m;
          m2 = put_list out ((mem_lists m1 out)\<lparr>l_TypeMeta := l_TypeMeta (mem_lists m1 src)\<rparr>) m1;
          (meta, m3) = ListMeta_DeepCopyInto lib (l_ListMeta (mem_lists m2 src)) m2;
          m4 = put_list out ((mem_lists m3 out)\<lparr>l_ListMeta := meta\<rparr>) m3
      in case l_Items (mem_lists m4 src) of
           None \<Rightarrow> Return m4
         | Some (_, n) \<Rightarrow>
             (let (first, m5) = make_KongFiles n m4;
                  m6 = put_list out ((mem_lists m5 out)\<lparr>l_Items := Some (first, n)\<rparr>) m5
              in copy_items lib src out
                   (case l_Items (mem_lists m6 src) of None \<Rightarrow> [] | Some (_, n') \<Rightarrow> [0..<n']) m6))"

fun KongFileList_DeepCopy :: "meta_lib \<Rightarrow> nat option \<Rightarrow> memory \<Rightarrow> (nat option \<times> memory) outcome" where
  "KongFileList_DeepCopy lib None m = Return (None, m)"
| "KongFileList_DeepCopy lib (Some src) m =
     (let (out, m1) = alloc_KongFileList m
      in map_outcome_val (Pair (Some out)) (KongFileList_DeepCopyInto lib src out m1))"

definition KongFileList_DeepCopyObject :: "meta_lib \<Rightarrow> nat option \<Rightarrow> memory \<Rightarrow>
    (runtime_Object option \<times> memory) outcome" where
  "KongFileList_DeepCopyObject lib src m =
     map_outcome_val (\<lambda>(c, m'). (map_option KongFileListPtr c, m')) (KongFileList_DeepCopy lib src m)"

text \<open>The spec and the status hold no pointers.\<close>

definition KongFileSpec_DeepCopyInto :: "nat \<Rightarrow> nat \<Rightarrow> memory \<Rightarrow> memory" where
  "KongFileSpec_DeepCopyInto src out m = m\<lparr>mem_specs := (mem_specs m)(out := mem_specs m src)\<rparr>"

fun KongFileSpec_DeepCopy :: "nat option \<Rightarrow> memory \<Rightarrow> nat option \<times> memory" where
  "KongFileSpec_DeepCopy None m = (None, m)"
| "KongFileSpec_DeepCopy (Some src) m =
     (let (out, m1) = alloc_KongFileSpec m in (Some out, KongFileSpec_DeepCopyInto src out m1))"

definition KongFileStatus_DeepCopyInto :: "nat \<Rightarrow> nat \<Rightarrow> memory \<Rightarrow> memory" where
  "KongFileStatus_DeepCopyInto src out m = m\<lparr>mem_statuses := (mem_statuses m)(out := mem_statuses m src)\<rparr>"

fun KongFileStatus_DeepCopy :: "nat option \<Rightarrow> memory \<Rightarrow> nat option \<times> memory" where
  "KongFileStatus_DeepCopy None m = (None, m)"
| "KongFileStatus_DeepCopy (Some src) m =
     (let (out, m1) = alloc_KongFileStatus m in (Some out, KongFileStatus_DeepCopyInto src out m1))"

section \<open>Views, footprints and the growth of memory\<close>

definition meta_view :: "memory \<Rightarrow> mem_ObjectMeta \<Rightarrow> ObjectMeta" where
  "meta_view m x =
     \<lparr>om_Name = mm_Name x, om_Namespace = mm_Namespace x,
      om_Annotations = (case mm_Annotations x of None \<Rightarrow> Map.empty | Some a \<Rightarrow> mem_maps m a),
      om_DeletionTimestamp = map_option (mem_ints m) (mm_DeletionTimestamp x)\<rparr>"

definition value_view :: "memory \<Rightarrow> mem_KongFile \<Rightarrow> KongFile" where
  "value_view m v =
     \<lparr>kf_TypeMeta = m_TypeMeta v, kf_Meta = meta_view m (m_ObjectMeta v), kf_Spec = m_Spec v, kf_Status = m_Status v\<rparr>"

definition file_view :: "memory \<Rightarrow> nat \<Rightarrow> KongFile" where
  "file_view m a = value_view m (mem_files m a)"

definition list_meta_view :: "memory \<Rightarrow> mem_ListMeta \<Rightarrow> string \<times> string \<times> int option" where
  "list_meta_view m x =
     (lm_ResourceVersion x, lm_Continue x, map_option (mem_ints m) (lm_RemainingItemCount x))"

definition slice_cells :: "(nat \<times> nat) option \<Rightarrow> nat list" where
  "slice_cells s = (case s of None \<Rightarrow> [] | Some (first, n) \<Rightarrow> [first..<first + n])"

text \<open>The items of a list as values; a \<^verbatim>\<open>nil\<close> slice is kept apart from an empty one.\<close>

definition list_view :: "memory \<Rightarrow> nat \<Rightarrow> TypeMeta \<times> (string \<times> string \<times> int option) \<times> KongFile list option" where
  "list_view m a =
     (let v = mem_lists m a
      in (l_TypeMeta v, list_meta_view m (l_ListMeta v),
          map_option (\<lambda>s. map (file_view m) (slice_cells (Some s))) (l_Items v)))"

definition meta_cells :: "mem_ObjectMeta \<Rightarrow> nat set" where
  "meta_cells x = set_option (mm_Annotations x) \<union> set_option (mm_DeletionTimestamp x)"

definition list_meta_cells :: "mem_ListMeta \<Rightarrow> nat set" where
  "list_meta_cells x = set_option (lm_RemainingItemCount x)"

definition file_cells :: "memory \<Rightarrow> nat \<Rightarrow> nat set" where
  "file_cells m a = insert a (meta_cells (m_ObjectMeta (mem_files m a)))"

definition list_cells :: "memory \<Rightarrow> nat \<Rightarrow> nat set" where
  "list_cells m a =
     insert a (list_meta_cells (l_ListMeta (mem_lists m a)) \<union>
       (\<Union>b \<in> set (slice_cells (l_Items (mem_lists m a))). file_cells m b))"

text \<open>The type invariant of a memory: no pointer in it dangles.\<close>

definition no_dangling :: "memory \<Rightarrow> bool" where
  "no_dangling m \<longleftrightarrow>
     (\<forall>a. meta_cells (m_ObjectMeta (mem_files m a)) \<subseteq> {..<mem_next m}) \<and>
     (\<forall>a. list_meta_cells (l_ListMeta (mem_lists m a)) \<subseteq> {..<mem_next m} \<and>
       set (slice_cells (l_Items (mem_lists m a))) \<subseteq> {..<mem_next m})"

text \<open>Two memories that agree on a set of addresses.\<close>

definition agree_on :: "nat set \<Rightarrow> memory \<Rightarrow> memory \<Rightarrow> bool" where
  "agree_on A m m' \<longleftrightarrow>
     (\<forall>a \<in> A. mem_maps m' a = mem_maps m a \<and> mem_ints m' a = mem_ints m a \<and>
       mem_files m' a = mem_files m a \<and> mem_lists m' a = mem_lists m a)"

text \<open>What an allocation of maps and numbers may do.\<close>

definition grows :: "memory \<Rightarrow> memory \<Rightarrow> bool" where
  "grows m m' \<longleftrightarrow>
     mem_next m \<le> mem_next m' \<and> mem_files m' = mem_files m \<and> mem_lists m' = mem_lists m \<and>
     (\<forall>a < mem_next m. mem_maps m' a = mem_maps m a \<and> mem_ints m' a = mem_ints m a)"

lemma put_file_sel [simp]:
  "mem_files (put_file a v m) = (mem_files m)(a := v)" "mem_lists (put_file a v m) = mem_lists m"
  "mem_maps (put_file a v m) = mem_maps m" "mem_ints (put_file a v m) = mem_ints m"
  "mem_next (put_file a v m) = mem_next m"
  by (simp_all add: put_file_def)

lemma put_list_sel [simp]:
  "mem_files (put_list a v m) = mem_files m" "mem_lists (put_list a v m) = (mem_lists m)(a := v)"
  "mem_maps (put_list a v m) = mem_maps m" "mem_ints (put_list a v m) = mem_ints m"
  "mem_next (put_list a v m) = mem_next m"
  by (simp_all add: put_list_def)

lemma put_file_same: "mem_files m a = v \<Longrightarrow> put_file a v m = m"
  by (simp add: put_file_def fun_upd_idem)

lemma put_list_same: "mem_lists m a = v \<Longrightarrow> put_list a v m = m"
  by (simp add: put_list_def fun_upd_idem)

lemma put_file_twice [simp]: "put_file a v (put_file a u m) = put_file a v m"
  by (simp add: put_file_def)

lemma put_list_twice [simp]: "put_list a v (put_list a u m) = put_list a v m"
  by (simp add: put_list_def)

lemma grows_refl [simp]: "grows m m"
  by (simp add: grows_def)

lemma agree_onD:
  assumes "agree_on A m m'" and "a \<in> A"
  shows "mem_maps m' a = mem_maps m a" "mem_ints m' a = mem_ints m a" "mem_files m' a = mem_files m a"
    "mem_lists m' a = mem_lists m a"
  using assms by (auto simp: agree_on_def)

lemma agree_on_subset: "agree_on A m m' \<Longrightarrow> B \<subseteq> A \<Longrightarrow> agree_on B m m'"
  by (auto simp: agree_on_def)

lemma agree_on_trans: "agree_on A m m' \<Longrightarrow> agree_on A m' m'' \<Longrightarrow> agree_on A m m''"
  by (simp add: agree_on_def)

text \<open>A view depends on the footprint only.\<close>

lemma meta_view_cong:
  assumes "\<And>a. a \<in> meta_cells x \<Longrightarrow> mem_maps m' a = mem_maps m a \<and> mem_ints m' a = mem_ints m a"
  shows "meta_view m' x = meta_view m x"
  using assms
  by (cases "mm_Annotations x"; cases "mm_DeletionTimestamp x") (auto simp: meta_view_def meta_cells_def)

lemma value_view_cong:
  assumes "\<And>a. a \<in> meta_cells (m_ObjectMeta v) \<Longrightarrow> mem_maps m' a = mem_maps m a \<and> mem_ints m' a = mem_ints m a"
  shows "value_view m' v = value_view m v"
  unfolding value_view_def by (simp only: meta_view_cong [OF assms])

lemma file_view_frame:
  assumes "agree_on A m m'" and "file_cells m a \<subseteq> A"
  shows "file_view m' a = file_view m a"
proof -
  have "mem_files m' a = mem_files m a"
    by (rule agree_onD [OF assms(1)]) (use assms(2) in \<open>auto simp: file_cells_def\<close>)
  moreover have "value_view m' (mem_files m a) = value_view m (mem_files m a)"
    by (rule value_view_cong) (use assms in \<open>auto simp: file_cells_def dest: agree_onD\<close>)
  ultimately show ?thesis by (simp add: file_view_def)
qed

lemma list_meta_view_cong:
  assumes "\<And>a. a \<in> list_meta_cells x \<Longrightarrow> mem_ints m' a = mem_ints m a"
  shows "list_meta_view m' x = list_meta_view m x"
  using assms by (cases "lm_RemainingItemCount x") (auto simp: list_meta_view_def list_meta_cells_def)

lemma list_view_frame:
  assumes "agree_on A m m'" and "list_cells m a \<subseteq> A"
  shows "list_view m' a = list_view m a"
proof -
  have same: "mem_lists m' a = mem_lists m a"
    by (rule agree_onD [OF assms(1)]) (use assms(2) in \<open>auto simp: list_cells_def\<close>)
  have meta: "list_meta_view m' (l_ListMeta (mem_lists m a)) = list_meta_view m (l_ListMeta (mem_lists m a))"
    by (rule list_meta_view_cong) (use assms in \<open>auto simp: list_cells_def dest: agree_onD\<close>)
  have items: "file_view m' b = file_view m b" if "b \<in> set (slice_cells (l_Items (mem_lists m a)))" for b
    by (rule file_view_frame [OF assms(1)]) (use assms(2) that in \<open>auto simp: list_cells_def\<close>)
  show ?thesis
    using items by (cases "l_Items (mem_lists m a)") (auto simp: list_view_def Let_def same meta)
qed

lemma no_danglingD:
  assumes "no_dangling m"
  shows "c \<in> meta_cells (m_ObjectMeta (mem_files m a)) \<Longrightarrow> c < mem_next m"
    and "c \<in> list_meta_cells (l_ListMeta (mem_lists m a)) \<Longrightarrow> c < mem_next m"
    and "c \<in> set (slice_cells (l_Items (mem_lists m a))) \<Longrightarrow> c < mem_next m"
  using assms unfolding no_dangling_def by blast+

lemma file_cells_below: "no_dangling m \<Longrightarrow> a < mem_next m \<Longrightarrow> file_cells m a \<subseteq> {..<mem_next m}"
  by (auto simp: file_cells_def dest: no_danglingD)

lemma list_cells_below: "no_dangling m \<Longrightarrow> a < mem_next m \<Longrightarrow> list_cells m a \<subseteq> {..<mem_next m}"
  by (auto simp: list_cells_def file_cells_def dest: no_danglingD)

text \<open>Memory that only gained pointers to allocated cells.\<close>

lemma no_dangling_growth:
  assumes "no_dangling m" and "mem_next m \<le> mem_next m'"
    and "\<And>a. mem_files m' a = mem_files m a \<or> meta_cells (m_ObjectMeta (mem_files m' a)) \<subseteq> {..<mem_next m'}"
    and "\<And>a. mem_lists m' a = mem_lists m a \<or>
      list_meta_cells (l_ListMeta (mem_lists m' a)) \<subseteq> {..<mem_next m'} \<and>
      set (slice_cells (l_Items (mem_lists m' a))) \<subseteq> {..<mem_next m'}"
  shows "no_dangling m'"
  unfolding no_dangling_def
proof (intro conjI allI)
  have le: "c < mem_next m \<Longrightarrow> c < mem_next m'" for c using assms(2) by simp
  fix a
  show "meta_cells (m_ObjectMeta (mem_files m' a)) \<subseteq> {..<mem_next m'}"
    using assms(3) [of a] no_danglingD(1) [OF assms(1), of _ a] le by auto
  show "list_meta_cells (l_ListMeta (mem_lists m' a)) \<subseteq> {..<mem_next m'}"
    using assms(4) [of a] no_danglingD(2) [OF assms(1), of _ a] le by auto
  show "set (slice_cells (l_Items (mem_lists m' a))) \<subseteq> {..<mem_next m'}"
    using assms(4) [of a] no_danglingD(3) [OF assms(1), of _ a] le by auto
qed

section \<open>The contract of the metadata's copies\<close>

locale meta_copies =
  fixes lib :: meta_lib
  assumes object_meta_copy: "ObjectMeta_DeepCopyInto lib x m = (y, m') \<Longrightarrow> meta_cells x \<subseteq> {..<mem_next m} \<Longrightarrow>
      grows m m' \<and> meta_view m' y = meta_view m x \<and> meta_cells y \<subseteq> {mem_next m..<mem_next m'}"
    and list_meta_copy: "ListMeta_DeepCopyInto lib u m = (v, m') \<Longrightarrow> list_meta_cells u \<subseteq> {..<mem_next m} \<Longrightarrow>
      grows m m' \<and> list_meta_view m' v = list_meta_view m u \<and> list_meta_cells v \<subseteq> {mem_next m..<mem_next m'}"
begin

text \<open>One object copied into a cell.\<close>

lemma copy_into:
  assumes "no_dangling m"
  obtains meta m' where "KongFile_DeepCopyInto lib src out m = m'" and "mem_next m \<le> mem_next m'"
    and "mem_files m' = (mem_files m)(out := (mem_files m src)\<lparr>m_ObjectMeta := meta\<rparr>)"
    and "mem_lists m' = mem_lists m"
    and "\<And>a. a < mem_next m \<Longrightarrow> mem_maps m' a = mem_maps m a \<and> mem_ints m' a = mem_ints m a"
    and "meta_view m' meta = meta_view m (m_ObjectMeta (mem_files m src))"
    and "meta_cells meta \<subseteq> {mem_next m..<mem_next m'}"
proof -
  let ?v = "mem_files m src"
  define m1 where "m1 = put_file out ?v m"
  obtain meta m3 where cp: "ObjectMeta_DeepCopyInto lib (m_ObjectMeta ?v) m1 = (meta, m3)"
    by (cases "ObjectMeta_DeepCopyInto lib (m_ObjectMeta ?v) m1")
  have m1: "mem_files m1 = (mem_files m)(out := ?v)" "mem_files m1 src = ?v" "mem_next m1 = mem_next m"
    "mem_lists m1 = mem_lists m" "mem_maps m1 = mem_maps m" "mem_ints m1 = mem_ints m"
    by (simp_all add: m1_def)
  have "meta_cells (m_ObjectMeta ?v) \<subseteq> {..<mem_next m1}"
    using no_danglingD(1) [OF assms, of _ src] by (auto simp: m1_def)
  from object_meta_copy [OF cp this] have c: "grows m1 m3"
    "meta_view m3 meta = meta_view m1 (m_ObjectMeta ?v)" "meta_cells meta \<subseteq> {mem_next m1..<mem_next m3}"
    by simp_all
  have g: "mem_next m \<le> mem_next m3" "mem_files m3 = mem_files m1" "mem_lists m3 = mem_lists m"
    "\<And>a. a < mem_next m \<Longrightarrow> mem_maps m3 a = mem_maps m a \<and> mem_ints m3 a = mem_ints m a"
    using c(1) by (simp_all add: grows_def m1)
  have same: "meta_view (put_file out w m') x = meta_view m' x" for w m' x
    by (rule meta_view_cong) simp
  have step2: "put_file out ((mem_files m1 out)\<lparr>m_TypeMeta := m_TypeMeta ?v\<rparr>) m1 = m1"
    by (rule put_file_same) (simp add: m1)
  have "KongFile_DeepCopyInto lib src out m = put_file out (?v\<lparr>m_ObjectMeta := meta\<rparr>) m3"
    unfolding KongFile_DeepCopyInto_def m1_def [symmetric] Let_def step2 m1(2) cp prod.case
    by (simp add: g(2) m1)
  then show ?thesis
    by (rule that) (use g c in \<open>simp_all add: m1 m1_def same\<close>)
qed

text \<open>The loop over the items, between two windows of memory that do not overlap.\<close>

lemma copy_items_windows:
  assumes "no_dangling m"
    and "l_Items (mem_lists m src) = Some (sf, n)" and "l_Items (mem_lists m out) = Some (df, n)"
    and "sf + n \<le> df" and "distinct is" and "set is \<subseteq> {..<n}"
  shows "\<exists>m'. copy_items lib src out is m = Return m' \<and> mem_next m \<le> mem_next m' \<and>
    mem_lists m' = mem_lists m \<and>
    (\<forall>a. a \<notin> (+) df ` set is \<longrightarrow> mem_files m' a = mem_files m a) \<and>
    (\<forall>a < mem_next m. mem_maps m' a = mem_maps m a \<and> mem_ints m' a = mem_ints m a) \<and>
    (\<forall>i \<in> set is. value_view m' (mem_files m' (df + i)) = file_view m (sf + i) \<and>
      meta_cells (m_ObjectMeta (mem_files m' (df + i))) \<subseteq> {mem_next m..<mem_next m'})"
  using assms
proof (induction "is" arbitrary: m)
  case Nil
  then show ?case by simp
next
  case (Cons i "is")
  let ?v = "mem_files m (sf + i)"
  from copy_into [OF Cons.prems(1), of "sf + i" "df + i"] obtain meta m1 where
    c: "KongFile_DeepCopyInto lib (sf + i) (df + i) m = m1" "mem_next m \<le> mem_next m1"
      "mem_files m1 = (mem_files m)(df + i := ?v\<lparr>m_ObjectMeta := meta\<rparr>)" "mem_lists m1 = mem_lists m"
      "\<And>a. a < mem_next m \<Longrightarrow> mem_maps m1 a = mem_maps m a \<and> mem_ints m1 a = mem_ints m a"
      "meta_view m1 meta = meta_view m (m_ObjectMeta ?v)" "meta_cells meta \<subseteq> {mem_next m..<mem_next m1}"
    by metis
  have i: "i < n" "i \<notin> set is" "distinct is" "set is \<subseteq> {..<n}"
    using Cons.prems(5,6) by auto
  have nd1: "no_dangling m1"
    by (rule no_dangling_growth [OF Cons.prems(1) c(2)]) (use c(7) in \<open>auto simp: c(3,4)\<close>)
  from Cons.IH [OF nd1, unfolded c(4), OF Cons.prems(2-4) i(3,4)] obtain m' where
    h: "copy_items lib src out is m1 = Return m'" "mem_next m1 \<le> mem_next m'" "mem_lists m' = mem_lists m"
      "\<And>a. a \<notin> (+) df ` set is \<Longrightarrow> mem_files m' a = mem_files m1 a"
      "\<And>a. a < mem_next m1 \<Longrightarrow> mem_maps m' a = mem_maps m1 a \<and> mem_ints m' a = mem_ints m1 a"
      "\<And>j. j \<in> set is \<Longrightarrow> value_view m' (mem_files m' (df + j)) = file_view m1 (sf + j) \<and>
        meta_cells (m_ObjectMeta (mem_files m' (df + j))) \<subseteq> {mem_next m1..<mem_next m'}"
    by blast
  have new: "mem_files m' (df + i) = ?v\<lparr>m_ObjectMeta := meta\<rparr>"
    using h(4) [of "df + i"] i(2) by (simp add: c(3) inj_image_mem_iff)
  have "meta_view m' meta = meta_view m1 meta"
    by (rule meta_view_cong) (use c(7) h(5) in auto)
  then have first: "value_view m' (mem_files m' (df + i)) = file_view m (sf + i)"
    by (simp add: new value_view_def file_view_def c(6))
  have old: "file_view m1 (sf + j) = file_view m (sf + j)" if "j \<in> set is" for j
  proof -
    have "mem_files m1 (sf + j) = mem_files m (sf + j)"
      using that i(4) Cons.prems(4) by (auto simp: c(3))
    moreover have "value_view m1 (mem_files m (sf + j)) = value_view m (mem_files m (sf + j))"
      by (rule value_view_cong) (use c(5) no_danglingD(1) [OF Cons.prems(1)] in blast)
    ultimately show ?thesis by (simp add: file_view_def)
  qed
  have "copy_items lib src out (i # is) m = Return m'"
    using i(1) h(1) c(1) Cons.prems(2,3) by (simp add: slice_index_def)
  moreover have "mem_next m \<le> mem_next m'" using c(2) h(2) by simp
  moreover have "mem_files m' a = mem_files m a" if "a \<notin> (+) df ` set (i # is)" for a
    using that h(4) [of a] by (auto simp: c(3))
  moreover have "mem_maps m' a = mem_maps m a \<and> mem_ints m' a = mem_ints m a" if "a < mem_next m" for a
    using that c(2) c(5) [of a] h(5) [of a] by simp
  moreover have "value_view m' (mem_files m' (df + j)) = file_view m (sf + j) \<and>
      meta_cells (m_ObjectMeta (mem_files m' (df + j))) \<subseteq> {mem_next m..<mem_next m'}" if "j \<in> set (i # is)" for j
  proof (cases "j = i")
    case True
    then show ?thesis using first new c(7) h(2) by auto
  next
    case False
    with that have "j \<in> set is" by simp
    with h(6) [OF this] old [OF this] c(2) show ?thesis by auto
  qed
  ultimately show ?case using h(3) by (intro exI [of _ m'] conjI) simp_all
qed

text \<open>A fresh object.\<close>

lemma DeepCopy_fresh:
  assumes nd: "no_dangling m" and src: "src < mem_next m"
  obtains m' where "KongFile_DeepCopy lib (Some src) m = (Some (mem_next m), m')" and "no_dangling m'"
    and "file_view m' (mem_next m) = file_view m src" and "agree_on {..<mem_next m} m m'"
    and "file_cells m' (mem_next m) \<subseteq> {mem_next m..}"
proof -
  let ?out = "mem_next m"
  define m1 where "m1 = snd (alloc_KongFile m)"
  have m1: "alloc_KongFile m = (?out, m1)" "mem_files m1 = (mem_files m)(?out := zero_mem_KongFile)"
    "mem_next m1 = ?out + 1" "mem_lists m1 = mem_lists m" "mem_maps m1 = mem_maps m" "mem_ints m1 = mem_ints m"
    by (simp_all add: m1_def alloc_KongFile_def)
  have nd1: "no_dangling m1"
    by (rule no_dangling_growth [OF nd]) (auto simp: m1 zero_mem_KongFile_def meta_cells_def)
  have v: "mem_files m1 src = mem_files m src" using src by (simp add: m1)
  from copy_into [OF nd1, of src ?out] obtain meta m' where
    c: "KongFile_DeepCopyInto lib src ?out m1 = m'" "mem_next m1 \<le> mem_next m'"
      "mem_files m' = (mem_files m1)(?out := (mem_files m src)\<lparr>m_ObjectMeta := meta\<rparr>)" "mem_lists m' = mem_lists m1"
      "\<And>a. a < mem_next m1 \<Longrightarrow> mem_maps m' a = mem_maps m1 a \<and> mem_ints m' a = mem_ints m1 a"
      "meta_view m' meta = meta_view m1 (m_ObjectMeta (mem_files m src))"
      "meta_cells meta \<subseteq> {mem_next m1..<mem_next m'}"
    by (metis v)
  have same: "meta_view m1 x = meta_view m x" for x
    by (rule meta_view_cong) (simp add: m1)
  show ?thesis
  proof (rule that)
    show "KongFile_DeepCopy lib (Some src) m = (Some ?out, m')"
      using c(1) by (simp add: m1(1))
    show "no_dangling m'"
      by (rule no_dangling_growth [OF nd1 c(2)]) (use c(7) in \<open>auto simp: c(3,4)\<close>)
    show "file_view m' ?out = file_view m src"
      by (simp add: file_view_def value_view_def c(3,6) same)
    show "agree_on {..<?out} m m'"
      using c(5) by (simp add: agree_on_def c(3,4) m1)
    show "file_cells m' ?out \<subseteq> {?out..}"
      using c(7) by (auto simp: file_cells_def c(3) m1(3))
  qed
qed

text \<open>A fresh list: first its metadata, then a fresh window for the items.\<close>

lemma list_meta_step:
  assumes nd: "no_dangling m" and src: "src < mem_next m"
  obtains m4 meta where "no_dangling m4" and "mem_next m < mem_next m4"
    and "mem_lists m4 = (mem_lists m)(mem_next m := (mem_lists m src)\<lparr>l_ListMeta := meta\<rparr>)"
    and "mem_files m4 = mem_files m" and "list_meta_cells meta \<subseteq> {mem_next m..<mem_next m4}"
    and "\<And>a. a < mem_next m \<Longrightarrow> mem_maps m4 a = mem_maps m a \<and> mem_ints m4 a = mem_ints m a"
    and "list_meta_view m4 meta = list_meta_view m (l_ListMeta (mem_lists m src))"
    and "KongFileList_DeepCopy lib (Some src) m = map_outcome_val (Pair (Some (mem_next m)))
      (case l_Items (mem_lists m src) of
         None \<Rightarrow> Return m4
       | Some (sf, n) \<Rightarrow>
           (let (first, m5) = make_KongFiles n m4
            in copy_items lib src (mem_next m) [0..<n]
                 (put_list (mem_next m) ((mem_lists m5 (mem_next m))\<lparr>l_Items := Some (first, n)\<rparr>) m5)))"
proof -
  let ?out = "mem_next m" and ?v = "mem_lists m src"
  define m1 where "m1 = snd (alloc_KongFileList m)"
  define m2 where "m2 = put_list ?out ?v m1"
  obtain meta m3 where cp: "ListMeta_DeepCopyInto lib (l_ListMeta ?v) m2 = (meta, m3)"
    by (cases "ListMeta_DeepCopyInto lib (l_ListMeta ?v) m2")
  have ne: "src \<noteq> ?out" using src by simp
  have m2: "alloc_KongFileList m = (?out, m1)" "mem_lists m1 src = ?v"
    "mem_lists m2 = (mem_lists m)(?out := ?v)" "mem_lists m2 src = ?v" "mem_next m2 = ?out + 1"
    "mem_files m2 = mem_files m" "mem_maps m2 = mem_maps m" "mem_ints m2 = mem_ints m"
    using ne by (simp_all add: m2_def m1_def alloc_KongFileList_def)
  have "list_meta_cells (l_ListMeta ?v) \<subseteq> {..<mem_next m2}"
    using no_danglingD(2) [OF nd, of _ src] by (force simp: m2(5))
  from list_meta_copy [OF cp this] have c: "grows m2 m3"
    "list_meta_view m3 meta = list_meta_view m2 (l_ListMeta ?v)" "list_meta_cells meta \<subseteq> {mem_next m2..<mem_next m3}"
    by simp_all
  have g: "?out < mem_next m3" "mem_files m3 = mem_files m" "mem_lists m3 = (mem_lists m)(?out := ?v)"
    "\<And>a. a < ?out \<Longrightarrow> mem_maps m3 a = mem_maps m a \<and> mem_ints m3 a = mem_ints m a"
    using c(1) by (simp_all add: grows_def m2)
  define m4 where "m4 = put_list ?out (?v\<lparr>l_ListMeta := meta\<rparr>) m3"
  have m4: "mem_lists m4 = (mem_lists m)(?out := ?v\<lparr>l_ListMeta := meta\<rparr>)" "mem_lists m4 src = ?v"
    "mem_files m4 = mem_files m" "mem_next m4 = mem_next m3"
    using ne by (simp_all add: m4_def g)
  have step2: "put_list ?out ((mem_lists m2 ?out)\<lparr>l_TypeMeta := l_TypeMeta ?v\<rparr>) m2 = m2"
    by (rule put_list_same) (simp add: m2)
  have step4: "put_list ?out ((mem_lists m3 ?out)\<lparr>l_ListMeta := meta\<rparr>) m3 = m4"
    by (simp add: m4_def g(3))
  show ?thesis
  proof (rule that)
    have "set (slice_cells (l_Items ?v)) \<subseteq> {..<mem_next m4}"
      using no_danglingD(3) [OF nd, of _ src] g(1) by (force simp: m4(4))
    then show "no_dangling m4"
      using nd g(1) c(3) by (intro no_dangling_growth [OF nd]) (auto simp: m4)
    show "?out < mem_next m4" and "list_meta_cells meta \<subseteq> {?out..<mem_next m4}"
      using g(1) c(3) by (auto simp: m4(4) m2(5))
    show "mem_maps m4 a = mem_maps m a \<and> mem_ints m4 a = mem_ints m a" if "a < ?out" for a
      using g(4) [OF that] by (simp add: m4_def)
    have "list_meta_view m4 meta = list_meta_view m3 meta"
      by (rule list_meta_view_cong) (simp add: m4_def)
    also have "\<dots> = list_meta_view m (l_ListMeta ?v)"
      unfolding c(2) by (rule list_meta_view_cong) (simp add: m2)
    finally show "list_meta_view m4 meta = list_meta_view m (l_ListMeta ?v)" .
    have into: "KongFileList_DeepCopyInto lib src ?out m1 = (case l_Items ?v of None \<Rightarrow> Return m4
       | Some (sf, n) \<Rightarrow> (let (first, m5) = make_KongFiles n m4
            in copy_items lib src ?out [0..<n] (put_list ?out ((mem_lists m5 ?out)\<lparr>l_Items := Some (first, n)\<rparr>) m5)))"
      unfolding KongFileList_DeepCopyInto_def m2(2) m2_def [symmetric] Let_def m2(4) step2 cp prod.case step4 m4(2)
      using ne m4(2) by (auto simp: make_KongFiles_def split: option.split)
    show "KongFileList_DeepCopy lib (Some src) m = map_outcome_val (Pair (Some ?out)) (case l_Items ?v of None \<Rightarrow> Return m4
       | Some (sf, n) \<Rightarrow> (let (first, m5) = make_KongFiles n m4
            in copy_items lib src ?out [0..<n] (put_list ?out ((mem_lists m5 ?out)\<lparr>l_Items := Some (first, n)\<rparr>) m5)))"
      by (simp add: m2(1) into)
  qed (simp_all add: m4)
qed

lemma copy_window:
  assumes nd: "no_dangling m" and items: "l_Items (mem_lists m src) = Some (sf, n)" and ne: "src \<noteq> out"
  obtains m' where "(let (first, m5) = make_KongFiles n m
      in copy_items lib src out [0..<n] (put_list out ((mem_lists m5 out)\<lparr>l_Items := Some (first, n)\<rparr>) m5)) = Return m'"
    and "no_dangling m'" and "mem_next m \<le> mem_next m'"
    and "mem_lists m' = (mem_lists m)(out := (mem_lists m out)\<lparr>l_Items := Some (mem_next m, n)\<rparr>)"
    and "\<And>a. a < mem_next m \<Longrightarrow>
      mem_maps m' a = mem_maps m a \<and> mem_ints m' a = mem_ints m a \<and> mem_files m' a = mem_files m a"
    and "\<And>i. i < n \<Longrightarrow> file_view m' (mem_next m + i) = file_view m (sf + i)"
    and "\<And>i. i < n \<Longrightarrow> file_cells m' (mem_next m + i) \<subseteq> {mem_next m..}"
proof -
  let ?df = "mem_next m"
  define m6 where "m6 = put_list out ((mem_lists m out)\<lparr>l_Items := Some (?df, n)\<rparr>) (snd (make_KongFiles n m))"
  have m6: "mem_lists m6 = (mem_lists m)(out := (mem_lists m out)\<lparr>l_Items := Some (?df, n)\<rparr>)"
    "mem_next m6 = ?df + n" "mem_maps m6 = mem_maps m" "mem_ints m6 = mem_ints m"
    "\<And>a. a < ?df \<Longrightarrow> mem_files m6 a = mem_files m a"
    "\<And>a. mem_files m6 a = mem_files m a \<or> mem_files m6 a = zero_mem_KongFile"
    by (auto simp: m6_def make_KongFiles_def)
  have below: "sf + i < ?df" if "i < n" for i
    using no_danglingD(3) [OF nd, of "sf + i" src] that by (simp add: items slice_cells_def)
  have nd6: "no_dangling m6"
  proof (rule no_dangling_growth [OF nd])
    show "mem_files m6 a = mem_files m a \<or> meta_cells (m_ObjectMeta (mem_files m6 a)) \<subseteq> {..<mem_next m6}" for a
      using m6(6) [of a] by (auto simp: zero_mem_KongFile_def meta_cells_def)
    show "mem_lists m6 a = mem_lists m a \<or> list_meta_cells (l_ListMeta (mem_lists m6 a)) \<subseteq> {..<mem_next m6} \<and>
        set (slice_cells (l_Items (mem_lists m6 a))) \<subseteq> {..<mem_next m6}" for a
      using no_danglingD(2) [OF nd, of _ out] by (cases "a = out") (force simp: m6(1,2) slice_cells_def)+
  qed (simp add: m6(2))
  have "\<exists>m'. copy_items lib src out [0..<n] m6 = Return m' \<and> mem_next m6 \<le> mem_next m' \<and>
      mem_lists m' = mem_lists m6 \<and> (\<forall>a. a \<notin> (+) ?df ` set [0..<n] \<longrightarrow> mem_files m' a = mem_files m6 a) \<and>
      (\<forall>a < mem_next m6. mem_maps m' a = mem_maps m6 a \<and> mem_ints m' a = mem_ints m6 a) \<and>
      (\<forall>i \<in> set [0..<n]. value_view m' (mem_files m' (?df + i)) = file_view m6 (sf + i) \<and>
        meta_cells (m_ObjectMeta (mem_files m' (?df + i))) \<subseteq> {mem_next m6..<mem_next m'})"
  proof (cases n)
    case (Suc j)
    then have "sf + n \<le> ?df" using below [of j] by simp
    then show ?thesis
      by (rule copy_items_windows [OF nd6, rotated 2]) (use ne in \<open>auto simp: m6(1) items\<close>)
  qed simp
  then obtain m' where c: "copy_items lib src out [0..<n] m6 = Return m'" "mem_next m6 \<le> mem_next m'"
      "mem_lists m' = mem_lists m6"
      "\<And>a. a \<notin> (+) ?df ` set [0..<n] \<Longrightarrow> mem_files m' a = mem_files m6 a"
      "\<And>a. a < mem_next m6 \<Longrightarrow> mem_maps m' a = mem_maps m6 a \<and> mem_ints m' a = mem_ints m6 a"
      "\<And>i. i < n \<Longrightarrow> value_view m' (mem_files m' (?df + i)) = file_view m6 (sf + i)"
      "\<And>i. i < n \<Longrightarrow> meta_cells (m_ObjectMeta (mem_files m' (?df + i))) \<subseteq> {mem_next m6..<mem_next m'}"
    by auto
  show ?thesis
  proof (rule that)
    show "(let (first, m5) = make_KongFiles n m in copy_items lib src out [0..<n]
        (put_list out ((mem_lists m5 out)\<lparr>l_Items := Some (first, n)\<rparr>) m5)) = Return m'"
      using c(1) by (simp add: make_KongFiles_def m6_def)
    show "no_dangling m'"
    proof (rule no_dangling_growth [OF nd6 c(2)])
      show "mem_files m' a = mem_files m6 a \<or> meta_cells (m_ObjectMeta (mem_files m' a)) \<subseteq> {..<mem_next m'}" for a
        using c(4) [of a] c(7) by fastforce
    qed (simp add: c(3))
    show "mem_maps m' a = mem_maps m a \<and> mem_ints m' a = mem_ints m a \<and> mem_files m' a = mem_files m a"
      if "a < ?df" for a
      using that c(4,5) [of a] m6(5) [of a] by (auto simp: m6(2-4))
    show "file_view m' (?df + i) = file_view m (sf + i)" if "i < n" for i
      using c(6) [OF that] m6(5) [OF below [OF that]] value_view_cong [of "mem_files m (sf + i)" m6 m]
      by (simp add: file_view_def m6(3,4))
    show "file_cells m' (?df + i) \<subseteq> {?df..}" if "i < n" for i
      using c(7) [OF that] by (auto simp: file_cells_def m6(2))
  qed (use c(2) in \<open>simp_all add: c(3) m6(1,2)\<close>)
qed

lemma KongFileList_DeepCopy_fresh:
  assumes nd: "no_dangling m" and src: "src < mem_next m"
  obtains m' where "KongFileList_DeepCopy lib (Some src) m = Return (Some (mem_next m), m')" and "no_dangling m'"
    and "list_view m' (mem_next m) = list_view m src" and "agree_on {..<mem_next m} m m'"
    and "list_cells m' (mem_next m) \<subseteq> {mem_next m..}"
proof -
  let ?out = "mem_next m" and ?v = "mem_lists m src"
  have ne: "src \<noteq> ?out" using src by simp
  from list_meta_step [OF nd src] obtain m4 meta where
    s: "no_dangling m4" "?out < mem_next m4"
      "mem_lists m4 = (mem_lists m)(?out := ?v\<lparr>l_ListMeta := meta\<rparr>)" "mem_files m4 = mem_files m"
      "list_meta_cells meta \<subseteq> {?out..<mem_next m4}"
      "\<And>a. a < ?out \<Longrightarrow> mem_maps m4 a = mem_maps m a \<and> mem_ints m4 a = mem_ints m a"
      "list_meta_view m4 meta = list_meta_view m (l_ListMeta ?v)"
    and run: "KongFileList_DeepCopy lib (Some src) m = map_outcome_val (Pair (Some ?out)) (case l_Items ?v of
         None \<Rightarrow> Return m4
       | Some (sf, n) \<Rightarrow> (let (first, m5) = make_KongFiles n m4
            in copy_items lib src ?out [0..<n] (put_list ?out ((mem_lists m5 ?out)\<lparr>l_Items := Some (first, n)\<rparr>) m5)))"
    by blast
  show ?thesis
  proof (cases "l_Items ?v")
    case None
    show ?thesis
    proof (rule that [OF _ s(1)])
      show "KongFileList_DeepCopy lib (Some src) m = Return (Some ?out, m4)" using run None by simp
      show "list_view m4 ?out = list_view m src" by (simp add: list_view_def Let_def s(3,7) None)
      show "agree_on {..<?out} m m4" using s(6) by (simp add: agree_on_def s(3,4))
      show "list_cells m4 ?out \<subseteq> {?out..}" using s(5) by (auto simp: list_cells_def s(3) None slice_cells_def)
    qed
  next
    case (Some sl)
    then obtain sf n where items: "l_Items ?v = Some (sf, n)" by (cases sl) simp
    then have "l_Items (mem_lists m4 src) = Some (sf, n)" using ne by (simp add: s(3))
    from copy_window [OF s(1) this ne] obtain m' where
      c: "(let (first, m5) = make_KongFiles n m4 in copy_items lib src ?out [0..<n]
          (put_list ?out ((mem_lists m5 ?out)\<lparr>l_Items := Some (first, n)\<rparr>) m5)) = Return m'"
        "no_dangling m'" "mem_next m4 \<le> mem_next m'"
        "mem_lists m' = (mem_lists m4)(?out := (mem_lists m4 ?out)\<lparr>l_Items := Some (mem_next m4, n)\<rparr>)"
        "\<And>a. a < mem_next m4 \<Longrightarrow>
          mem_maps m' a = mem_maps m4 a \<and> mem_ints m' a = mem_ints m4 a \<and> mem_files m' a = mem_files m4 a"
        "\<And>i. i < n \<Longrightarrow> file_view m' (mem_next m4 + i) = file_view m4 (sf + i)"
        "\<And>i. i < n \<Longrightarrow> file_cells m' (mem_next m4 + i) \<subseteq> {mem_next m4..}"
      by blast
    have old: "file_view m4 (sf + i) = file_view m (sf + i)" for i
      unfolding file_view_def s(4)
      by (rule value_view_cong) (use no_danglingD(1) [OF nd] s(6) in blast)
    have "list_meta_view m' meta = list_meta_view m4 meta"
      by (rule list_meta_view_cong) (use s(5) c(5) in auto)
    then have view: "list_view m' ?out = list_view m src"
      by (simp add: list_view_def Let_def c(4) s(3,7) items slice_cells_def list_eq_iff_nth_eq c(6) old)
    show ?thesis
    proof (rule that [OF _ c(2) view])
      show "KongFileList_DeepCopy lib (Some src) m = Return (Some ?out, m')" using run c(1) by (simp add: items)
      show "agree_on {..<?out} m m'" using s(2,6) c(5) by (simp add: agree_on_def c(4) s(3,4))
      have "file_cells m' (mem_next m4 + i) \<subseteq> {?out..}" if "i < n" for i
        using c(7) [OF that] s(2) by auto
      then show "list_cells m' ?out \<subseteq> {?out..}"
        using s(5) by (force simp: list_cells_def c(4) s(3) slice_cells_def le_iff_add)
    qed
  qed
qed

end

section \<open>An executable copy of the metadata\<close>

fun copy_map :: "nat option \<Rightarrow> memory \<Rightarrow> nat option \<times> memory" where
  "copy_map None m = (None, m)"
| "copy_map (Some a) m =
     (Some (mem_next m), m\<lparr>mem_maps := (mem_maps m)(mem_next m := mem_maps m a), mem_next := mem_next m + 1\<rparr>)"

fun copy_int :: "nat option \<Rightarrow> memory \<Rightarrow> nat option \<times> memory" where
  "copy_int None m = (None, m)"
| "copy_int (Some a) m =
     (Some (mem_next m), m\<lparr>mem_ints := (mem_ints m)(mem_next m := mem_ints m a), mem_next := mem_next m + 1\<rparr>)"

definition apimachinery :: meta_lib where
  "apimachinery =
     \<lparr>ObjectMeta_DeepCopyInto = (\<lambda>x m.
        let (a, m1) = copy_map (mm_Annotations x) m; (t, m2) = copy_int (mm_DeletionTimestamp x) m1
        in (x\<lparr>mm_Annotations := a, mm_DeletionTimestamp := t\<rparr>, m2)),
      ListMeta_DeepCopyInto = (\<lambda>x m.
        let (c, m1) = copy_int (lm_RemainingItemCount x) m in (x\<lparr>lm_RemainingItemCount := c\<rparr>, m1))\<rparr>"

interpretation go_copies: meta_copies apimachinery
proof
  fix x m y m'
  assume "ObjectMeta_DeepCopyInto apimachinery x m = (y, m')" and "meta_cells x \<subseteq> {..<mem_next m}"
  then show "grows m m' \<and> meta_view m' y = meta_view m x \<and> meta_cells y \<subseteq> {mem_next m..<mem_next m'}"
    by (cases "mm_Annotations x"; cases "mm_DeletionTimestamp x")
      (auto simp: apimachinery_def grows_def meta_view_def meta_cells_def)
next
  fix u m v m'
  assume "ListMeta_DeepCopyInto apimachinery u m = (v, m')" and "list_meta_cells u \<subseteq> {..<mem_next m}"
  then show "grows m m' \<and> list_meta_view m' v = list_meta_view m u \<and>
      list_meta_cells v \<subseteq> {mem_next m..<mem_next m'}"
    by (cases "lm_RemainingItemCount u")
      (auto simp: apimachinery_def grows_def list_meta_view_def list_meta_cells_def)
qed

section \<open>The steps of a memory\<close>

text \<open>Allocations, stores of values whose pointers are allocated, and copies.\<close>

inductive memory_step :: "meta_lib \<Rightarrow> memory \<Rightarrow> memory \<Rightarrow> bool" for lib :: meta_lib where
  alloc_file: "memory_step lib m (snd (make_KongFiles n m))"
| alloc_list: "memory_step lib m (snd (alloc_KongFileList m))"
| store_file: "meta_cells (m_ObjectMeta v) \<subseteq> {..<mem_next m} \<Longrightarrow> memory_step lib m (put_file a v m)"
| store_list: "list_meta_cells (l_ListMeta v) \<subseteq> {..<mem_next m} \<Longrightarrow>
    set (slice_cells (l_Items v)) \<subseteq> {..<mem_next m} \<Longrightarrow> memory_step lib m (put_list a v m)"
| store_data: "mem_next m \<le> n \<Longrightarrow> memory_step lib m (m\<lparr>mem_maps := f, mem_ints := g, mem_next := n\<rparr>)"
| copy_file_into: "memory_step lib m (KongFile_DeepCopyInto lib a b m)"
| copy_file: "a < mem_next m \<Longrightarrow> KongFile_DeepCopy lib (Some a) m = (r, m') \<Longrightarrow> memory_step lib m m'"
| copy_list: "a < mem_next m \<Longrightarrow> KongFileList_DeepCopy lib (Some a) m = Return (r, m') \<Longrightarrow> memory_step lib m m'"

definition empty_memory :: memory where
  "empty_memory =
     \<lparr>mem_maps = \<lambda>_. Map.empty, mem_ints = \<lambda>_. 0, mem_files = \<lambda>_. zero_mem_KongFile,
      mem_lists = \<lambda>_. zero_KongFileList, mem_specs = \<lambda>_. kf_Spec zero_KongFile,
      mem_statuses = \<lambda>_. kf_Status zero_KongFile, mem_next = 0\<rparr>"

lemma no_dangling_empty: "no_dangling empty_memory"
  by (simp add: no_dangling_def empty_memory_def zero_mem_KongFile_def zero_KongFileList_def meta_cells_def
      list_meta_cells_def slice_cells_def)

context meta_copies
begin

lemma copy_into_typed:
  assumes "no_dangling m"
  shows "no_dangling (KongFile_DeepCopyInto lib a b m)"
proof -
  from copy_into [OF assms, of a b] obtain meta m' where c: "KongFile_DeepCopyInto lib a b m = m'"
    "mem_next m \<le> mem_next m'" "mem_files m' = (mem_files m)(b := (mem_files m a)\<lparr>m_ObjectMeta := meta\<rparr>)"
    "mem_lists m' = mem_lists m" "meta_cells meta \<subseteq> {mem_next m..<mem_next m'}"
    by metis
  show ?thesis
    unfolding c(1) by (rule no_dangling_growth [OF assms c(2)]) (use c(5) in \<open>auto simp: c(3,4)\<close>)
qed

lemma memory_step_typed:
  assumes "no_dangling m" and "memory_step lib m m'"
  shows "no_dangling m'"
  using assms(2)
proof cases
  case (alloc_file n)
  then show ?thesis
    by (intro no_dangling_growth [OF assms(1)])
      (auto simp: make_KongFiles_def zero_mem_KongFile_def meta_cells_def)
next
  case alloc_list
  then show ?thesis
    by (intro no_dangling_growth [OF assms(1)])
      (auto simp: alloc_KongFileList_def zero_KongFileList_def list_meta_cells_def slice_cells_def)
next
  case (store_file v a)
  then show ?thesis by (intro no_dangling_growth [OF assms(1)]) auto
next
  case (store_list v a)
  then show ?thesis by (intro no_dangling_growth [OF assms(1)]) auto
next
  case (store_data n f g)
  then show ?thesis by (intro no_dangling_growth [OF assms(1)]) auto
next
  case (copy_file_into a b)
  then show ?thesis using copy_into_typed [OF assms(1)] by simp
next
  case (copy_file a r)
  then show ?thesis
    using DeepCopy_fresh [OF assms(1) copy_file(1)] by (metis prod.inject)
next
  case (copy_list a r)
  then show ?thesis
    using KongFileList_DeepCopy_fresh [OF assms(1) copy_list(1)] by (metis prod.inject outcome.inject(1))
qed

end

sublocale meta_copies \<subseteq> typed: invariant_system "\<lambda>m. m = empty_memory" "memory_step lib" no_dangling
  by unfold_locales (auto simp: no_dangling_empty dest: memory_step_typed)

section \<open>A sample memory\<close>

text \<open>An object with annotations and a deletion timestamp, and a list of it.\<close>

definition sample_memory :: memory where
  "sample_memory = empty_memory
     \<lparr>mem_maps := (\<lambda>_. Map.empty)(0 := [''owner'' \<mapsto> ''team'']),
      mem_ints := (\<lambda>_. 0)(1 := 7),
      mem_files := (\<lambda>_. zero_mem_KongFile)(2 := zero_mem_KongFile\<lparr>m_ObjectMeta :=
        \<lparr>mm_Name = ''logo'', mm_Namespace = ''default'', mm_Annotations = Some 0, mm_DeletionTimestamp = Some 1\<rparr>\<rparr>),
      mem_lists := (\<lambda>_. zero_KongFileList)(3 := zero_KongFileList\<lparr>l_Items := Some (2, 1)\<rparr>),
      mem_next := 4\<rparr>"

lemma sample_memory_typed: "no_dangling sample_memory"
  by (auto simp: no_dangling_def sample_memory_def empty_memory_def zero_mem_KongFile_def zero_KongFileList_def
      meta_cells_def list_meta_cells_def slice_cells_def)

lemma sample_memory_next [simp]: "mem_next sample_memory = 4"
  by (simp add: sample_memory_def)

section \<open>Properties\<close>

text \<open>C20. The generated copy of a KongFile reads as the same resource as the original, and the
  two share no memory: whatever is later written to memory allocated by or after the copy leaves the
  original as it is, and whatever is later written to memory that existed before, the annotations and
  the timestamp of the original included, leaves the copy as it is.\<close>
theorem deep_copy_is_independent:
  assumes lib: "meta_copies lib" and nd: "no_dangling m" and src: "src < mem_next m"
    and copy: "KongFile_DeepCopyObject lib (Some src) m = (r, m')"
  shows "\<exists>out. r = Some (KongFilePtr out) \<and> no_dangling m' \<and> file_view m' out = file_view m src \<and>
    (\<forall>m''. agree_on {..<mem_next m} m' m'' \<longrightarrow> file_view m'' src = file_view m src) \<and>
    (\<forall>m''. agree_on {mem_next m..} m' m'' \<longrightarrow> file_view m'' out = file_view m src)"
proof -
  from meta_copies.DeepCopy_fresh [OF lib nd src] obtain m1 where
    c: "KongFile_DeepCopy lib (Some src) m = (Some (mem_next m), m1)" "no_dangling m1"
      "file_view m1 (mem_next m) = file_view m src" "agree_on {..<mem_next m} m m1"
      "file_cells m1 (mem_next m) \<subseteq> {mem_next m..}" .
  then have r: "r = Some (KongFilePtr (mem_next m))" "m' = m1"
    using copy by (simp_all add: KongFile_DeepCopyObject_def)
  have "file_view m'' src = file_view m src" if "agree_on {..<mem_next m} m1 m''" for m''
    by (rule file_view_frame [OF agree_on_trans [OF c(4) that] file_cells_below [OF nd src]])
  moreover have "file_view m'' (mem_next m) = file_view m src" if "agree_on {mem_next m..} m1 m''" for m''
    using file_view_frame [OF that c(5)] c(3) by simp
  ultimately show ?thesis using r c(2,3) by blast
qed

text \<open>A write to the annotations of the original, after the copy.\<close>

theorem deep_copy_is_independent_witness:
  "\<exists>out m'. KongFile_DeepCopyObject apimachinery (Some 2) sample_memory = (Some (KongFilePtr out), m') \<and>
    om_Annotations (kf_Meta (file_view (m'\<lparr>mem_maps := (mem_maps m')(0 := Map.empty)\<rparr>) out)) =
      [''owner'' \<mapsto> ''team'']"
proof -
  obtain r m' where c: "KongFile_DeepCopyObject apimachinery (Some 2) sample_memory = (r, m')"
    by (cases "KongFile_DeepCopyObject apimachinery (Some 2) sample_memory")
  have "(2::nat) < mem_next sample_memory" by simp
  from deep_copy_is_independent [OF go_copies.meta_copies_axioms sample_memory_typed this c] obtain out where
    r: "r = Some (KongFilePtr out)"
    and own: "agree_on {mem_next sample_memory..} m' m'' \<longrightarrow> file_view m'' out = file_view sample_memory 2" for m''
    by blast
  have "agree_on {mem_next sample_memory..} m' (m'\<lparr>mem_maps := (mem_maps m')(0 := Map.empty)\<rparr>)"
    by (simp add: agree_on_def)
  with own have "file_view (m'\<lparr>mem_maps := (mem_maps m')(0 := Map.empty)\<rparr>) out = file_view sample_memory 2"
    by blast
  moreover have "om_Annotations (kf_Meta (file_view sample_memory 2)) = [''owner'' \<mapsto> ''team'']"
    by (simp add: file_view_def value_view_def meta_view_def sample_memory_def)
  ultimately show ?thesis using c r by auto
qed

text \<open>C21. The generated copy of a KongFileList never indexes out of range; it has the same
  metadata and item by item the same resources, with a nil slice kept apart from an empty one, and it
  shares neither the array nor anything the items point to with the original.\<close>
theorem list_deep_copy_is_independent:
  assumes lib: "meta_copies lib" and nd: "no_dangling m" and src: "src < mem_next m"
  shows "\<exists>out m'. KongFileList_DeepCopyObject lib (Some src) m = Return (Some (KongFileListPtr out), m') \<and>
    no_dangling m' \<and> list_view m' out = list_view m src \<and>
    (\<forall>m''. agree_on {..<mem_next m} m' m'' \<longrightarrow> list_view m'' src = list_view m src) \<and>
    (\<forall>m''. agree_on {mem_next m..} m' m'' \<longrightarrow> list_view m'' out = list_view m src)"
proof -
  from meta_copies.KongFileList_DeepCopy_fresh [OF lib nd src] obtain m1 where
    c: "KongFileList_DeepCopy lib (Some src) m = Return (Some (mem_next m), m1)" "no_dangling m1"
      "list_view m1 (mem_next m) = list_view m src" "agree_on {..<mem_next m} m m1"
      "list_cells m1 (mem_next m) \<subseteq> {mem_next m..}" .
  have "list_view m'' src = list_view m src" if "agree_on {..<mem_next m} m1 m''" for m''
    by (rule list_view_frame [OF agree_on_trans [OF c(4) that] list_cells_below [OF nd src]])
  moreover have "list_view m'' (mem_next m) = list_view m src" if "agree_on {mem_next m..} m1 m''" for m''
    using list_view_frame [OF that c(5)] c(3) by simp
  moreover have "KongFileList_DeepCopyObject lib (Some src) m = Return (Some (KongFileListPtr (mem_next m)), m1)"
    using c(1) by (simp add: KongFileList_DeepCopyObject_def)
  ultimately show ?thesis using c(2,3) by blast
qed

text \<open>The item of the original renamed after the copy.\<close>

theorem list_deep_copy_is_independent_witness:
  "\<exists>out m'. KongFileList_DeepCopyObject apimachinery (Some 3) sample_memory = Return (Some (KongFileListPtr out), m') \<and>
    list_view (put_file 2 zero_mem_KongFile m') out = list_view sample_memory 3 \<and>
    map_option (map (\<lambda>f. om_Name (kf_Meta f))) (snd (snd (list_view sample_memory 3))) = Some [''logo'']"
proof -
  have "(3::nat) < mem_next sample_memory" by simp
  from list_deep_copy_is_independent [OF go_copies.meta_copies_axioms sample_memory_typed this] obtain out m' where
    c: "KongFileList_DeepCopyObject apimachinery (Some 3) sample_memory = Return (Some (KongFileListPtr out), m')"
    and own: "agree_on {mem_next sample_memory..} m' m'' \<longrightarrow> list_view m'' out = list_view sample_memory 3" for m''
    by blast
  have "agree_on {mem_next sample_memory..} m' (put_file 2 zero_mem_KongFile m')"
    by (simp add: agree_on_def)
  with own have "list_view (put_file 2 zero_mem_KongFile m') out = list_view sample_memory 3" by blast
  moreover have "map_option (map (\<lambda>f. om_Name (kf_Meta f))) (snd (snd (list_view sample_memory 3))) = Some [''logo'']"
    by (simp add: list_view_def slice_cells_def file_view_def value_view_def meta_view_def sample_memory_def)
  ultimately show ?thesis by (intro exI conjI) (rule c)
qed

text \<open>C22. Type safety of the generated copies: in every memory reachable by allocations, stores
  of well-typed values and copies, no pointer dangles, and the copy of every list returns with a
  memory in which none does.\<close>
theorem copies_keep_memory_typed:
  assumes "meta_copies lib" and "reach (\<lambda>m. m = empty_memory) (memory_step lib) m"
  shows "no_dangling m \<and>
    (\<forall>src < mem_next m. \<exists>out m'. KongFileList_DeepCopy lib (Some src) m = Return (Some out, m') \<and> no_dangling m')"
proof -
  have nd: "no_dangling m"
    by (rule invariant_system.reach_inv [OF _ assms(2)])
      (use meta_copies.memory_step_typed [OF assms(1)] in \<open>auto simp: invariant_system_def no_dangling_empty\<close>)
  show ?thesis using nd meta_copies.KongFileList_DeepCopy_fresh [OF assms(1) nd] by metis
qed

theorem copies_keep_memory_typed_witness:
  "\<exists>out m'. KongFileList_DeepCopy apimachinery (Some 0) (snd (alloc_KongFileList empty_memory)) =
    Return (Some out, m') \<and> no_dangling m'"
proof -
  let ?m = "snd (alloc_KongFileList empty_memory)"
  have "reach (\<lambda>m. m = empty_memory) (memory_step apimachinery) ?m"
    by (rule reach_step) (rule reach_init, rule refl, rule memory_step.alloc_list)
  from copies_keep_memory_typed [OF go_copies.meta_copies_axioms this, THEN conjunct2, rule_format, of 0]
  show ?thesis by (simp add: alloc_KongFileList_def)
qed

end
