(* ===== verification/Class_Filter.thy ===== *)
theory Class_Filter
  imports KongFile_Types
begin

text \<open>
  Which resources belong to this controller: \<^verbatim>\<open>internal/annotations/annotations.go\<close> and
  \<^verbatim>\<open>internal/controllers/utils/utils.go\<close>.

  The helpers see a \<^verbatim>\<open>client.Object\<close> only through \<^verbatim>\<open>GetAnnotations()\<close>, so their argument is the
  object's \<^typ>\<open>ObjectMeta\<close>. The event filter is built on controller-runtime's
  \<^verbatim>\<open>predicate.NewPredicateFuncs\<close>, which is a parameter here.
\<close>

section \<open>annotations.go\<close>

type_synonym ClassMatching = int

definition IgnoreClassMatch :: ClassMatching where
  "IgnoreClassMatch = 0"

definition ExactOrEmptyClassMatch :: ClassMatching where
  "ExactOrEmptyClassMatch = 1"

definition ExactClassMatch :: ClassMatching where
  "ExactClassMatch = 2"

lemmas class_matching_defs =
  IgnoreClassMatch_def ExactOrEmptyClassMatch_def ExactClassMatch_def

definition AnnotationPrefix :: string where
  "AnnotationPrefix = ''developer.konghq.com''"

definition ControllerClassKey :: string where
  "ControllerClassKey = AnnotationPrefix @ ''/controller.class''"

definition DefaultControllerClass :: string where
  "DefaultControllerClass = ''kong''"

definition validController :: "string \<Rightarrow> string \<Rightarrow> ClassMatching \<Rightarrow> bool outcome" where
  "validController controllerAnnotationValue controllerClass handling =
     (if handling = IgnoreClassMatch then Return True
      else if handling = ExactOrEmptyClassMatch then
        Return (controllerAnnotationValue = '''' \<or> controllerAnnotationValue = controllerClass)
      else if handling = ExactClassMatch then
        Return (controllerAnnotationValue = controllerClass)
      else Panic ''controller class handling option received'')"

text \<open>Indexing a Go map with an absent key reads the zero value.\<close>

definition map_index :: "(string \<rightharpoonup> string) \<Rightarrow> string \<Rightarrow> string" where
  "map_index m k = (case m k of None \<Rightarrow> '''' | Some v \<Rightarrow> v)"

definition ControllerClassValidator ::
  "string \<Rightarrow> ObjectMeta \<Rightarrow> ClassMatching \<Rightarrow> bool outcome" where
  "ControllerClassValidator controllerClass obj handling =
     (let controller = map_index (om_Annotations obj) ControllerClassKey
      in validController controller controllerClass handling)"

section \<open>utils.go\<close>

definition HasAnnotation :: "ObjectMeta \<Rightarrow> string \<Rightarrow> string \<Rightarrow> bool" where
  "HasAnnotation obj key expectedValue =
     (case om_Annotations obj key of
        None \<Rightarrow> False
      | Some foundValue \<Rightarrow> foundValue = expectedValue)"

definition MatchesControllerClassName :: "ObjectMeta \<Rightarrow> string \<Rightarrow> bool" where
  "MatchesControllerClassName obj controllerClassName =
     HasAnnotation obj ControllerClassKey controllerClassName"

definition IsControllerClassAnnotationConfigured :: "ObjectMeta \<Rightarrow> string \<Rightarrow> bool" where
  "IsControllerClassAnnotationConfigured obj expectedControllerClassName =
     (case om_Annotations obj ControllerClassKey of
        Some foundControllerClassName \<Rightarrow>
          (if foundControllerClassName = expectedControllerClassName then True else False)
      | None \<Rightarrow> False)"

definition IsControllerClassSpecConfigured :: "ObjectMeta \<Rightarrow> string \<Rightarrow> bool" where
  "IsControllerClassSpecConfigured obj expectedControllerClassName = True"

record Funcs =
  CreateFunc :: "ObjectMeta \<Rightarrow> bool"
  UpdateFunc :: "ObjectMeta \<Rightarrow> ObjectMeta \<Rightarrow> bool" \<comment> \<open>\<^verbatim>\<open>ObjectOld\<close>, \<^verbatim>\<open>ObjectNew\<close>\<close>
  DeleteFunc :: "ObjectMeta \<Rightarrow> bool"
  GenericFunc :: "ObjectMeta \<Rightarrow> bool"

text \<open>Go's \<^verbatim>\<open>&&\<close> binds tighter than \<^verbatim>\<open>||\<close>, as \<open>\<and>\<close> does over \<open>\<or>\<close>: the guards of the update filter
  are written as the code has them.\<close>

definition GeneratePredicateFuncsForControllerClassFilter ::
  "((ObjectMeta \<Rightarrow> bool) \<Rightarrow> Funcs) \<Rightarrow> string \<Rightarrow> bool \<Rightarrow> bool \<Rightarrow> Funcs" where
  "GeneratePredicateFuncsForControllerClassFilter newPredicateFuncs name specCheckEnabled
       annotationCheckEnabled =
     (let preds = newPredicateFuncs (\<lambda>obj.
            if annotationCheckEnabled \<and> IsControllerClassAnnotationConfigured obj name then True
            else if specCheckEnabled \<and> IsControllerClassSpecConfigured obj name then True
            else False)
      in preds\<lparr>UpdateFunc := \<lambda>objectOld objectNew.
            if annotationCheckEnabled \<and> IsControllerClassAnnotationConfigured objectOld name \<or>
               IsControllerClassAnnotationConfigured objectNew name then True
            else if specCheckEnabled \<and> IsControllerClassSpecConfigured objectOld name \<or>
               IsControllerClassSpecConfigured objectNew name then True
            else False\<rparr>)"

text \<open>The documented behaviour of \<^verbatim>\<open>predicate.NewPredicateFuncs\<close>: create, delete and generic events are
  filtered by the object.\<close>

definition filters_by_object :: "((ObjectMeta \<Rightarrow> bool) \<Rightarrow> Funcs) \<Rightarrow> bool" where
  "filters_by_object newPredicateFuncs \<longleftrightarrow>
     (\<forall>f. CreateFunc (newPredicateFuncs f) = f \<and> DeleteFunc (newPredicateFuncs f) = f \<and>
       GenericFunc (newPredicateFuncs f) = f)"

definition object_predicate :: "(ObjectMeta \<Rightarrow> bool) \<Rightarrow> Funcs" where
  "object_predicate f =
     \<lparr>CreateFunc = f, UpdateFunc = (\<lambda>_ objectNew. f objectNew), DeleteFunc = f, GenericFunc = f\<rparr>"

section \<open>Lemmas\<close>

lemma filters_by_object_predicate: "filters_by_object object_predicate"
  by (simp add: filters_by_object_def object_predicate_def)

lemma MatchesControllerClassName_iff:
  "MatchesControllerClassName obj c \<longleftrightarrow> om_Annotations obj ControllerClassKey = Some c"
  by (auto simp: MatchesControllerClassName_def HasAnnotation_def split: option.splits)

lemma IsControllerClassAnnotationConfigured_iff:
  "IsControllerClassAnnotationConfigured obj c \<longleftrightarrow> om_Annotations obj ControllerClassKey = Some c"
  by (auto simp: IsControllerClassAnnotationConfigured_def split: option.splits)

lemma validController_cases:
  "validController v c IgnoreClassMatch = Return True"
  "validController v c ExactOrEmptyClassMatch = Return (v = '''' \<or> v = c)"
  "validController v c ExactClassMatch = Return (v = c)"
  by (simp_all add: validController_def class_matching_defs)

lemma validController_panics_iff:
  "returned (validController v c m) \<longleftrightarrow> m \<in> {IgnoreClassMatch, ExactOrEmptyClassMatch, ExactClassMatch}"
  by (simp add: validController_def)

lemma class_filter_events:
  assumes "filters_by_object newPredicateFuncs"
    and "preds = GeneratePredicateFuncsForControllerClassFilter newPredicateFuncs name specCheck annotationCheck"
  shows "CreateFunc preds new = (specCheck \<or> annotationCheck \<and> MatchesControllerClassName new name)"
    and "DeleteFunc preds = CreateFunc preds" and "GenericFunc preds = CreateFunc preds"
    and "UpdateFunc preds old new"
  using assms(1)
  by (auto simp: assms(2) filters_by_object_def GeneratePredicateFuncsForControllerClassFilter_def Let_def
      IsControllerClassAnnotationConfigured_iff MatchesControllerClassName_iff IsControllerClassSpecConfigured_def)

end
