(* ===== verification/Cache_Stores.thy ===== *)
theory Cache_Stores
  imports Class_Filter "HOL-Library.DAList"
begin

text \<open>
  The object cache of \<^verbatim>\<open>internal/store/store.go\<close>: \<^verbatim>\<open>CacheStores\<close>, which guards client-go's
  \<^verbatim>\<open>cache.Store\<close> by a type switch and a lock, and \<^verbatim>\<open>Store\<close>, the reader's view of it.

  \<^verbatim>\<open>cache.Store\<close> is client-go's: its operations are the parameter \<open>S\<close>, a record of functions
  over a state \<open>'c\<close>, and the locale \<open>cache_store\<close> states its documented contract. The locale
  \<open>object_cache\<close> is the interface of \<^verbatim>\<open>CacheStores\<close> its users rely on; \<^verbatim>\<open>CacheStores\<close> over any lawful
  \<^verbatim>\<open>cache.Store\<close> provides it (a \<^theory_text>\<open>sublocale\<close>). Every operation of \<^verbatim>\<open>CacheStores\<close> holds its lock
  from entry to return, so each is one step on the state; \<^verbatim>\<open>Cache_Lock\<close> models the lock and shows that it makes
  the operations atomic.
\<close>

section \<open>Keys\<close>

definition object_key :: "heap \<Rightarrow> ref \<Rightarrow> string" where
  "object_key h r =
     om_Namespace (kf_Meta (at_ref h r)) @ ''/'' @ om_Name (kf_Meta (at_ref h r))"

text \<open>The key function reads the fields \<^verbatim>\<open>Namespace\<close> and \<^verbatim>\<open>Name\<close> through the pointer, by reflection; it
  never returns an error.\<close>

fun keyFunc :: "heap \<Rightarrow> Object \<Rightarrow> error + string" where
  "keyFunc h (KongFileObj r) =
     Inr (om_Namespace (kf_Meta (at_ref h r)) @ ''/'' @ om_Name (kf_Meta (at_ref h r)))"
| "keyFunc h (OtherObj gvk namespace name) = Inr (namespace @ ''/'' @ name)"

section \<open>client-go's cache.Store\<close>

text \<open>The methods of the interface that the repository calls. A store is built with a key function;
  the operations take it evaluated in the heap of the call.\<close>

record 'c cache_Store =
  cs_New :: 'c
  cs_Add :: "(Object \<Rightarrow> error + string) \<Rightarrow> Object \<Rightarrow> 'c \<Rightarrow> error option \<times> 'c"
  cs_Update :: "(Object \<Rightarrow> error + string) \<Rightarrow> Object \<Rightarrow> 'c \<Rightarrow> error option \<times> 'c"
  cs_Delete :: "(Object \<Rightarrow> error + string) \<Rightarrow> Object \<Rightarrow> 'c \<Rightarrow> error option \<times> 'c"
  cs_Get :: "(Object \<Rightarrow> error + string) \<Rightarrow> Object \<Rightarrow> 'c \<Rightarrow> Object option \<times> bool \<times> error option"
  cs_GetByKey :: "string \<Rightarrow> 'c \<Rightarrow> Object option \<times> bool \<times> error option"
  cs_ListAll :: "'c \<Rightarrow> error option \<times> Object list"
    \<comment> \<open>\<^verbatim>\<open>cache.ListAll\<close> with the empty selector: its error and the items it visits, in order\<close>

section \<open>CacheStores\<close>

text \<open>The \<^verbatim>\<open>default\<close> branch of the writing operations calls a method on the object to name its kind,
  which panics on a \<^verbatim>\<open>nil\<close> interface.\<close>

definition unsupported_kind :: "string \<Rightarrow> Object option \<Rightarrow> error outcome" where
  "unsupported_kind format obj =
     (case obj of
        None \<Rightarrow> Panic ''invalid memory address or nil pointer dereference''
      | Some obj' \<Rightarrow> Return (Errorf format [object_kind obj']))"

definition NewCacheStores :: "'c cache_Store \<Rightarrow> 'c" where
  "NewCacheStores S = cs_New S"

definition CacheStores_Get ::
  "'c cache_Store \<Rightarrow> heap \<Rightarrow> Object option \<Rightarrow> 'c \<Rightarrow> Object option \<times> bool \<times> error option" where
  "CacheStores_Get S h obj c =
     (case obj of
        Some (KongFileObj r) \<Rightarrow> cs_Get S (keyFunc h) (KongFileObj r) c
      | Some other \<Rightarrow>
          (None, False, Some (Errorf ''%T is not a supported cache object type'' [object_kind other]))
      | None \<Rightarrow>
          (None, False, Some (Errorf ''%T is not a supported cache object type'' [''<nil>''])))"

definition CacheStores_Add ::
  "'c cache_Store \<Rightarrow> heap \<Rightarrow> Object option \<Rightarrow> 'c \<Rightarrow> (error option \<times> 'c) outcome" where
  "CacheStores_Add S h obj c =
     (case obj of
        Some (KongFileObj r) \<Rightarrow> Return (cs_Add S (keyFunc h) (KongFileObj r) c)
      | _ \<Rightarrow> map_outcome_val (\<lambda>e. (Some e, c))
               (unsupported_kind ''cannot add unsupported kind %q to the store'' obj))"

definition CacheStores_Update ::
  "'c cache_Store \<Rightarrow> heap \<Rightarrow> Object option \<Rightarrow> 'c \<Rightarrow> (error option \<times> 'c) outcome" where
  "CacheStores_Update S h obj c =
     (case obj of
        Some (KongFileObj r) \<Rightarrow> Return (cs_Update S (keyFunc h) (KongFileObj r) c)
      | _ \<Rightarrow> map_outcome_val (\<lambda>e. (Some e, c))
               (unsupported_kind ''cannot add unsupported kind %q to the store'' obj))"

definition CacheStores_Delete ::
  "'c cache_Store \<Rightarrow> heap \<Rightarrow> Object option \<Rightarrow> 'c \<Rightarrow> (error option \<times> 'c) outcome" where
  "CacheStores_Delete S h obj c =
     (case obj of
        Some (KongFileObj r) \<Rightarrow> Return (cs_Delete S (keyFunc h) (KongFileObj r) c)
      | _ \<Rightarrow> map_outcome_val (\<lambda>e. (Some e, c))
               (unsupported_kind ''cannot delete unsupported kind %q from the store'' obj))"

lemmas CacheStores_defs =
  CacheStores_Get_def CacheStores_Add_def CacheStores_Update_def CacheStores_Delete_def

declare CacheStores_defs [go_ops]

section \<open>Store\<close>

record 'c Store =
  stores :: 'c
  controllerClass :: string
  isValidControllerClass :: "ObjectMeta \<Rightarrow> ClassMatching \<Rightarrow> bool outcome"

definition ErrNotFound_Error :: "string \<Rightarrow> string" where
  "ErrNotFound_Error message = (if message = '''' then ''not found'' else message)"

text \<open>The type assertion on the item found panics when it is not a \<^verbatim>\<open>*KongFile\<close>.\<close>

definition GetKongFile ::
  "'c cache_Store \<Rightarrow> 'c Store \<Rightarrow> string \<Rightarrow> string \<Rightarrow> (error + ref) outcome" where
  "GetKongFile S s namespace name =
     (let key = namespace @ ''/'' @ name
      in case cs_GetByKey S key (stores s) of
           (p, exists, err) \<Rightarrow>
             (case err of
                Some e \<Rightarrow> Return (Inl e)
              | None \<Rightarrow>
                  if \<not> exists then
                    Return (Inl (ErrNotFound (''KongFile '' @ key @ '' not found'')))
                  else (case p of
                          Some (KongFileObj r) \<Rightarrow> Return (Inr r)
                        | _ \<Rightarrow> Panic ''interface conversion'')))"

text \<open>The callbacks given to \<^verbatim>\<open>cache.ListAll\<close>, run on the items in turn; \<open>acc\<close> is the captured slice
  they append to.\<close>

fun append_matching :: "heap \<Rightarrow> (ObjectMeta \<Rightarrow> ClassMatching \<Rightarrow> bool outcome) \<Rightarrow> Object list \<Rightarrow> ref list \<Rightarrow>
    ref list outcome" where
  "append_matching h valid [] acc = Return acc"
| "append_matching h valid (KongFileObj r # obs) acc =
     (case valid (kf_Meta (at_ref h r)) ExactOrEmptyClassMatch of
        Panic m \<Rightarrow> Panic m
      | Return ok \<Rightarrow> append_matching h valid obs (if ok then acc @ [r] else acc))"
| "append_matching h valid (OtherObj gvk namespace name # obs) acc =
     append_matching h valid obs acc"

fun append_all :: "Object list \<Rightarrow> ref list \<Rightarrow> ref list" where
  "append_all [] acc = acc"
| "append_all (KongFileObj r # obs) acc = append_all obs (acc @ [r])"
| "append_all (OtherObj gvk namespace name # obs) acc = append_all obs acc"

definition ListKongFiles ::
  "'c cache_Store \<Rightarrow> heap \<Rightarrow> 'c Store \<Rightarrow> (error + ref list) outcome" where
  "ListKongFiles S h s =
     (case cs_ListAll S (stores s) of
        (err, items) \<Rightarrow>
          map_outcome_val
            (\<lambda>kongFiles. case err of Some e \<Rightarrow> Inl e | None \<Rightarrow> Inr kongFiles)
            (append_matching h (isValidControllerClass s) items []))"

definition ListAllKongFiles :: "'c cache_Store \<Rightarrow> 'c Store \<Rightarrow> error + ref list" where
  "ListAllKongFiles S s =
     (case cs_ListAll S (stores s) of
        (err, items) \<Rightarrow> (case err of Some e \<Rightarrow> Inl e | None \<Rightarrow> Inr (append_all items [])))"

section \<open>Lemmas on keys and lists\<close>

lemma keyFunc_object_key [simp]: "keyFunc h (KongFileObj r) = Inr (object_key h r)"
  by (simp add: object_key_def)

declare keyFunc.simps(1) [simp del]

text \<open>Namespace and name cannot be read off a key when either may hold a slash; Kubernetes names
  never do.\<close>

lemma key_injective:
  assumes "ns @ ''/'' @ nm = ns' @ ''/'' @ nm'" and "CHR ''/'' \<notin> set nm" and "CHR ''/'' \<notin> set nm'"
  shows "ns = ns' \<and> nm = nm'"
  using last_sep_unique [of ns "CHR ''/''" nm ns' nm'] assms by simp

fun kongfile_ref :: "Object \<Rightarrow> ref option" where
  "kongfile_ref (KongFileObj r) = Some r"
| "kongfile_ref (OtherObj _ _ _) = None"

lemma kongfile_ref_Some: "kongfile_ref obj = Some r \<longleftrightarrow> obj = KongFileObj r"
  by (cases obj) auto

lemma append_all_eq: "append_all items acc = acc @ List.map_filter kongfile_ref items"
  by (induction items acc rule: append_all.induct) (simp_all add: map_filter_simps)

lemma append_matching_eq:
  assumes "\<And>obj. valid obj ExactOrEmptyClassMatch = Return (ok obj)"
  shows "append_matching h valid items acc =
    Return (acc @ filter (\<lambda>r. ok (kf_Meta (at_ref h r))) (List.map_filter kongfile_ref items))"
proof (induction items arbitrary: acc)
  case Nil
  show ?case by (simp add: map_filter_simps)
next
  case (Cons ob items)
  then show ?case by (cases ob) (simp_all add: assms map_filter_simps)
qed

section \<open>The contract of cache.Store\<close>

text \<open>\<open>contents\<close> reads a store's state as a map from keys to the objects put in. The laws are those of
  client-go's documentation for a store whose key function gives a key.\<close>

locale cache_store =
  fixes S :: "'c cache_Store"
    and contents :: "'c \<Rightarrow> string \<Rightarrow> Object option"
  assumes new_contents: "contents (cs_New S) = Map.empty"
    and add_contents: "kf obj = Inr k \<Longrightarrow>
      fst (cs_Add S kf obj c) = None \<and> contents (snd (cs_Add S kf obj c)) = (contents c)(k \<mapsto> obj)"
    and update_contents: "kf obj = Inr k \<Longrightarrow>
      fst (cs_Update S kf obj c) = None \<and> contents (snd (cs_Update S kf obj c)) = (contents c)(k \<mapsto> obj)"
    and delete_contents: "kf obj = Inr k \<Longrightarrow>
      fst (cs_Delete S kf obj c) = None \<and> contents (snd (cs_Delete S kf obj c)) = (contents c)(k := None)"
    and get_contents: "kf obj = Inr k \<Longrightarrow>
      cs_Get S kf obj c = (contents c k, contents c k \<noteq> None, None)"
    and get_by_key_contents:
      "cs_GetByKey S k c = (contents c k, contents c k \<noteq> None, None)"
    and list_all_contents:
      "\<exists>ks. distinct ks \<and> set ks = dom (contents c) \<and>
        cs_ListAll S c = (None, map (\<lambda>k. the (contents c k)) ks)"
begin

lemma list_all_ok: "fst (cs_ListAll S c) = None"
  using list_all_contents [of c] by auto

lemma list_all_set: "set (snd (cs_ListAll S c)) = ran (contents c)"
  using list_all_contents [of c] by (force simp: ran_def image_def dom_def)

end

text \<open>The interface of the repository's own cache: how each operation moves the map from keys to
  objects, for a \<^verbatim>\<open>KongFile\<close> pointer and for anything else.\<close>

locale object_cache =
  fixes get :: "heap \<Rightarrow> Object option \<Rightarrow> 'c \<Rightarrow> Object option \<times> bool \<times> error option"
    and update delete :: "heap \<Rightarrow> Object option \<Rightarrow> 'c \<Rightarrow> (error option \<times> 'c) outcome"
    and contents :: "'c \<Rightarrow> string \<Rightarrow> Object option"
  assumes get_file: "get h (Some (KongFileObj r)) c =
      (contents c (object_key h r), contents c (object_key h r) \<noteq> None, None)"
    and update_file: "\<exists>c'. update h (Some (KongFileObj r)) c = Return (None, c') \<and>
      contents c' = (contents c)(object_key h r \<mapsto> KongFileObj r)"
    and delete_file: "\<exists>c'. delete h (Some (KongFileObj r)) c = Return (None, c') \<and>
      contents c' = (contents c)(object_key h r := None)"
    and update_other: "\<exists>e. update h (Some (OtherObj g n m)) c = Return (Some e, c)"
    and delete_other: "\<exists>e. delete h (Some (OtherObj g n m)) c = Return (Some e, c)"
begin

lemma update_fileE:
  obtains c' where "update h (Some (KongFileObj r)) c = Return (None, c')"
    and "contents c' = (contents c)(object_key h r \<mapsto> KongFileObj r)"
  using update_file [of h r c] by blast

lemma delete_fileE:
  obtains c' where "delete h (Some (KongFileObj r)) c = Return (None, c')"
    and "contents c' = (contents c)(object_key h r := None)"
  using delete_file [of h r c] by blast

lemma get_after_update:
  assumes "update h (Some (KongFileObj r)) c = Return (e, c')"
  shows "get h' (Some (KongFileObj q)) c' =
    (if object_key h' q = object_key h r then (Some (KongFileObj r), True, None)
     else get h' (Some (KongFileObj q)) c)"
  using update_file [of h r c] assms by (auto simp: get_file)

lemma get_after_delete:
  assumes "delete h (Some (KongFileObj r)) c = Return (e, c')"
  shows "get h' (Some (KongFileObj q)) c' =
    (if object_key h' q = object_key h r then (None, False, None)
     else get h' (Some (KongFileObj q)) c)"
  using delete_file [of h r c] assms by (auto simp: get_file)

lemma update_never_fails:
  "update h (Some (KongFileObj r)) c = Return (e, c') \<Longrightarrow> e = None"
  using update_file [of h r c] by auto

end

sublocale cache_store \<subseteq> object_cache "CacheStores_Get S" "CacheStores_Update S"
  "CacheStores_Delete S" contents
proof unfold_locales
  fix h r c
  show "CacheStores_Get S h (Some (KongFileObj r)) c =
      (contents c (object_key h r), contents c (object_key h r) \<noteq> None, None)"
    by (simp add: CacheStores_Get_def get_contents)
  show "\<exists>c'. CacheStores_Update S h (Some (KongFileObj r)) c = Return (None, c') \<and>
      contents c' = (contents c)(object_key h r \<mapsto> KongFileObj r)"
    using update_contents [of "keyFunc h" "KongFileObj r" "object_key h r" c]
    by (auto simp: CacheStores_Update_def prod_eq_iff intro!: exI)
  show "\<exists>c'. CacheStores_Delete S h (Some (KongFileObj r)) c = Return (None, c') \<and>
      contents c' = (contents c)(object_key h r := None)"
    using delete_contents [of "keyFunc h" "KongFileObj r" "object_key h r" c]
    by (auto simp: CacheStores_Delete_def prod_eq_iff intro!: exI)
  fix g n m
  show "\<exists>e. CacheStores_Update S h (Some (OtherObj g n m)) c = Return (Some e, c)"
    and "\<exists>e. CacheStores_Delete S h (Some (OtherObj g n m)) c = Return (Some e, c)"
    by (simp_all add: go_ops unsupported_kind_def)
qed

context cache_store
begin

text \<open>A cache that holds \<^verbatim>\<open>KongFile\<close> pointers only: the readers' type assertions succeed.\<close>

lemma GetKongFile_contents:
  assumes "\<And>obj. contents (stores s) (ns @ ''/'' @ nm) = Some obj \<Longrightarrow> \<exists>r. obj = KongFileObj r"
  shows "GetKongFile S s ns nm =
    (case contents (stores s) (ns @ ''/'' @ nm) of
       Some (KongFileObj r) \<Rightarrow> Return (Inr r)
     | _ \<Rightarrow> Return (Inl (ErrNotFound (''KongFile '' @ ns @ ''/'' @ nm @ '' not found''))))"
  using assms
  by (auto simp: GetKongFile_def Let_def get_by_key_contents split: option.splits Object.splits)

lemma ListAllKongFiles_contents:
  "\<exists>rs. ListAllKongFiles S s = Inr rs \<and> set rs = {r. KongFileObj r \<in> ran (contents (stores s))}"
proof -
  have "ListAllKongFiles S s =
      Inr (List.map_filter kongfile_ref (snd (cs_ListAll S (stores s))))"
    using list_all_ok [of "stores s"]
    by (auto simp: ListAllKongFiles_def append_all_eq split: prod.splits)
  moreover have "set (List.map_filter kongfile_ref (snd (cs_ListAll S (stores s)))) =
      {r. KongFileObj r \<in> ran (contents (stores s))}"
    using list_all_set [of "stores s"]
    by (force simp: List.map_filter_def kongfile_ref_Some)
  ultimately show ?thesis by blast
qed

lemma ListKongFiles_filter:
  assumes "\<And>obj. isValidControllerClass s obj ExactOrEmptyClassMatch = Return (ok obj)"
    and "ListAllKongFiles S s = Inr rs"
  shows "ListKongFiles S h s = Return (Inr (filter (\<lambda>r. ok (kf_Meta (at_ref h r))) rs))"
  using assms list_all_ok [of "stores s"]
  by (auto simp: ListKongFiles_def ListAllKongFiles_def append_all_eq append_matching_eq
      split: prod.splits)

end

section \<open>A lawful cache.Store\<close>

text \<open>A table with distinct keys, with the contract of client-go's store, to run the model on.\<close>

definition table_store :: "(string, Object) alist cache_Store" where
  "table_store =
     \<lparr>cs_New = DAList.empty,
      cs_Add = (\<lambda>kf obj c. case kf obj of Inl e \<Rightarrow> (Some e, c) | Inr k \<Rightarrow> (None, DAList.update k obj c)),
      cs_Update = (\<lambda>kf obj c. case kf obj of Inl e \<Rightarrow> (Some e, c) | Inr k \<Rightarrow> (None, DAList.update k obj c)),
      cs_Delete = (\<lambda>kf obj c. case kf obj of Inl e \<Rightarrow> (Some e, c) | Inr k \<Rightarrow> (None, DAList.delete k c)),
      cs_Get = (\<lambda>kf obj c. case kf obj of Inl e \<Rightarrow> (None, False, Some e)
                 | Inr k \<Rightarrow> (DAList.lookup c k, DAList.lookup c k \<noteq> None, None)),
      cs_GetByKey = (\<lambda>k c. (DAList.lookup c k, DAList.lookup c k \<noteq> None, None)),
      cs_ListAll = (\<lambda>c. (None, map snd (DAList.impl_of c)))\<rparr>"

lemma lookup_table [simp]:
  "DAList.lookup DAList.empty = Map.empty"
  "DAList.lookup (DAList.update k v c) = (DAList.lookup c)(k \<mapsto> v)"
  by (simp_all add: fun_eq_iff lookup_update)

interpretation table: cache_store table_store DAList.lookup
proof
  fix c :: "(string, Object) alist"
  let ?xs = "DAList.impl_of c"
  have d: "distinct (map fst ?xs)" by simp
  have "map snd ?xs = map (\<lambda>k. the (map_of ?xs k)) (map fst ?xs)"
    using d by (auto simp: map_of_is_SomeI)
  then show "\<exists>ks. distinct ks \<and> set ks = dom (DAList.lookup c) \<and>
      cs_ListAll table_store c = (None, map (\<lambda>k. the (DAList.lookup c k)) ks)"
    using d by (intro exI [of _ "map fst ?xs"])
      (simp add: table_store_def DAList.lookup_def dom_map_of_conv_image_fst)
qed (simp_all add: table_store_def)

end
