(* ===== verification/Cache_Lock.thy ===== *)
theory Cache_Lock
  imports Cache_Stores
begin

text \<open>
  The lock of \<^verbatim>\<open>CacheStores\<close>. Every method of \<^verbatim>\<open>internal/store/store.go\<close> takes the shared \<^verbatim>\<open>sync.RWMutex\<close> on
  entry, for reading or for writing, and gives it back by a deferred call, on a panic too. The goroutines
  that call the methods are modelled step by step: the call, the lock, the body on the cache as it was read
  at entry, its effect, the deferred unlock. That the underlying \<^verbatim>\<open>cache.Store\<close> is safe for concurrent use is
  not assumed: the body works on the state it found and its result overwrites whatever is there.

  The theory shows that the lock makes this as good as running the methods of \<^verbatim>\<open>Cache_Stores\<close> one by one, the
  form in which the rest of the development uses them.
\<close>

section \<open>sync.RWMutex\<close>

text \<open>The lock as its documentation has it. An attempt that has to wait gives \<^const>\<open>None\<close>; an unlock of a lock
  that is not held is a fatal error. That waiting writers keep new readers out is left open, which only
  allows more interleavings.\<close>

record RWMutex =
  rw_readers :: nat
  rw_writer :: bool

definition unlocked :: RWMutex where
  "unlocked = \<lparr>rw_readers = 0, rw_writer = False\<rparr>"

definition RLock :: "RWMutex \<Rightarrow> RWMutex option" where
  "RLock l = (if rw_writer l then None else Some (l\<lparr>rw_readers := rw_readers l + 1\<rparr>))"

definition RUnlock :: "RWMutex \<Rightarrow> RWMutex outcome" where
  "RUnlock l =
     (if rw_readers l = 0 then Panic ''sync: RUnlock of unlocked RWMutex''
      else Return (l\<lparr>rw_readers := rw_readers l - 1\<rparr>))"

definition Lock :: "RWMutex \<Rightarrow> RWMutex option" where
  "Lock l = (if rw_writer l \<or> rw_readers l \<noteq> 0 then None else Some (l\<lparr>rw_writer := True\<rparr>))"

definition Unlock :: "RWMutex \<Rightarrow> RWMutex outcome" where
  "Unlock l =
     (if \<not> rw_writer l then Panic ''sync: Unlock of unlocked RWMutex''
      else Return (l\<lparr>rw_writer := False\<rparr>))"

section \<open>The methods under their lock\<close>

datatype store_call =
    CallGet "Object option"
  | CallAdd "Object option"
  | CallUpdate "Object option"
  | CallDelete "Object option"

datatype store_reply =
    Found "Object option" bool "error option"
  | Wrote "error option"

fun reads :: "store_call \<Rightarrow> bool" where
  "reads (CallGet _) = True"
| "reads (CallAdd _) = False"
| "reads (CallUpdate _) = False"
| "reads (CallDelete _) = False"

text \<open>What the body of a method returns and leaves in the cache; a body that panics leaves it alone.\<close>

definition wrote :: "'c \<Rightarrow> (error option \<times> 'c) outcome \<Rightarrow> store_reply outcome \<times> 'c" where
  "wrote c out = (case out of Panic m \<Rightarrow> (Panic m, c) | Return (e, c') \<Rightarrow> (Return (Wrote e), c'))"

fun call_body :: "'c cache_Store \<Rightarrow> heap \<Rightarrow> store_call \<Rightarrow> 'c \<Rightarrow> store_reply outcome \<times> 'c" where
  "call_body S h (CallGet obj) c =
     (case CacheStores_Get S h obj c of (item, exists, err) \<Rightarrow> (Return (Found item exists err), c))"
| "call_body S h (CallAdd obj) c = wrote c (CacheStores_Add S h obj c)"
| "call_body S h (CallUpdate obj) c = wrote c (CacheStores_Update S h obj c)"
| "call_body S h (CallDelete obj) c = wrote c (CacheStores_Delete S h obj c)"

text \<open>The first line of a method and its deferred call.\<close>

definition take_lock :: "store_call \<Rightarrow> RWMutex \<Rightarrow> RWMutex option" where
  "take_lock call l = (if reads call then RLock l else Lock l)"

definition deferred_unlock :: "store_call \<Rightarrow> RWMutex \<Rightarrow> RWMutex outcome" where
  "deferred_unlock call l = (if reads call then RUnlock l else Unlock l)"

section \<open>Goroutines\<close>

datatype 'c routine =
    Ready
  | Waiting store_call
  | Inside store_call 'c \<comment> \<open>the lock is held and the body has read the cache\<close>
  | Leaving store_call "store_reply outcome" \<comment> \<open>the body has ended or panicked, the deferred unlock is to come\<close>

text \<open>\<open>cc_log\<close> lists the bodies in the order of their effects: the goroutine, the objects' memory, the call and
  its outcome.\<close>

record 'c concurrent =
  cc_store :: 'c
  cc_lock :: RWMutex
  cc_routine :: "nat \<Rightarrow> 'c routine"
  cc_log :: "(nat \<times> heap \<times> store_call \<times> store_reply outcome) list"

inductive routine_step :: "'c cache_Store \<Rightarrow> nat \<Rightarrow> 'c concurrent \<Rightarrow> 'c concurrent \<Rightarrow> bool"
  for S :: "'c cache_Store" and g :: nat where
  calls: "cc_routine s g = Ready \<Longrightarrow>
    routine_step S g s (s\<lparr>cc_routine := (cc_routine s)(g := Waiting call)\<rparr>)"
| locks: "cc_routine s g = Waiting call \<Longrightarrow> take_lock call (cc_lock s) = Some l \<Longrightarrow>
    routine_step S g s (s\<lparr>cc_lock := l, cc_routine := (cc_routine s)(g := Inside call (cc_store s))\<rparr>)"
| acts: "cc_routine s g = Inside call c \<Longrightarrow> call_body S h call c = (out, c') \<Longrightarrow>
    routine_step S g s (s\<lparr>cc_store := if reads call then cc_store s else c',
      cc_routine := (cc_routine s)(g := Leaving call out), cc_log := cc_log s @ [(g, h, call, out)]\<rparr>)"
| unlocks: "cc_routine s g = Leaving call out \<Longrightarrow> deferred_unlock call (cc_lock s) = Return l \<Longrightarrow>
    routine_step S g s (s\<lparr>cc_lock := l, cc_routine := (cc_routine s)(g := Ready)\<rparr>)"

inductive_cases routine_stepE: "routine_step S g s s'"

definition concurrent_init :: "'c cache_Store \<Rightarrow> 'c concurrent \<Rightarrow> bool" where
  "concurrent_init S s \<longleftrightarrow>
     cc_store s = NewCacheStores S \<and> cc_lock s = unlocked \<and> (\<forall>g. cc_routine s g = Ready) \<and> cc_log s = []"

definition concurrent_step :: "'c cache_Store \<Rightarrow> 'c concurrent \<Rightarrow> 'c concurrent \<Rightarrow> bool" where
  "concurrent_step S s s' \<longleftrightarrow> (\<exists>g. routine_step S g s s')"

text \<open>The specification: the calls of a log, run one by one, have the outcomes it says.\<close>

fun replay :: "'c cache_Store \<Rightarrow> (nat \<times> heap \<times> store_call \<times> store_reply outcome) list \<Rightarrow> 'c \<Rightarrow> 'c option" where
  "replay S [] c = Some c"
| "replay S ((g, h, call, out) # entries) c =
     (case call_body S h call c of (out', c') \<Rightarrow> if out' = out then replay S entries c' else None)"

lemma replay_append:
  "replay S (entries @ entries') c = Option.bind (replay S entries c) (replay S entries')"
  by (induction S entries c rule: replay.induct) (auto split: prod.split)

section \<open>The invariant\<close>

fun held_for :: "'c routine \<Rightarrow> store_call option" where
  "held_for Ready = None"
| "held_for (Waiting _) = None"
| "held_for (Inside call _) = Some call"
| "held_for (Leaving call _) = Some call"

definition readers_in :: "(nat \<Rightarrow> 'c routine) \<Rightarrow> nat set" where
  "readers_in routines = {g. \<exists>call. held_for (routines g) = Some call \<and> reads call}"

definition writers_in :: "(nat \<Rightarrow> 'c routine) \<Rightarrow> nat set" where
  "writers_in routines = {g. \<exists>call. held_for (routines g) = Some call \<and> \<not> reads call}"

definition lock_held :: "(nat \<Rightarrow> 'c routine) \<Rightarrow> RWMutex \<Rightarrow> bool" where
  "lock_held routines l \<longleftrightarrow>
     finite (readers_in routines) \<and> card (readers_in routines) = rw_readers l \<and>
     (if rw_writer l then (\<exists>g. writers_in routines = {g}) \<and> rw_readers l = 0 else writers_in routines = {})"

definition lock_inv :: "'c cache_Store \<Rightarrow> 'c concurrent \<Rightarrow> bool" where
  "lock_inv S s \<longleftrightarrow>
     lock_held (cc_routine s) (cc_lock s) \<and>
     (\<forall>g call c. cc_routine s g = Inside call c \<longrightarrow> c = cc_store s) \<and>
     (\<forall>g call out. cc_routine s g = Leaving call out \<longrightarrow> (\<exists>h. (g, h, call, out) \<in> set (cc_log s))) \<and>
     replay S (cc_log s) (NewCacheStores S) = Some (cc_store s)"

lemma readers_in_upd:
  "readers_in (rs(g := r)) =
    (if \<exists>call. held_for r = Some call \<and> reads call then insert g (readers_in rs) else readers_in rs - {g})"
  by (auto simp: readers_in_def)

lemma writers_in_upd:
  "writers_in (rs(g := r)) =
    (if \<exists>call. held_for r = Some call \<and> \<not> reads call then insert g (writers_in rs) else writers_in rs - {g})"
  by (auto simp: writers_in_def)

lemma held_in:
  assumes "held_for (rs g) = Some call"
  shows "if reads call then g \<in> readers_in rs \<and> g \<notin> writers_in rs else g \<in> writers_in rs \<and> g \<notin> readers_in rs"
  using assms by (auto simp: readers_in_def writers_in_def)

lemma not_held_in:
  "held_for (rs g) = None \<Longrightarrow> g \<notin> readers_in rs \<and> g \<notin> writers_in rs"
  by (simp add: readers_in_def writers_in_def)

lemma call_body_reads: "reads call \<Longrightarrow> call_body S h call c = (out, c') \<Longrightarrow> c' = c"
  by (cases call) (auto split: prod.splits)

text \<open>A writer is alone.\<close>

lemma writer_alone:
  assumes "lock_held rs l" and "held_for (rs g) = Some call" and "\<not> reads call" and "held_for (rs g') = Some call'"
  shows "g' = g"
proof -
  have g: "g \<in> writers_in rs" using held_in [where rs = rs, OF assms(2)] assms(3) by simp
  with assms(1) have w: "rw_writer l" by (auto simp: lock_held_def split: if_splits)
  with assms(1) have "writers_in rs = {g}" and "readers_in rs = {}" using g by (auto simp: lock_held_def)
  with held_in [where rs = rs, OF assms(4)] show ?thesis by (simp split: if_splits)
qed

text \<open>The lock follows the goroutines.\<close>

lemma lock_held_same:
  assumes "lock_held rs l" and "held_for r = held_for (rs g)"
  shows "lock_held (rs(g := r)) l"
proof -
  have "readers_in (rs(g := r)) = readers_in rs" "writers_in (rs(g := r)) = writers_in rs"
    using assms(2) by (auto simp: readers_in_def writers_in_def)
  with assms(1) show ?thesis by (simp add: lock_held_def)
qed

lemma lock_held_take:
  assumes held: "lock_held rs l" and "held_for (rs g) = None" and "held_for r = Some call"
    and take: "take_lock call l = Some l'"
  shows "lock_held (rs(g := r)) l'"
proof -
  note out = not_held_in [where rs = rs, OF assms(2)]
  show ?thesis
  proof (cases "reads call")
    case True
    with take have "\<not> rw_writer l" "l' = l\<lparr>rw_readers := rw_readers l + 1\<rparr>"
      by (auto simp: take_lock_def RLock_def split: if_splits)
    with held out True assms(3) show ?thesis by (simp add: lock_held_def readers_in_upd writers_in_upd)
  next
    case False
    with take have "\<not> rw_writer l" "rw_readers l = 0" "l' = l\<lparr>rw_writer := True\<rparr>"
      by (auto simp: take_lock_def Lock_def split: if_splits)
    with held out False assms(3) show ?thesis by (simp add: lock_held_def readers_in_upd writers_in_upd)
  qed
qed

lemma lock_held_release:
  assumes held: "lock_held rs l" and "held_for (rs g) = Some call" and "held_for r = None"
  shows "\<exists>l'. deferred_unlock call l = Return l' \<and> lock_held (rs(g := r)) l'"
proof -
  note in_g = held_in [where rs = rs, OF assms(2)]
  show ?thesis
  proof (cases "reads call")
    case True
    with in_g have g: "g \<in> readers_in rs" "g \<notin> writers_in rs" by simp_all
    with held card_gt_0_iff [of "readers_in rs"] have pos: "rw_readers l \<noteq> 0"
      unfolding lock_held_def by (metis empty_iff less_nat_zero_code)
    with held have "\<not> rw_writer l" by (auto simp: lock_held_def split: if_splits)
    with held g pos assms(3) show ?thesis
      by (simp add: True deferred_unlock_def RUnlock_def lock_held_def readers_in_upd writers_in_upd)
  next
    case False
    with in_g have g: "g \<in> writers_in rs" "g \<notin> readers_in rs" by simp_all
    with held have w: "rw_writer l" by (auto simp: lock_held_def split: if_splits)
    with held g have "writers_in rs = {g}" by (auto simp: lock_held_def)
    with held g w assms(3) show ?thesis
      by (simp add: False deferred_unlock_def Unlock_def lock_held_def readers_in_upd writers_in_upd)
  qed
qed

lemma lock_inv_init: "concurrent_init S s \<Longrightarrow> lock_inv S s"
  by (simp add: lock_inv_def concurrent_init_def lock_held_def readers_in_def writers_in_def unlocked_def)

lemma lock_inv_step:
  assumes inv: "lock_inv S s" and step: "routine_step S g s s'"
  shows "lock_inv S s'"
proof -
  from inv have held: "lock_held (cc_routine s) (cc_lock s)"
    and snap: "\<And>g call c. cc_routine s g = Inside call c \<Longrightarrow> c = cc_store s"
    and log: "\<And>g call out. cc_routine s g = Leaving call out \<Longrightarrow> \<exists>h. (g, h, call, out) \<in> set (cc_log s)"
    and run: "replay S (cc_log s) (NewCacheStores S) = Some (cc_store s)"
    by (simp_all add: lock_inv_def)
  show ?thesis
    using step
  proof (rule routine_stepE)
    fix call
    assume s': "s' = s\<lparr>cc_routine := (cc_routine s)(g := Waiting call)\<rparr>" and g: "cc_routine s g = Ready"
    have "lock_held (cc_routine s') (cc_lock s')" using lock_held_same [OF held] by (simp add: s' g)
    with snap log run show ?thesis by (simp add: lock_inv_def s')
  next
    fix call l
    assume s': "s' = s\<lparr>cc_lock := l, cc_routine := (cc_routine s)(g := Inside call (cc_store s))\<rparr>"
      and g: "cc_routine s g = Waiting call" and l: "take_lock call (cc_lock s) = Some l"
    have "lock_held (cc_routine s') (cc_lock s')" using lock_held_take [OF held _ _ l] by (simp add: s' g)
    with snap log run show ?thesis by (simp add: lock_inv_def s')
  next
    fix call c h out c'
    assume s': "s' = s\<lparr>cc_store := if reads call then cc_store s else c',
        cc_routine := (cc_routine s)(g := Leaving call out), cc_log := cc_log s @ [(g, h, call, out)]\<rparr>"
      and g: "cc_routine s g = Inside call c" and body: "call_body S h call c = (out, c')"
    have c: "c = cc_store s" by (rule snap [OF g])
    have eff: "cc_store s' = c'" using call_body_reads [OF _ body] c by (simp add: s')
    have "lock_held (cc_routine s') (cc_lock s')" using lock_held_same [OF held] by (simp add: s' g)
    moreover have "c2 = cc_store s'" if "cc_routine s' g2 = Inside call2 c2" for g2 call2 c2
    proof -
      from that have g2: "g2 \<noteq> g" "cc_routine s g2 = Inside call2 c2" by (simp_all add: s' split: if_splits)
      with writer_alone [OF held, of g call g2 call2] g have "reads call" by auto
      then show ?thesis using snap [OF g2(2)] by (simp add: s')
    qed
    moreover have "replay S (cc_log s') (NewCacheStores S) = Some (cc_store s')"
      unfolding eff using run body c by (simp add: s' replay_append)
    ultimately show ?thesis using log by (auto simp: lock_inv_def s')
  next
    fix call out l
    assume s': "s' = s\<lparr>cc_lock := l, cc_routine := (cc_routine s)(g := Ready)\<rparr>"
      and g: "cc_routine s g = Leaving call out" and l: "deferred_unlock call (cc_lock s) = Return l"
    have "lock_held (cc_routine s') (cc_lock s')"
      using lock_held_release [OF held, of g call Ready] l by (simp add: s' g)
    with snap log run show ?thesis by (simp add: lock_inv_def s')
  qed
qed

interpretation lock_system: invariant_system "concurrent_init S" "concurrent_step S" "lock_inv S"
  for S :: "'c cache_Store"
  by unfold_locales (auto simp: concurrent_step_def intro: lock_inv_init lock_inv_step)

lemma reach_by:
  "reach (concurrent_init S) (concurrent_step S) s \<Longrightarrow> routine_step S g s s' \<Longrightarrow>
    reach (concurrent_init S) (concurrent_step S) s'"
  by (rule reach_step) (auto simp: concurrent_step_def)

text \<open>As long as one goroutine is in a method, one of them can go on.\<close>

lemma somebody_goes_on:
  assumes held: "lock_held (cc_routine s) (cc_lock s)" and busy: "cc_routine s g \<noteq> Ready"
  shows "\<exists>g' s'. cc_routine s g' \<noteq> Ready \<and> routine_step S g' s s'"
proof (cases "\<exists>g' call. held_for (cc_routine s g') = Some call")
  case True
  then obtain g' call where g': "held_for (cc_routine s g') = Some call" by blast
  show ?thesis
  proof (cases "cc_routine s g'")
    case (Inside call' c)
    obtain out c' where "call_body S undefined call' c = (out, c')" by fastforce
    from routine_step.acts [of s g' call' c S undefined, OF Inside this] Inside show ?thesis by force
  next
    case (Leaving call' out)
    obtain l where "deferred_unlock call' (cc_lock s) = Return l"
      using lock_held_release [OF held, of g' call' Ready] Leaving by auto
    from routine_step.unlocks [of s g' call' out l S, OF Leaving this] Leaving show ?thesis by force
  qed (use g' in simp_all)
next
  case False
  then have "readers_in (cc_routine s) = {}" "writers_in (cc_routine s) = {}"
    by (simp_all add: readers_in_def writers_in_def)
  with held have free: "\<not> rw_writer (cc_lock s)" "rw_readers (cc_lock s) = 0"
    by (auto simp: lock_held_def split: if_splits)
  show ?thesis
  proof (cases "cc_routine s g")
    case (Waiting call)
    have "\<exists>l. take_lock call (cc_lock s) = Some l"
      using free by (simp add: take_lock_def RLock_def Lock_def)
    then obtain l where "take_lock call (cc_lock s) = Some l" ..
    from routine_step.locks [of s g call l S, OF Waiting this] busy show ?thesis by blast
  next
    case (Inside call c)
    then have "held_for (cc_routine s g) = Some call" by simp
    with False show ?thesis by blast
  next
    case (Leaving call out)
    then have "held_for (cc_routine s g) = Some call" by simp
    with False show ?thesis by blast
  qed (use busy in simp)
qed

section \<open>Properties\<close>

text \<open>C12. Goroutines that call the methods of CacheStores in any interleaving cannot be told
  from one that runs them one after the other: in every reachable state the effects so far, replayed
  in their order, give every call the outcome it has and the cache its state, although a body works on
  the cache as it found it at entry. A writer is alone inside, the lock is free once nobody is inside,
  panics included, no deferred unlock fails, and as long as somebody is in a method somebody can go
  on.\<close>
theorem locked_calls_are_atomic:
  assumes "reach (concurrent_init S) (concurrent_step S) s"
  shows "replay S (cc_log s) (NewCacheStores S) = Some (cc_store s) \<and>
    (\<forall>g call out. cc_routine s g = Leaving call out \<longrightarrow> (\<exists>h. (g, h, call, out) \<in> set (cc_log s))) \<and>
    (\<forall>g g' call call'. held_for (cc_routine s g) = Some call \<longrightarrow> \<not> reads call \<longrightarrow>
      held_for (cc_routine s g') = Some call' \<longrightarrow> g' = g) \<and>
    ((\<forall>g. held_for (cc_routine s g) = None) \<longrightarrow> cc_lock s = unlocked) \<and>
    ((\<exists>g. cc_routine s g \<noteq> Ready) \<longrightarrow> (\<exists>g s'. cc_routine s g \<noteq> Ready \<and> routine_step S g s s'))"
proof -
  have inv: "lock_inv S s" by (rule lock_system.reach_inv [OF assms])
  then have held: "lock_held (cc_routine s) (cc_lock s)" by (simp add: lock_inv_def)
  have "cc_lock s = unlocked" if "\<forall>g. held_for (cc_routine s g) = None"
    using held that by (cases "cc_lock s") (auto simp: lock_held_def readers_in_def writers_in_def unlocked_def split: if_splits)
  with inv writer_alone [OF held] somebody_goes_on [OF held, where S = S] show ?thesis
    unfolding lock_inv_def by (intro conjI allI impI) (blast+)
qed

text \<open>Two goroutines add at the same time, the first of them a \<^verbatim>\<open>nil\<close> object: its call panics, and the other one
  gets the lock and files its object.\<close>

definition two_routines :: "'c \<Rightarrow> RWMutex \<Rightarrow> 'c routine \<Rightarrow> 'c routine \<Rightarrow>
    (nat \<times> heap \<times> store_call \<times> store_reply outcome) list \<Rightarrow> 'c concurrent" where
  "two_routines c l r r' entries =
     \<lparr>cc_store = c, cc_lock = l, cc_routine = (\<lambda>_. Ready)(0 := r, 1 := r'), cc_log = entries\<rparr>"

lemma two_routines_simps [simp]:
  "cc_routine (two_routines c l r r' entries) 0 = r" "cc_routine (two_routines c l r r' entries) (Suc 0) = r'"
  "(two_routines c l r r' entries)\<lparr>cc_routine := (cc_routine (two_routines c l r r' entries))(0 := r2)\<rparr> =
    two_routines c l r2 r' entries"
  "(two_routines c l r r' entries)\<lparr>cc_routine := (cc_routine (two_routines c l r r' entries))(Suc 0 := r2)\<rparr> =
    two_routines c l r r2 entries"
  "cc_store (two_routines c l r r' entries) = c" "cc_lock (two_routines c l r r' entries) = l"
  "cc_log (two_routines c l r r' entries) = entries"
  by (simp_all add: two_routines_def fun_upd_twist)

lemma two_routines_upd [simp]:
  "(two_routines c l r r' entries)\<lparr>cc_lock := l2, cc_routine := rs\<rparr> =
    (two_routines c l2 r r' entries)\<lparr>cc_routine := rs\<rparr>"
  "(two_routines c l r r' entries)\<lparr>cc_store := c2, cc_routine := rs, cc_log := entries2\<rparr> =
    (two_routines c2 l r r' entries2)\<lparr>cc_routine := rs\<rparr>"
  "cc_routine (two_routines c l r r' entries) = (\<lambda>_. Ready)(0 := r, 1 := r')"
  "(two_routines c l r r' entries)\<lparr>cc_routine := (\<lambda>_. Ready)(0 := q, Suc 0 := q')\<rparr> = two_routines c l q q' entries"
  "(two_routines c l r r' entries)\<lparr>cc_routine := (\<lambda>_. Ready)(Suc 0 := q', 0 := q)\<rparr> = two_routines c l q q' entries"
  "(two_routines c l r r' entries)\<lparr>cc_routine := (\<lambda>_. Ready)(0 := x, Suc 0 := q', 0 := q)\<rparr> = two_routines c l q q' entries"
  by (simp_all add: two_routines_def fun_upd_twist)

abbreviation "table_reach \<equiv> reach (concurrent_init table_store) (concurrent_step table_store)"
abbreviation "new_cache \<equiv> NewCacheStores table_store"
abbreviation "add_nil \<equiv> CallAdd None"
abbreviation "add_file \<equiv> CallAdd (Some (KongFileObj 0))"
abbreviation "empty_heap \<equiv> \<lparr>at_ref = \<lambda>_. zero_KongFile, next_ref = 0\<rparr>"
abbreviation "written \<equiv> \<lparr>rw_readers = 0, rw_writer = True\<rparr>"
abbreviation "nil_panic \<equiv> Panic ''invalid memory address or nil pointer dereference''"

lemma panicking_add:
  "table_reach (two_routines new_cache unlocked Ready (Waiting add_file) [(0, empty_heap, add_nil, nil_panic)])"
proof -
  have "table_reach (two_routines new_cache unlocked Ready Ready [])"
    by (rule reach_init) (simp add: concurrent_init_def)
  then have "table_reach (two_routines new_cache unlocked (Waiting add_nil) Ready [])"
    by (rule reach_by [where g = 0])
      (use routine_step.calls [of "two_routines new_cache unlocked Ready Ready []" 0 table_store add_nil] in \<open>simp\<close>)
  then have "table_reach (two_routines new_cache unlocked (Waiting add_nil) (Waiting add_file) [])"
    by (rule reach_by [where g = 1])
      (use routine_step.calls [of "two_routines new_cache unlocked (Waiting add_nil) Ready []" 1 table_store add_file] in \<open>simp\<close>)
  then have "table_reach (two_routines new_cache written (Inside add_nil new_cache) (Waiting add_file) [])"
    by (rule reach_by [where g = 0])
      (use routine_step.locks [of "two_routines new_cache unlocked (Waiting add_nil) (Waiting add_file) []" 0 add_nil written table_store] in \<open>simp add: take_lock_def Lock_def unlocked_def\<close>)
  then have "table_reach (two_routines new_cache written (Leaving add_nil nil_panic) (Waiting add_file) [(0, empty_heap, add_nil, nil_panic)])"
    by (rule reach_by [where g = 0])
      (use routine_step.acts [of "two_routines new_cache written (Inside add_nil new_cache) (Waiting add_file) []" 0 add_nil new_cache table_store empty_heap] in \<open>simp add: wrote_def CacheStores_Add_def unsupported_kind_def\<close>)
  then have "table_reach (two_routines new_cache unlocked Ready (Waiting add_file) [(0, empty_heap, add_nil, nil_panic)])"
    by (rule reach_by [where g = 0])
      (use routine_step.unlocks [of "two_routines new_cache written (Leaving add_nil nil_panic) (Waiting add_file) [(0, empty_heap, add_nil, nil_panic)]" 0 add_nil nil_panic unlocked table_store] in \<open>simp add: deferred_unlock_def Unlock_def unlocked_def\<close>)
  then show ?thesis .
qed

theorem locked_calls_are_atomic_witness:
  "\<exists>s. table_reach s \<and>
    cc_log s = [(0, empty_heap, add_nil, nil_panic), (1, empty_heap, add_file, Return (Wrote None))] \<and>
    cc_lock s = unlocked \<and> cc_store s \<noteq> new_cache \<and>
    replay table_store (cc_log s) new_cache = Some (cc_store s)"
proof -
  let ?c = "snd (cs_Add table_store (keyFunc empty_heap) (KongFileObj 0) new_cache)"
  let ?q = "Return (Wrote None)"
  note panicking_add
  then have "table_reach (two_routines new_cache written Ready (Inside add_file new_cache) [(0, empty_heap, add_nil, nil_panic)])"
    by (rule reach_by [where g = 1])
      (use routine_step.locks [of "two_routines new_cache unlocked Ready (Waiting add_file) [(0, empty_heap, add_nil, nil_panic)]" 1 add_file written table_store] in \<open>simp add: take_lock_def Lock_def unlocked_def\<close>)
  then have "table_reach (two_routines ?c written Ready (Leaving add_file ?q) [(0, empty_heap, add_nil, nil_panic), (1, empty_heap, add_file, ?q)])"
    by (rule reach_by [where g = 1])
      (use routine_step.acts [of "two_routines new_cache written Ready (Inside add_file new_cache) [(0, empty_heap, add_nil, nil_panic)]" 1 add_file new_cache table_store empty_heap] in \<open>simp add: wrote_def CacheStores_Add_def table_store_def\<close>)
  then have "table_reach (two_routines ?c unlocked Ready Ready [(0, empty_heap, add_nil, nil_panic), (1, empty_heap, add_file, ?q)])"
    by (rule reach_by [where g = 1])
      (use routine_step.unlocks [of "two_routines ?c written Ready (Leaving add_file ?q) [(0, empty_heap, add_nil, nil_panic), (1, empty_heap, add_file, ?q)]" 1 add_file ?q unlocked table_store] in \<open>simp add: deferred_unlock_def Unlock_def unlocked_def\<close>)
  note r = this
  have "DAList.lookup ?c (object_key empty_heap 0) \<noteq> DAList.lookup new_cache (object_key empty_heap 0)"
    by (simp add: table_store_def NewCacheStores_def)
  then have "?c \<noteq> new_cache" by metis
  with r locked_calls_are_atomic [OF r] show ?thesis
    by (intro exI [of _ "two_routines ?c unlocked Ready Ready [(0, empty_heap, add_nil, nil_panic), (1, empty_heap, add_file, ?q)]"] conjI) (simp_all del: replay.simps)
qed

end
