(* ===== verification/File_Service.thy ===== *)
theory File_Service
  imports KongFile_Types
begin

text \<open>
  The client of Kong's \<^verbatim>\<open>/files\<close> endpoint, \<^verbatim>\<open>internal/kong/file_service.go\<close>.

  go-kong's \<^verbatim>\<open>Client\<close> is a parameter \<open>kc\<close>: a record of its two methods over the state \<open>'w\<close> of
  everything behind it (client, network, Kong), with requests of a type \<open>'r\<close> of its own. A Go
  context only reaches that client, so its cancellation is part of the client's behaviour. The locale
  \<open>kong_admin\<close> states the documented contract of the Admin API: what a successful request did to the
  stored files.
\<close>

section \<open>go-kong's client\<close>

text \<open>\<^verbatim>\<open>Do\<close> takes the value of the variable the response is decoded into (\<^const>\<open>None\<close> when it gets \<^verbatim>\<open>nil\<close>
  instead of a pointer to one), and gives the error and the value the variable then has.\<close>

record ('w, 'r) kong_Client =
  kc_NewRequest :: "'w \<Rightarrow> string \<Rightarrow> string \<Rightarrow> File option \<Rightarrow> error + 'r"
  kc_Do :: "'r \<Rightarrow> File option \<Rightarrow> 'w \<Rightarrow> (error option \<times> File) \<times> 'w"

section \<open>FileService\<close>

definition isEmptyString :: "string option \<Rightarrow> bool" where
  "isEmptyString s = (case s of None \<Rightarrow> True | Some p \<Rightarrow> TrimSpace p = '''')"

definition endpoint :: "string \<Rightarrow> string" where
  "endpoint path = ''/files/'' @ path"

text \<open>The steps after the guard that \<^verbatim>\<open>Create\<close>, \<^verbatim>\<open>Get\<close> and \<^verbatim>\<open>Update\<close> have in common: build the request,
  send it, decode the answer into a fresh \<^verbatim>\<open>File\<close>.\<close>

definition request_response ::
  "('w, 'r) kong_Client \<Rightarrow> string \<Rightarrow> string \<Rightarrow> File option \<Rightarrow> 'w \<Rightarrow> (File option \<times> error option) \<times> 'w" where
  "request_response kc httpMethod ep body w =
     (case kc_NewRequest kc w httpMethod ep body of
        Inl err \<Rightarrow> ((None, Some err), w)
      | Inr req \<Rightarrow>
          (case kc_Do kc req (Some zero_File) w of
             ((err, response), w') \<Rightarrow>
               (if err \<noteq> None then ((None, err), w') else ((Some response, None), w'))))"

text \<open>\<^verbatim>\<open>Create\<close> has no guard: it dereferences the path, and panics on \<^verbatim>\<open>nil\<close>.\<close>

definition FileService_Create ::
  "('w, 'r) kong_Client \<Rightarrow> File \<Rightarrow> 'w \<Rightarrow> ((File option \<times> error option) \<times> 'w) outcome" where
  "FileService_Create kc file w =
     (case file_Path file of
        None \<Rightarrow> Panic ''invalid memory address or nil pointer dereference''
      | Some path \<Rightarrow> Return (request_response kc ''PUT'' (endpoint path) (Some file) w))"

definition FileService_Get ::
  "('w, 'r) kong_Client \<Rightarrow> File \<Rightarrow> 'w \<Rightarrow> (File option \<times> error option) \<times> 'w" where
  "FileService_Get kc file w =
     (if isEmptyString (file_Path file) then
        ((None, Some (Errorf ''Path cannot be nil for Get operation'' [])), w)
      else request_response kc ''GET'' (endpoint (the (file_Path file))) None w)"

definition FileService_Update ::
  "('w, 'r) kong_Client \<Rightarrow> File \<Rightarrow> 'w \<Rightarrow> (File option \<times> error option) \<times> 'w" where
  "FileService_Update kc file w =
     (if isEmptyString (file_Path file) then
        ((None, Some (Errorf ''Path cannot be nil for Update operation'' [])), w)
      else request_response kc ''PUT'' (endpoint (the (file_Path file))) (Some file) w)"

text \<open>\<^verbatim>\<open>Delete\<close> answers with its own argument, on error too, and decodes no response.\<close>

definition FileService_Delete ::
  "('w, 'r) kong_Client \<Rightarrow> File \<Rightarrow> 'w \<Rightarrow> (File option \<times> error option) \<times> 'w" where
  "FileService_Delete kc file w =
     (if isEmptyString (file_Path file) then
        ((Some file, Some (Errorf ''Path cannot be nil for Delete operation'' [])), w)
      else
        (case kc_NewRequest kc w ''DELETE'' (endpoint (the (file_Path file))) None of
           Inl err \<Rightarrow> ((Some file, Some err), w)
         | Inr req \<Rightarrow>
             (case kc_Do kc req None w of
                ((err, _), w') \<Rightarrow> ((Some file, err), w'))))"

lemmas FileService_defs =
  FileService_Create_def FileService_Get_def FileService_Update_def FileService_Delete_def

declare FileService_defs [go_ops]

section \<open>Lemmas\<close>

lemma isEmptyString_None [simp]: "isEmptyString None"
  by (simp add: isEmptyString_def)

lemma isEmptyString_Nil [simp]: "isEmptyString (Some '''')"
  by (simp add: isEmptyString_def)

lemma not_isEmptyStringD: "\<not> isEmptyString p \<Longrightarrow> \<exists>s. p = Some s"
  by (cases p) auto

lemma isEmptyString_Cons: "\<not> starts_space c \<Longrightarrow> \<not> isEmptyString (Some (c # cs))"
  by (simp add: isEmptyString_def TrimSpace_not_blank)

text \<open>An answer carries a file or an error, never both and never neither.\<close>

lemma request_response_file_or_error:
  "request_response kc m ep body w = ((f, e), w') \<Longrightarrow> f = None \<longleftrightarrow> e \<noteq> None"
  by (auto simp: request_response_def split: sum.splits prod.splits if_splits)

lemma FileService_Get_file_or_error:
  "FileService_Get kc file w = ((f, e), w') \<Longrightarrow> f = None \<longleftrightarrow> e \<noteq> None"
  by (auto simp: FileService_Get_def dest: request_response_file_or_error split: if_splits)

lemma FileService_blank_path:
  assumes "isEmptyString (file_Path file)"
  shows "\<exists>e. FileService_Update kc file w = ((None, Some e), w)"
    and "\<exists>e. FileService_Get kc file w = ((None, Some e), w)"
    and "\<exists>e. FileService_Delete kc file w = ((Some file, Some e), w)"
  using assms by (simp_all add: go_ops)

section \<open>The contract of the Admin API\<close>

text \<open>Paths without characters that a URL gives a meaning to: the endpoint names the file itself.\<close>

definition plain_char :: "char \<Rightarrow> bool" where
  "plain_char c \<longleftrightarrow>
     (let n = (of_char c :: nat)
      in 97 \<le> n \<and> n \<le> 122 \<or> 65 \<le> n \<and> n \<le> 90 \<or> 48 \<le> n \<and> n \<le> 57 \<or> c \<in> set ''-_./'')"

definition plain_path :: "string \<Rightarrow> bool" where
  "plain_path p \<longleftrightarrow> list_all plain_char p"

text \<open>
  \<open>files\<close> reads the files Kong holds, by path, out of the state of the world. Of the Admin API the
  development relies on: a request for a file touches no other file; a \<^verbatim>\<open>PUT\<close> that succeeds leaves the
  contents sent; a \<^verbatim>\<open>DELETE\<close> that succeeds leaves no such file; a \<^verbatim>\<open>GET\<close> changes nothing, and
  succeeds only for a file that is there.
\<close>

locale kong_admin =
  fixes kc :: "('w, 'r) kong_Client"
    and files :: "'w \<Rightarrow> string \<Rightarrow> string option"
  assumes put_only: "plain_path p \<Longrightarrow> kc_NewRequest kc w ''PUT'' (endpoint p) (Some f) = Inr req \<Longrightarrow>
      kc_Do kc req v w = (r, w') \<Longrightarrow> q \<noteq> p \<Longrightarrow> files w' q = files w q"
    and put_stores: "plain_path p \<Longrightarrow> kc_NewRequest kc w ''PUT'' (endpoint p) (Some f) = Inr req \<Longrightarrow>
      kc_Do kc req v w = ((None, v'), w') \<Longrightarrow> files w' p = file_Contents f"
    and delete_only: "plain_path p \<Longrightarrow> kc_NewRequest kc w ''DELETE'' (endpoint p) None = Inr req \<Longrightarrow>
      kc_Do kc req v w = (r, w') \<Longrightarrow> q \<noteq> p \<Longrightarrow> files w' q = files w q"
    and delete_removes: "plain_path p \<Longrightarrow> kc_NewRequest kc w ''DELETE'' (endpoint p) None = Inr req \<Longrightarrow>
      kc_Do kc req v w = ((None, v'), w') \<Longrightarrow> files w' p = None"
    and get_reads: "plain_path p \<Longrightarrow> kc_NewRequest kc w ''GET'' (endpoint p) None = Inr req \<Longrightarrow>
      kc_Do kc req v w = (r, w') \<Longrightarrow> files w' = files w"
    and get_found: "plain_path p \<Longrightarrow> kc_NewRequest kc w ''GET'' (endpoint p) None = Inr req \<Longrightarrow>
      kc_Do kc req v w = ((None, v'), w') \<Longrightarrow> files w p \<noteq> None"
begin

text \<open>What the service's operations do to the stored files.\<close>

lemma update_only:
  assumes "FileService_Update kc f w = (r, w')" and "file_Path f = Some p" and "plain_path p"
    and "q \<noteq> p"
  shows "files w' q = files w q"
  using assms put_only [of p w f]
  by (auto simp: FileService_Update_def request_response_def
      split: if_splits sum.splits prod.splits)

lemma update_stores:
  assumes "FileService_Update kc f w = ((v, None), w')" and "file_Path f = Some p" and "plain_path p"
  shows "files w' = (files w)(p := file_Contents f)"
proof
  fix q
  have "files w' p = file_Contents f"
    using assms put_stores [of p w f]
    by (auto simp: FileService_Update_def request_response_def
        split: if_splits sum.splits prod.splits)
  then show "files w' q = ((files w)(p := file_Contents f)) q"
    using update_only [OF assms] by simp
qed

lemma delete_only_path:
  assumes "FileService_Delete kc f w = (r, w')" and "file_Path f = Some p" and "plain_path p"
    and "q \<noteq> p"
  shows "files w' q = files w q"
  using assms delete_only [of p w]
  by (auto simp: FileService_Delete_def split: if_splits sum.splits prod.splits)

lemma delete_removes_path:
  assumes "FileService_Delete kc f w = ((v, None), w')" and "file_Path f = Some p" and "plain_path p"
  shows "files w' = (files w)(p := None)"
proof
  fix q
  have "files w' p = None"
    using assms delete_removes [of p w]
    by (auto simp: FileService_Delete_def split: if_splits sum.splits prod.splits)
  then show "files w' q = ((files w)(p := None)) q"
    using delete_only_path [OF assms] by simp
qed

lemma get_unchanged:
  assumes "FileService_Get kc f w = (r, w')" and "file_Path f = Some p" and "plain_path p"
  shows "files w' = files w"
  using assms get_reads [of p w]
  by (auto simp: FileService_Get_def request_response_def
      split: if_splits sum.splits prod.splits)

lemma get_found_path:
  assumes "FileService_Get kc f w = ((v, None), w')" and "file_Path f = Some p" and "plain_path p"
  shows "files w p \<noteq> None"
  using assms get_found [of p w]
  by (auto simp: FileService_Get_def request_response_def
      split: if_splits sum.splits prod.splits)

end

section \<open>A lawful Kong\<close>

text \<open>A Kong that keeps its files in a map and answers every request, but the ones it is told to refuse:
  the first component of the state is a list of answers to come, \<^const>\<open>True\<close> for a request that is
  served, used up one by one (and every later request is served).\<close>

type_synonym mem_kong = "bool list \<times> (string \<rightharpoonup> string)"

datatype mem_request =
    Put string File
  | Fetch string
  | Remove string
  | Unknown

definition file_of :: "string \<Rightarrow> string" where
  "file_of ep = drop (length ''/files/'') ep"

definition mem_request_of :: "string \<Rightarrow> string \<Rightarrow> File option \<Rightarrow> mem_request" where
  "mem_request_of httpMethod ep body =
     (if httpMethod = ''PUT'' then (case body of Some f \<Rightarrow> Put (file_of ep) f | None \<Rightarrow> Unknown)
      else if httpMethod = ''GET'' then Fetch (file_of ep)
      else if httpMethod = ''DELETE'' then Remove (file_of ep)
      else Unknown)"

definition target :: "File option \<Rightarrow> File" where
  "target v = (case v of None \<Rightarrow> zero_File | Some f \<Rightarrow> f)"

fun mem_do :: "mem_request \<Rightarrow> File option \<Rightarrow> mem_kong \<Rightarrow> (error option \<times> File) \<times> mem_kong" where
  "mem_do req v (False # answers, m) =
     ((Some (External ''503 Service Unavailable''), target v), (answers, m))"
| "mem_do (Put p f) v (answers, m) =
     ((None, f), (tl answers, m(p := file_Contents f)))"
| "mem_do (Fetch p) v (answers, m) =
     (case m p of
        None \<Rightarrow> ((Some (External ''404 Not Found''), target v), (tl answers, m))
      | Some text \<Rightarrow>
          ((None, (target v)\<lparr>file_Path := Some p, file_Contents := Some text\<rparr>), (tl answers, m)))"
| "mem_do (Remove p) v (answers, m) = ((None, target v), (tl answers, m(p := None)))"
| "mem_do Unknown v (answers, m) =
     ((Some (External ''405 Method Not Allowed''), target v), (tl answers, m))"

definition mem_client :: "(mem_kong, mem_request) kong_Client" where
  "mem_client =
     \<lparr>kc_NewRequest = (\<lambda>w httpMethod ep body. Inr (mem_request_of httpMethod ep body)),
      kc_Do = mem_do\<rparr>"

lemma mem_client_requests:
  "kc_NewRequest mem_client w ''PUT'' (endpoint p) (Some f) = Inr (Put p f)"
  "kc_NewRequest mem_client w ''GET'' (endpoint p) None = Inr (Fetch p)"
  "kc_NewRequest mem_client w ''DELETE'' (endpoint p) None = Inr (Remove p)"
  by (simp_all add: mem_client_def mem_request_of_def file_of_def endpoint_def)

lemma mem_client_do [simp]: "kc_Do mem_client = mem_do"
  by (simp add: mem_client_def)

lemma mem_do_put:
  "mem_do (Put p f) v w = ((e, v'), w') \<Longrightarrow>
    snd w' = (if e = None then (snd w)(p := file_Contents f) else snd w)"
  by (cases "(Put p f, v, w)" rule: mem_do.cases) auto

lemma mem_do_remove:
  "mem_do (Remove p) v w = ((e, v'), w') \<Longrightarrow>
    snd w' = (if e = None then (snd w)(p := None) else snd w)"
  by (cases "(Remove p, v, w)" rule: mem_do.cases) auto

lemma mem_do_fetch:
  "mem_do (Fetch p) v w = ((e, v'), w') \<Longrightarrow> snd w' = snd w \<and> (e = None \<longrightarrow> snd w p \<noteq> None)"
  by (cases "(Fetch p, v, w)" rule: mem_do.cases) (auto split: option.splits)

interpretation mem: kong_admin mem_client "\<lambda>w. snd w"
  by unfold_locales
    (auto simp: mem_client_requests dest: mem_do_put mem_do_remove mem_do_fetch split: if_splits)

end
