(* ===== verification/Ctrl_Metrics.thy ===== *)
theory Ctrl_Metrics
  imports Complex_Main Go_Prelude
begin

text \<open>
  The controller's Prometheus metrics, \<^verbatim>\<open>internal/metrics/prometheus.go\<close>. A metric vector is its
  options and label names; the arguments of \<^verbatim>\<open>prometheus.ExponentialBuckets\<close> are kept in place of the
  buckets it computes. The process-wide registry belongs to Prometheus: \<open>mustRegister\<close> is a
  parameter over its state \<open>'reg\<close>, and panics on a collector it will not take.
\<close>

definition SuccessTrue :: string where
  "SuccessTrue = ''true''"

definition SuccessFalse :: string where
  "SuccessFalse = ''false''"

definition SuccessKey :: string where
  "SuccessKey = ''success''"

definition ProtocolDBLess :: string where
  "ProtocolDBLess = ''db-less''"

definition ProtocolDeck :: string where
  "ProtocolDeck = ''deck''"

definition ProtocolKey :: string where
  "ProtocolKey = ''protocol''"

definition MetricNameConfigPushCount :: string where
  "MetricNameConfigPushCount = ''portal_controller_configuration_push_count''"

definition MetricNameTranslationCount :: string where
  "MetricNameTranslationCount = ''portal_controller_translation_count''"

definition MetricNameConfigPushDuration :: string where
  "MetricNameConfigPushDuration = ''portal_controller_configuration_push_duration_milliseconds''"

lemmas metric_name_defs =
  MetricNameConfigPushCount_def MetricNameTranslationCount_def MetricNameConfigPushDuration_def

record CounterVec =
  cv_Name :: string
  cv_Help :: string
  cv_Labels :: "string list"

record HistogramVec =
  hv_Name :: string
  hv_Help :: string
  hv_Buckets :: "rat \<times> rat \<times> nat" \<comment> \<open>start, factor and count of the exponential buckets\<close>
  hv_Labels :: "string list"

datatype Collector =
    Counter CounterVec
  | Histogram HistogramVec

fun collector_name :: "Collector \<Rightarrow> string" where
  "collector_name (Counter v) = cv_Name v"
| "collector_name (Histogram v) = hv_Name v"

record CtrlFuncMetrics =
  ConfigPushCount :: CounterVec
  TranslationCount :: CounterVec
  ConfigPushDuration :: HistogramVec

definition controllerMetrics :: CtrlFuncMetrics where
  "controllerMetrics =
     \<lparr>ConfigPushCount =
        \<lparr>cv_Name = MetricNameConfigPushCount,
         cv_Help = ''Count of successful/failed developer pushes to Kong. `'' @
           ProtocolKey @ ''` describes the developer protocol ('' @ ProtocolDBLess @ '' or '' @
           ProtocolDeck @ '') in use. `'' @
           SuccessKey @ ''` describes whether there were unrecoverable errors (`'' @
           SuccessFalse @ ''`) or not (`'' @ SuccessTrue @ ''`).'',
         cv_Labels = [SuccessKey, ProtocolKey]\<rparr>,
      TranslationCount =
        \<lparr>cv_Name = MetricNameTranslationCount,
         cv_Help = ''Count of translations from Kubernetes state to Kong state. `'' @
           SuccessKey @ ''` describes whether there were unrecoverable errors (`'' @
           SuccessFalse @ ''`) or not (`'' @ SuccessTrue @ ''`).'',
         cv_Labels = [SuccessKey]\<rparr>,
      ConfigPushDuration =
        \<lparr>hv_Name = MetricNameConfigPushDuration,
         hv_Help = ''How long it took to push the developer to Kong, in milliseconds. `'' @
           ProtocolKey @ ''` describes the developer protocol ('' @ ProtocolDBLess @ '' or '' @
           ProtocolDeck @ '') in use. `'' @
           SuccessKey @ ''` describes whether there were unrecoverable errors (`'' @
           SuccessFalse @ ''`) or not (`'' @ SuccessTrue @ ''`).'',
         hv_Buckets = (100, 133 / 100, 30),
         hv_Labels = [SuccessKey, ProtocolKey]\<rparr>\<rparr>"

definition NewCtrlFuncMetrics ::
  "(Collector list \<Rightarrow> 'reg \<Rightarrow> 'reg outcome) \<Rightarrow> 'reg \<Rightarrow> (CtrlFuncMetrics \<times> 'reg) outcome" where
  "NewCtrlFuncMetrics mustRegister reg =
     map_outcome_val (\<lambda>reg'. (controllerMetrics, reg'))
       (mustRegister
          [Counter (ConfigPushCount controllerMetrics), Counter (TranslationCount controllerMetrics),
           Histogram (ConfigPushDuration controllerMetrics)] reg)"

text \<open>A registry that refuses a name it has, as \<^verbatim>\<open>MustRegister\<close> is documented to.\<close>

fun names_register :: "Collector list \<Rightarrow> string list \<Rightarrow> string list outcome" where
  "names_register [] reg = Return reg"
| "names_register (c # cs) reg =
     (if collector_name c \<in> set reg then Panic ''duplicate metrics collector registration attempted''
      else names_register cs (collector_name c # reg))"

end
