(* ===== verification/Proxy_Resolver.thy ===== *)
theory Proxy_Resolver
  imports Cache_Stores File_Service Ctrl_Metrics
begin

text \<open>
  The proxy between Kubernetes objects and Kong: the interface \<^verbatim>\<open>Proxy\<close> of
  \<^verbatim>\<open>internal/dataplane/proxy/proxy.go\<close>, its implementation \<^verbatim>\<open>CachedProxyResolver\<close> of
  \<^verbatim>\<open>cached_proxy_resolver.go\<close>, and \<^verbatim>\<open>configuration.Kong\<close> of \<^verbatim>\<open>internal/dataplane/configuration/kong.go\<close>.

  A method works on the resolver's fields and on the world \<open>'w\<close> behind the Kong client; it reads the
  objects it is given through the heap and never writes it. The fields \<^verbatim>\<open>ctx\<close>, \<^verbatim>\<open>logger\<close>, \<^verbatim>\<open>service\<close>
  (a \<^verbatim>\<open>FileService\<close> holds nothing but the client) and the mutex of \<^verbatim>\<open>configApplied\<close> carry no state of
  the model; \<^verbatim>\<open>Kong.Client\<close> is the parameter \<open>kc\<close> and \<^verbatim>\<open>Kong.ConfigDone\<close> is a channel nothing uses.
\<close>

section \<open>State\<close>

record 'v Kong =
  URL :: string
  InMemory :: bool
  Version :: 'v
  Concurrency :: int

text \<open>\<^verbatim>\<open>UpdateKongAdmin\<close> logs a line and does nothing else.\<close>

definition UpdateKongAdmin :: "'c \<Rightarrow> string \<Rightarrow> 'v Kong \<Rightarrow> bool \<Rightarrow> int \<Rightarrow> CtrlFuncMetrics option \<Rightarrow> error option" where
  "UpdateKongAdmin c className kongConfig0 reverseSync timeout metrics = None"

record ('c, 'v) CachedProxyResolver =
  configApplied :: bool
  kongConfig :: "'v Kong"
  enableReverseSync :: bool
  dbmode :: string
  version :: 'v
  store :: 'c
  promMetrics :: "CtrlFuncMetrics option"
  controllerClassName :: string
  proxyRequestTimeout :: int

text \<open>The methods of the interface \<^verbatim>\<open>Proxy\<close>, over any state \<open>'p\<close> of an implementation.\<close>

record 'p Proxy =
  pr_UpdateObject :: "heap \<Rightarrow> Object option \<Rightarrow> 'p \<Rightarrow> (error option \<times> 'p) outcome"
  pr_DeleteObject :: "heap \<Rightarrow> Object option \<Rightarrow> 'p \<Rightarrow> (error option \<times> 'p) outcome"
  pr_ObjectExists :: "heap \<Rightarrow> Object option \<Rightarrow> 'p \<Rightarrow> ((bool \<times> error option) \<times> 'p) outcome"
  pr_ObjectExistsInCache ::
    "heap \<Rightarrow> Object option \<Rightarrow> 'p \<Rightarrow> Object option \<times> bool \<times> error option"
  pr_IsReady :: "'p \<Rightarrow> bool"
  pr_Start :: "'p \<Rightarrow> error option"
  pr_NeedLeaderElection :: "'p \<Rightarrow> bool"

section \<open>Build\<close>

text \<open>The newline of the source's string literals.\<close>

definition NL :: string where
  "NL = [CHR 0x0A]"

definition Build :: "KongFile \<Rightarrow> File" where
  "Build kongFile =
     (let spec = kf_Spec kongFile;
          (expectedPath, expectedContent) =
            (if Spec_Kind spec = CONTENT then
               (''content/'' @ Spec_Path spec @ ''/'' @ Spec_Name spec,
                ''---'' @ NL @
                ''title: '' @ Spec_Title spec @ NL @
                ''layout: '' @ Spec_Layout spec @ NL @
                ''---'' @ NL @
                Spec_Content spec)
             else if Spec_Kind spec = ASSET then
               (''base/assets/'' @ Spec_Path spec @ ''/'' @ Spec_Name spec, Spec_Content spec)
             else if Spec_Kind spec = SPECIFICATION then
               (''specs/'' @ Spec_Path spec @ ''/'' @ Spec_Name spec, Spec_Content spec)
             else ('''', ''''))
      in zero_File\<lparr>file_Path := Some expectedPath, file_Contents := Some expectedContent\<rparr>)"

section \<open>The methods\<close>

type_synonym ('c, 'v, 'w) resolver_state = "('c, 'v) CachedProxyResolver \<times> 'w"

text \<open>The result of the cache update is dropped by the code.\<close>

fun UpdateObject :: "'c cache_Store \<Rightarrow> ('w, 'r) kong_Client \<Rightarrow> heap \<Rightarrow> Object option \<Rightarrow>
    ('c, 'v, 'w) resolver_state \<Rightarrow> (error option \<times> ('c, 'v, 'w) resolver_state) outcome" where
  "UpdateObject S kc h obj (p, w) =
     (case obj of
        Some (KongFileObj r) \<Rightarrow>
          (case CacheStores_Update S h (Some (KongFileObj r)) (store p) of
             Panic m \<Rightarrow> Panic m
           | Return (_, c) \<Rightarrow>
               (case FileService_Update kc (Build (at_ref h r)) w of
                  ((_, err), w') \<Rightarrow> Return (err, (p\<lparr>store := c\<rparr>, w'))))
      | _ \<Rightarrow> map_outcome_val (\<lambda>e. (Some e, (p, w)))
               (unsupported_kind ''cannot add unsupported kind %q to the store'' obj))"

fun DeleteObject :: "'c cache_Store \<Rightarrow> ('w, 'r) kong_Client \<Rightarrow> heap \<Rightarrow> Object option \<Rightarrow>
    ('c, 'v, 'w) resolver_state \<Rightarrow> (error option \<times> ('c, 'v, 'w) resolver_state) outcome" where
  "DeleteObject S kc h obj (p, w) =
     (case obj of
        Some (KongFileObj r) \<Rightarrow>
          (case CacheStores_Delete S h (Some (KongFileObj r)) (store p) of
             Panic m \<Rightarrow> Panic m
           | Return (_, c) \<Rightarrow>
               (case FileService_Delete kc (Build (at_ref h r)) w of
                  ((_, err), w') \<Rightarrow> Return (err, (p\<lparr>store := c\<rparr>, w'))))
      | _ \<Rightarrow> map_outcome_val (\<lambda>e. (Some e, (p, w)))
               (unsupported_kind ''cannot add unsupported kind %q to the store'' obj))"

fun ObjectExists :: "('w, 'r) kong_Client \<Rightarrow> heap \<Rightarrow> Object option \<Rightarrow>
    ('c, 'v, 'w) resolver_state \<Rightarrow> ((bool \<times> error option) \<times> ('c, 'v, 'w) resolver_state) outcome" where
  "ObjectExists kc h obj (p, w) =
     (case obj of
        Some (KongFileObj r) \<Rightarrow>
          (case FileService_Get kc (Build (at_ref h r)) w of
             ((file, err), w') \<Rightarrow>
               (if err \<noteq> None then Return ((False, err), (p, w'))
                else if file \<noteq> None then Return ((True, None), (p, w'))
                else Return ((False, None), (p, w'))))
      | _ \<Rightarrow> map_outcome_val (\<lambda>e. ((False, Some e), (p, w)))
               (unsupported_kind ''cannot add unsupported kind %q to the store'' obj))"

fun ObjectExistsInCache :: "'c cache_Store \<Rightarrow> heap \<Rightarrow> Object option \<Rightarrow>
    ('c, 'v, 'w) resolver_state \<Rightarrow> Object option \<times> bool \<times> error option" where
  "ObjectExistsInCache S h obj (p, w) =
     (case CacheStores_Get S h obj (store p) of
        (cached, exists, err) \<Rightarrow>
          (if cached \<noteq> None then (cached, exists, err) else (None, exists, err)))"

definition NeedLeaderElection :: "('c, 'v) CachedProxyResolver \<Rightarrow> bool" where
  "NeedLeaderElection p = (if dbmode p = ''off'' then False else True)"

definition Start :: "('c, 'v) CachedProxyResolver \<Rightarrow> error option" where
  "Start p = None"

definition IsReady :: "('c, 'v) CachedProxyResolver \<Rightarrow> bool" where
  "IsReady p = (if dbmode p = ''off'' then configApplied p else True)"

text \<open>The resolver as a value of the interface.\<close>

definition resolver_Proxy ::
  "'c cache_Store \<Rightarrow> ('w, 'r) kong_Client \<Rightarrow> ('c, 'v, 'w) resolver_state Proxy" where
  "resolver_Proxy S kc =
     \<lparr>pr_UpdateObject = UpdateObject S kc,
      pr_DeleteObject = DeleteObject S kc,
      pr_ObjectExists = ObjectExists kc,
      pr_ObjectExistsInCache = ObjectExistsInCache S,
      pr_IsReady = IsReady \<circ> fst,
      pr_Start = Start \<circ> fst,
      pr_NeedLeaderElection = NeedLeaderElection \<circ> fst\<rparr>"

section \<open>Construction\<close>

text \<open>A value of type \<^verbatim>\<open>interface{}\<close> as the JSON decoder makes it: what the code can tell apart.\<close>

datatype dyn =
    DNil
  | DString string
  | DMap "string \<Rightarrow> dyn option"
  | DOther string

fun dyn_type :: "dyn \<Rightarrow> string" where
  "dyn_type DNil = ''<nil>''"
| "dyn_type (DString _) = ''string''"
| "dyn_type (DMap _) = ''map[string]interface {}''"
| "dyn_type (DOther t) = t"

definition dyn_index :: "(string \<rightharpoonup> dyn) \<Rightarrow> string \<Rightarrow> dyn" where
  "dyn_index m k = (case m k of None \<Rightarrow> DNil | Some v \<Rightarrow> v)"

text \<open>go-kong's calls and the metrics registry.\<close>

record ('w, 'v, 'reg) init_deps =
  id_Root :: "int \<Rightarrow> 'w \<Rightarrow> (error + (string \<Rightarrow> dyn option)) \<times> 'w"
    \<comment> \<open>\<^verbatim>\<open>Client.Root\<close> under a timeout\<close>
  id_VersionFromInfo :: "(string \<Rightarrow> dyn option) \<Rightarrow> string"
  id_ParseSemanticVersion :: "string \<Rightarrow> error + 'v"
  id_MustRegister :: "Collector list \<Rightarrow> 'reg \<Rightarrow> 'reg outcome"

definition kongRootWithTimeout :: "('w, 'v, 'reg) init_deps \<Rightarrow> ('c, 'v) CachedProxyResolver \<Rightarrow> 'w \<Rightarrow>
    (error + (string \<Rightarrow> dyn option)) \<times> 'w" where
  "kongRootWithTimeout deps p w = id_Root deps (proxyRequestTimeout p) w"

text \<open>The database modes \<^verbatim>\<open>initialize\<close> accepts, with the \<^verbatim>\<open>InMemory\<close> flag each sets.\<close>

definition in_memory_of :: "string \<Rightarrow> bool option" where
  "in_memory_of mode =
     (if mode = ''off'' \<or> mode = '''' then Some True
      else if mode = ''postgres'' then Some False
      else None)"

text \<open>When the type assertion on the configuration fails, \<^verbatim>\<open>proxyConfig\<close> is a \<^verbatim>\<open>nil\<close> map, and the error
  reports the type of an absent entry of it. The error for a database mode that is no string prints the
  value itself, with the verb for booleans; of the value, the error keeps the type.\<close>

fun initialize :: "('w, 'v, 'reg) init_deps \<Rightarrow> ('c, 'v) CachedProxyResolver \<Rightarrow> 'w \<times> 'reg \<Rightarrow>
    ((error option \<times> ('c, 'v) CachedProxyResolver) \<times> 'w \<times> 'reg) outcome" where
  "initialize deps p (w, reg) =
     (case kongRootWithTimeout deps p w of
        (Inl err, w') \<Rightarrow> Return ((Some err, p), (w', reg))
      | (Inr rootConf, w') \<Rightarrow>
          (case dyn_index rootConf ''configuration'' of
             DMap proxyConfig \<Rightarrow>
               (case dyn_index proxyConfig ''database'' of
                  DString mode \<Rightarrow>
                    (case in_memory_of mode of
                       None \<Rightarrow>
                         Return ((Some (Errorf ''%s is not a supported database backend'' [mode]), p),
                           (w', reg))
                     | Some inMemory \<Rightarrow>
                         (let p1 = p\<lparr>kongConfig := (kongConfig p)\<lparr>InMemory := inMemory\<rparr>\<rparr>
                          in case id_ParseSemanticVersion deps (id_VersionFromInfo deps rootConf) of
                               Inl err \<Rightarrow> Return ((Some err, p1), (w', reg))
                             | Inr proxySemver \<Rightarrow>
                                 (case NewCtrlFuncMetrics (id_MustRegister deps) reg of
                                    Panic m \<Rightarrow> Panic m
                                  | Return (metrics, reg') \<Rightarrow>
                                      Return ((None,
                                        p1\<lparr>kongConfig := (kongConfig p1)\<lparr>Version := proxySemver\<rparr>,
                                          dbmode := mode, version := proxySemver,
                                          promMetrics := Some metrics\<rparr>), (w', reg')))))
                | other \<Rightarrow>
                    Return ((Some (Errorf ''invalid database developer, expected a string got %t''
                       [dyn_type other]), p), (w', reg)))
           | _ \<Rightarrow>
               Return ((Some (Errorf
                 ''invalid root configuration, expected a map[string]interface{} got %T''
                 [dyn_type DNil]), p), (w', reg))))"

text \<open>The constructor: every field not given has its zero value, \<open>v0\<close> that of \<^verbatim>\<open>semver.Version\<close>.\<close>

definition NewCacheBasedProxyWithStagger ::
  "('w, 'v, 'reg) init_deps \<Rightarrow> 'v \<Rightarrow> 'v Kong \<Rightarrow> string \<Rightarrow> bool \<Rightarrow> int \<Rightarrow> 'c \<Rightarrow> 'w \<times> 'reg \<Rightarrow>
    ((error + ('c, 'v) CachedProxyResolver) \<times> 'w \<times> 'reg) outcome" where
  "NewCacheBasedProxyWithStagger deps v0 kongConfig0 className reverseSync timeout c env =
     (let proxy = \<lparr>configApplied = False, kongConfig = kongConfig0, enableReverseSync = reverseSync,
            dbmode = '''', version = v0, store = c, promMetrics = None,
            controllerClassName = className, proxyRequestTimeout = timeout\<rparr>
      in case initialize deps proxy env of
           Panic m \<Rightarrow> Panic m
         | Return ((Some err, _), env') \<Rightarrow> Return (Inl err, env')
         | Return ((None, proxy'), env') \<Rightarrow> Return (Inr proxy', env'))"

section \<open>Lemmas on Build\<close>

lemma NL_neq [simp]: "NL \<noteq> []" and length_NL [simp]: "length NL = 1"
  by (simp_all add: NL_def)

text \<open>Where a kind's files live in Kong, and what a kind's file holds.\<close>

definition kind_prefix :: "Kind \<Rightarrow> string option" where
  "kind_prefix k =
     (if k = CONTENT then Some ''content/''
      else if k = ASSET then Some ''base/assets/''
      else if k = SPECIFICATION then Some ''specs/''
      else None)"

lemma kind_prefix_simps [simp]:
  "kind_prefix CONTENT = Some ''content/''"
  "kind_prefix ASSET = Some ''base/assets/''"
  "kind_prefix SPECIFICATION = Some ''specs/''"
  by (simp_all add: kind_prefix_def kind_defs)

lemma kind_prefix_Some:
  "kind_prefix k = Some pre \<longleftrightarrow>
    k = CONTENT \<and> pre = ''content/'' \<or> k = ASSET \<and> pre = ''base/assets/'' \<or>
    k = SPECIFICATION \<and> pre = ''specs/''"
  by (auto simp: kind_prefix_def kind_defs)

definition front_matter :: "KongFileSpec \<Rightarrow> string" where
  "front_matter spec =
     ''---'' @ NL @ ''title: '' @ Spec_Title spec @ NL @ ''layout: '' @ Spec_Layout spec @ NL @
     ''---'' @ NL @ Spec_Content spec"

definition file_text :: "KongFileSpec \<Rightarrow> string" where
  "file_text spec = (if Spec_Kind spec = CONTENT then front_matter spec else Spec_Content spec)"

lemma Build_known:
  assumes "kind_prefix (Spec_Kind (kf_Spec f)) = Some pre"
  shows "file_Path (Build f) = Some (pre @ Spec_Path (kf_Spec f) @ ''/'' @ Spec_Name (kf_Spec f))"
    and "file_Contents (Build f) = Some (file_text (kf_Spec f))"
  using assms
  by (auto simp: kind_prefix_Some Build_def file_text_def front_matter_def kind_defs Let_def)

lemma Build_unknown:
  assumes "kind_prefix (Spec_Kind (kf_Spec f)) = None"
  shows "file_Path (Build f) = Some []" and "file_Contents (Build f) = Some []"
  using assms by (auto simp: kind_prefix_def Build_def Let_def split: if_splits)

lemma Build_frame:
  "Checksum (Build f) = None" "ID (Build f) = None" "CreatedAt (Build f) = None"
  by (simp_all add: Build_def Let_def zero_File_def split_def)

text \<open>\<^const>\<open>Build\<close> reads the spec only.\<close>

lemma Build_spec: "kf_Spec f = kf_Spec g \<Longrightarrow> Build f = Build g"
  by (simp add: Build_def)

lemma prefix_starts:
  "\<not> starts_space (CHR ''c'')" "\<not> starts_space (CHR ''b'')" "\<not> starts_space (CHR ''s'')"
  by (simp_all add: starts_space_def space_runes_def)

lemma kind_prefix_not_blank:
  "kind_prefix k = Some pre \<Longrightarrow> \<not> isEmptyString (Some (pre @ s))"
  by (auto simp: kind_prefix_Some isEmptyString_Cons prefix_starts)

lemma Build_path_blank_iff:
  "isEmptyString (file_Path (Build f)) \<longleftrightarrow> kind_prefix (Spec_Kind (kf_Spec f)) = None"
  by (cases "kind_prefix (Spec_Kind (kf_Spec f))")
    (simp_all add: Build_known Build_unknown kind_prefix_not_blank)

text \<open>No two kinds share a directory.\<close>

lemma kind_prefix_disjoint:
  assumes "kind_prefix k = Some pre" and "kind_prefix k' = Some pre'" and "pre @ s = pre' @ s'"
  shows "k = k' \<and> s = s'"
  using assms by (auto simp: kind_prefix_Some)

section \<open>The interface Proxy\<close>

text \<open>
  What the reconciler relies on: \<open>cached\<close> reads an implementation's cache as a map from keys to
  objects. An update caches the object it is given and a deletion drops it, whatever Kong answers;
  a lookup and an existence check leave the cache alone; an existence check that succeeds says
  \<^const>\<open>True\<close>.
\<close>

locale proxy_contract =
  fixes P :: "'p Proxy"
    and cached :: "'p \<Rightarrow> string \<Rightarrow> Object option"
  assumes exists_in_cache: "pr_ObjectExistsInCache P h (Some (KongFileObj r)) p =
      (cached p (object_key h r), cached p (object_key h r) \<noteq> None, None)"
    and update_caches: "\<exists>e p'. pr_UpdateObject P h (Some (KongFileObj r)) p = Return (e, p') \<and>
      cached p' = (cached p)(object_key h r \<mapsto> KongFileObj r)"
    and delete_uncaches: "\<exists>e p'. pr_DeleteObject P h (Some (KongFileObj r)) p = Return (e, p') \<and>
      cached p' = (cached p)(object_key h r := None)"
    and exists_keeps_cache: "\<exists>b e p'. pr_ObjectExists P h (Some (KongFileObj r)) p =
      Return ((b, e), p') \<and> cached p' = cached p \<and> (e = None \<longrightarrow> b)"
begin

lemma update_cached:
  "pr_UpdateObject P h (Some (KongFileObj r)) p = Return (e, p') \<Longrightarrow>
    cached p' = (cached p)(object_key h r \<mapsto> KongFileObj r)"
  using update_caches [of h r p] by auto

lemma delete_cached:
  "pr_DeleteObject P h (Some (KongFileObj r)) p = Return (e, p') \<Longrightarrow>
    cached p' = (cached p)(object_key h r := None)"
  using delete_uncaches [of h r p] by auto

lemma exists_cached:
  "pr_ObjectExists P h (Some (KongFileObj r)) p = Return ((b, e), p') \<Longrightarrow>
    cached p' = cached p \<and> (e = None \<longrightarrow> b)"
  using exists_keeps_cache [of h r p] by auto

lemma found_after_update:
  assumes "pr_UpdateObject P h (Some (KongFileObj r)) p = Return (e, p')"
    and "object_key h' q = object_key h r"
  shows "pr_ObjectExistsInCache P h' (Some (KongFileObj q)) p' = (Some (KongFileObj r), True, None)"
  using update_cached [OF assms(1)] assms(2) by (simp add: exists_in_cache)

lemma gone_after_delete:
  assumes "pr_DeleteObject P h (Some (KongFileObj r)) p = Return (e, p')"
    and "object_key h' q = object_key h r"
  shows "pr_ObjectExistsInCache P h' (Some (KongFileObj q)) p' = (None, False, None)"
  using delete_cached [OF assms(1)] assms(2) by (simp add: exists_in_cache)

end

section \<open>The resolver implements the interface\<close>

lemmas resolver_defs = resolver_Proxy_def

lemma ObjectExists_file:
  "\<exists>b e w'. ObjectExists kc h (Some (KongFileObj r)) (p, w) = Return ((b, e), (p, w')) \<and>
    (e = None \<longleftrightarrow> b)"
  using FileService_Get_file_or_error [of kc "Build (at_ref h r)" w]
  by (cases "FileService_Get kc (Build (at_ref h r)) w") auto

locale resolver = cache_store S contents
  for S :: "'c cache_Store" and contents :: "'c \<Rightarrow> string \<Rightarrow> Object option" +
  fixes kc :: "('w, 'r) kong_Client"
begin

abbreviation cached_in :: "('c, 'v, 'w) resolver_state \<Rightarrow> string \<Rightarrow> Object option" where
  "cached_in st \<equiv> contents (store (fst st))"

lemma UpdateObject_file:
  obtains c' where "contents c' = (contents (store p))(object_key h r \<mapsto> KongFileObj r)"
    and "UpdateObject S kc h (Some (KongFileObj r)) (p, w) =
      Return (snd (fst (FileService_Update kc (Build (at_ref h r)) w)),
        (p\<lparr>store := c'\<rparr>, snd (FileService_Update kc (Build (at_ref h r)) w)))"
  using update_file [of h r "store p"] by (auto split: prod.splits)

lemma DeleteObject_file:
  obtains c' where "contents c' = (contents (store p))(object_key h r := None)"
    and "DeleteObject S kc h (Some (KongFileObj r)) (p, w) =
      Return (snd (fst (FileService_Delete kc (Build (at_ref h r)) w)),
        (p\<lparr>store := c'\<rparr>, snd (FileService_Delete kc (Build (at_ref h r)) w)))"
  using delete_file [of h r "store p"] by (auto split: prod.splits)

lemma ObjectExistsInCache_file:
  "ObjectExistsInCache S h (Some (KongFileObj r)) (p, w) =
    (contents (store p) (object_key h r), contents (store p) (object_key h r) \<noteq> None, None)"
  by (simp add: get_file)

end

sublocale resolver \<subseteq> proxy_contract "resolver_Proxy S kc" cached_in
proof
  fix h r and st :: "('c, 'v, 'w) resolver_state"
  obtain p w where st: "st = (p, w)" by (cases st)
  show "pr_ObjectExistsInCache (resolver_Proxy S kc) h (Some (KongFileObj r)) st =
      (cached_in st (object_key h r), cached_in st (object_key h r) \<noteq> None, None)"
    by (simp add: st resolver_Proxy_def ObjectExistsInCache_file del: ObjectExistsInCache.simps)
  show "\<exists>e st'. pr_UpdateObject (resolver_Proxy S kc) h (Some (KongFileObj r)) st = Return (e, st') \<and>
      cached_in st' = (cached_in st)(object_key h r \<mapsto> KongFileObj r)"
    by (rule UpdateObject_file [of p h r w]) (auto simp: st resolver_Proxy_def simp del: UpdateObject.simps)
  show "\<exists>e st'. pr_DeleteObject (resolver_Proxy S kc) h (Some (KongFileObj r)) st = Return (e, st') \<and>
      cached_in st' = (cached_in st)(object_key h r := None)"
    by (rule DeleteObject_file [of p h r w]) (auto simp: st resolver_Proxy_def simp del: DeleteObject.simps)
  show "\<exists>b e st'. pr_ObjectExists (resolver_Proxy S kc) h (Some (KongFileObj r)) st =
      Return ((b, e), st') \<and> cached_in st' = cached_in st \<and> (e = None \<longrightarrow> b)"
    using ObjectExists_file [of kc h r p w] by (auto simp: st resolver_Proxy_def)
qed

interpretation table_resolver: resolver table_store DAList.lookup mem_client
  by unfold_locales

end
