(* ===== verification/KongFile_Reconciler.thy ===== *)
theory KongFile_Reconciler
  imports Proxy_Resolver
begin

text \<open>
  The reconciliation loop, \<^verbatim>\<open>internal/controllers/developer/kongfile_controller.go\<close>.

  The reconciler is modelled over any value of the interface \<^verbatim>\<open>Proxy\<close> (the argument \<open>P\<close>), as the code
  has it; its lemmas rest on \<open>proxy_contract\<close>. controller-runtime's client is the parameter \<open>K\<close>: a read
  of a resource into an object, the classification of errors, and the status update, which decodes
  the server's answer into the object. Logging is left out.

  The state of a call is the heap, the proxy's state and the API server's; every branch of
  \<^verbatim>\<open>Reconcile\<close> returns a result, an error and the new state. controller-runtime runs one
  \<^verbatim>\<open>Reconcile\<close> of this controller at a time (\<^verbatim>\<open>MaxConcurrentReconciles\<close> is left at 1), so the system is
  the interleaving of whole calls with moves of the API server and of Kong.
\<close>

section \<open>controller-runtime\<close>

record NamespacedName =
  nn_Namespace :: string
  nn_Name :: string

record Result =
  Requeue :: bool

text \<open>\<^verbatim>\<open>Get\<close> fills the object it is given: the last component is what the object holds afterwards.\<close>

record 'k k8s_Client =
  k_Get :: "NamespacedName \<Rightarrow> KongFile \<Rightarrow> 'k \<Rightarrow> error option \<times> KongFile"
  k_IsNotFound :: "error \<Rightarrow> bool"
  k_StatusUpdate :: "KongFile \<Rightarrow> 'k \<Rightarrow> (error option \<times> KongFile) \<times> 'k"

record ('p, 'k) world =
  objects :: heap
  prox :: 'p
  kube :: 'k

section \<open>EnsureProxyDeleteObject\<close>

definition EnsureProxyDeleteObject :: "'p Proxy \<Rightarrow> heap \<Rightarrow> Object option \<Rightarrow> 'p \<Rightarrow>
    ((Result \<times> bool \<times> error option) \<times> 'p) outcome" where
  "EnsureProxyDeleteObject P h obj p =
     (case pr_ObjectExistsInCache P h obj p of
        (cached, objectExistsInCache, err) \<Rightarrow>
          (if err \<noteq> None then Return ((\<lparr>Requeue = False\<rparr>, False, err), p)
           else if objectExistsInCache then
             (case pr_DeleteObject P h cached p of
                Panic m \<Rightarrow> Panic m
              | Return (Some e, p') \<Rightarrow> Return ((\<lparr>Requeue = False\<rparr>, True, Some e), p')
              | Return (None, p') \<Rightarrow> Return ((\<lparr>Requeue = True\<rparr>, True, None), p'))
           else Return ((\<lparr>Requeue = False\<rparr>, False, None), p)))"

section \<open>Reconcile\<close>

definition set_identity :: "NamespacedName \<Rightarrow> KongFile \<Rightarrow> KongFile" where
  "set_identity req f =
     f\<lparr>kf_Meta := (kf_Meta f)\<lparr>om_Namespace := nn_Namespace req, om_Name := nn_Name req\<rparr>\<rparr>"

definition set_validated :: "KongFile \<Rightarrow> KongFile" where
  "set_validated f = f\<lparr>kf_Status := (kf_Status f)\<lparr>Validated := True\<rparr>\<rparr>"

text \<open>\<open>now\<close> is what \<^verbatim>\<open>time.Now()\<close> gives in this call. The branch for a deletion timestamp in the past
  reads the timestamp through its pointer, which is not \<^verbatim>\<open>nil\<close> there.\<close>

definition Reconcile :: "'p Proxy \<Rightarrow> 'k k8s_Client \<Rightarrow> string \<Rightarrow> time \<Rightarrow> NamespacedName \<Rightarrow>
    ('p, 'k) world \<Rightarrow> ((Result \<times> error option) \<times> ('p, 'k) world) outcome" where
  "Reconcile P K className now req s =
     (let (obj, h1) = new_KongFile (objects s);
          (err, v) = k_Get K req (at_ref h1 obj) (kube s);
          h2 = write_ref obj v h1
      in
      if err \<noteq> None then
        (if k_IsNotFound K (the err) then
           (let h3 = write_ref obj (set_identity req (at_ref h2 obj)) h2
            in case EnsureProxyDeleteObject P h3 (Some (KongFileObj obj)) (prox s) of
                 Panic m \<Rightarrow> Panic m
               | Return ((result, _, e), p) \<Rightarrow>
                   Return ((result, e), s\<lparr>objects := h3, prox := p\<rparr>))
         else Return ((\<lparr>Requeue = False\<rparr>, err), s\<lparr>objects := h2\<rparr>))
      else if \<not> time_IsZero (om_DeletionTimestamp (kf_Meta (at_ref h2 obj))) \<and>
          the (om_DeletionTimestamp (kf_Meta (at_ref h2 obj))) < now then
        (case pr_ObjectExists P h2 (Some (KongFileObj obj)) (prox s) of
           Panic m \<Rightarrow> Panic m
         | Return ((objectExistsInCache, e), p) \<Rightarrow>
             (if e \<noteq> None then Return ((\<lparr>Requeue = False\<rparr>, e), s\<lparr>objects := h2, prox := p\<rparr>)
              else if objectExistsInCache then
                (case pr_DeleteObject P h2 (Some (KongFileObj obj)) p of
                   Panic m \<Rightarrow> Panic m
                 | Return (Some e', p') \<Rightarrow>
                     Return ((\<lparr>Requeue = False\<rparr>, Some e'), s\<lparr>objects := h2, prox := p'\<rparr>)
                 | Return (None, p') \<Rightarrow>
                     Return ((\<lparr>Requeue = True\<rparr>, None), s\<lparr>objects := h2, prox := p'\<rparr>))
              else Return ((\<lparr>Requeue = False\<rparr>, None), s\<lparr>objects := h2, prox := p\<rparr>)))
      else if \<not> MatchesControllerClassName (kf_Meta (at_ref h2 obj)) className then
        Return ((\<lparr>Requeue = False\<rparr>, None), s\<lparr>objects := h2\<rparr>)
      else if Validated (kf_Status (at_ref h2 obj)) = False then
        (case pr_UpdateObject P h2 (Some (KongFileObj obj)) (prox s) of
           Panic m \<Rightarrow> Panic m
         | Return (Some e, p) \<Rightarrow> Return ((\<lparr>Requeue = False\<rparr>, Some e), s\<lparr>objects := h2, prox := p\<rparr>)
         | Return (None, p) \<Rightarrow>
             (let h3 = write_ref obj (set_validated (at_ref h2 obj)) h2;
                  ((e, v'), k') = k_StatusUpdate K (at_ref h3 obj) (kube s);
                  h4 = write_ref obj v' h3
              in Return ((\<lparr>Requeue = False\<rparr>, e), s\<lparr>objects := h4, prox := p, kube := k'\<rparr>)))
      else Return ((\<lparr>Requeue = False\<rparr>, None), s\<lparr>objects := h2\<rparr>))"

text \<open>\<^verbatim>\<open>SetupWithManager\<close>: the event filter for annotations only, given to the builder. \<open>build\<close> is
  controller-runtime's \<^verbatim>\<open>NewControllerManagedBy(mgr).For(..., WithPredicates(preds)).Complete(r)\<close>.\<close>

definition SetupWithManager :: "((ObjectMeta \<Rightarrow> bool) \<Rightarrow> Funcs) \<Rightarrow> (Funcs \<Rightarrow> 'w \<Rightarrow> error option \<times> 'w) \<Rightarrow>
    string \<Rightarrow> 'w \<Rightarrow> error option \<times> 'w" where
  "SetupWithManager newPredicateFuncs build className w =
     (let preds = GeneratePredicateFuncsForControllerClassFilter newPredicateFuncs className False True
      in build preds w)"

section \<open>The branches of Reconcile\<close>

text \<open>What the read of the resource gives: its error, the object's value, and the heap with it.\<close>

definition fetch_error :: "'k k8s_Client \<Rightarrow> NamespacedName \<Rightarrow> ('p, 'k) world \<Rightarrow> error option" where
  "fetch_error K req s = fst (k_Get K req zero_KongFile (kube s))"

definition fetched :: "'k k8s_Client \<Rightarrow> NamespacedName \<Rightarrow> ('p, 'k) world \<Rightarrow> KongFile" where
  "fetched K req s = snd (k_Get K req zero_KongFile (kube s))"

definition new_ref :: "('p, 'k) world \<Rightarrow> ref" where
  "new_ref s = next_ref (objects s)"

definition put_new :: "('p, 'k) world \<Rightarrow> KongFile \<Rightarrow> heap" where
  "put_new s v = write_ref (new_ref s) v (snd (new_KongFile (objects s)))"

definition terminating :: "time \<Rightarrow> KongFile \<Rightarrow> bool" where
  "terminating now f \<longleftrightarrow>
     \<not> time_IsZero (om_DeletionTimestamp (kf_Meta f)) \<and> the (om_DeletionTimestamp (kf_Meta f)) < now"

definition ours :: "string \<Rightarrow> KongFile \<Rightarrow> bool" where
  "ours className f \<longleftrightarrow> MatchesControllerClassName (kf_Meta f) className"

definition validated :: "KongFile \<Rightarrow> bool" where
  "validated f \<longleftrightarrow> Validated (kf_Status f)"

lemma at_put_new [simp]: "at_ref (put_new s v) q = (if q = new_ref s then v else at_ref (objects s) q)"
  by (simp add: put_new_def new_ref_def)

lemma next_put_new [simp]: "next_ref (put_new s v) = Suc (new_ref s)"
  by (simp add: put_new_def new_ref_def)

lemma write_put_new [simp]: "write_ref (new_ref s) v (put_new s u) = put_new s v"
  by (simp add: put_new_def)

lemma new_ref_updates [simp]:
  "new_ref (s\<lparr>objects := h\<rparr>) = next_ref h"
  "new_ref (s\<lparr>prox := p\<rparr>) = new_ref s"
  "new_ref (s\<lparr>kube := k\<rparr>) = new_ref s"
  by (simp_all add: new_ref_def)

lemma get_pair: "k_Get K req zero_KongFile (kube s) = (fetch_error K req s, fetched K req s)"
  by (simp add: fetch_error_def fetched_def)

lemma put_new_fold: "write_ref (new_ref s) v (snd (new_KongFile (objects s))) = put_new s v"
  by (simp add: put_new_def)

lemmas reconcile_folds =
  get_pair put_new_fold new_ref_def [symmetric] terminating_def ours_def validated_def

text \<open>One equation per branch.\<close>

lemma Reconcile_unreadable:
  assumes "fetch_error K req s = Some err" and "\<not> k_IsNotFound K err"
  shows "Reconcile P K className now req s =
    Return ((\<lparr>Requeue = False\<rparr>, Some err), s\<lparr>objects := put_new s (fetched K req s)\<rparr>)"
  using assms by (simp add: Reconcile_def Let_def split_def reconcile_folds)

lemma Reconcile_missing:
  assumes "fetch_error K req s = Some err" and "k_IsNotFound K err"
  shows "Reconcile P K className now req s =
    (let h = put_new s (set_identity req (fetched K req s))
     in map_outcome_val (\<lambda>((result, _, e), p). ((result, e), s\<lparr>objects := h, prox := p\<rparr>))
          (EnsureProxyDeleteObject P h (Some (KongFileObj (new_ref s))) (prox s)))"
  using assms by (simp add: Reconcile_def Let_def split_def reconcile_folds split: outcome.split)

lemma Reconcile_terminating:
  assumes "fetch_error K req s = None" and "terminating now (fetched K req s)"
  shows "Reconcile P K className now req s =
    (let h = put_new s (fetched K req s); obj = Some (KongFileObj (new_ref s)) in
     case pr_ObjectExists P h obj (prox s) of
       Panic m \<Rightarrow> Panic m
     | Return ((present, e), p) \<Rightarrow>
         (if e \<noteq> None \<or> \<not> present then
            Return ((\<lparr>Requeue = False\<rparr>, e), s\<lparr>objects := h, prox := p\<rparr>)
          else map_outcome_val
            (\<lambda>(e', p'). ((\<lparr>Requeue = (e' = None)\<rparr>, e'), s\<lparr>objects := h, prox := p'\<rparr>))
            (pr_DeleteObject P h obj p)))"
  using assms
  by (auto simp: Reconcile_def Let_def split_def reconcile_folds split: outcome.split option.split)

lemma Reconcile_settled:
  assumes "fetch_error K req s = None" and "\<not> terminating now (fetched K req s)"
    and "\<not> ours className (fetched K req s) \<or> validated (fetched K req s)"
  shows "Reconcile P K className now req s =
    Return ((\<lparr>Requeue = False\<rparr>, None), s\<lparr>objects := put_new s (fetched K req s)\<rparr>)"
  using assms by (auto simp: Reconcile_def Let_def split_def reconcile_folds)

lemma Reconcile_pending:
  assumes "fetch_error K req s = None" and "\<not> terminating now (fetched K req s)"
    and "ours className (fetched K req s)" and "\<not> validated (fetched K req s)"
  shows "Reconcile P K className now req s =
    (case pr_UpdateObject P (put_new s (fetched K req s)) (Some (KongFileObj (new_ref s))) (prox s) of
       Panic m \<Rightarrow> Panic m
     | Return (Some e, p) \<Rightarrow>
         Return ((\<lparr>Requeue = False\<rparr>, Some e), s\<lparr>objects := put_new s (fetched K req s), prox := p\<rparr>)
     | Return (None, p) \<Rightarrow>
         (let ((e, v), k) = k_StatusUpdate K (set_validated (fetched K req s)) (kube s)
          in Return ((\<lparr>Requeue = False\<rparr>, e), s\<lparr>objects := put_new s v, prox := p, kube := k\<rparr>)))"
  using assms
  by (auto simp: Reconcile_def Let_def split_def reconcile_folds split: outcome.split option.split)

section \<open>The cache and the heap agree\<close>

definition name_of :: "KongFile \<Rightarrow> NamespacedName" where
  "name_of f = \<lparr>nn_Namespace = om_Namespace (kf_Meta f), nn_Name = om_Name (kf_Meta f)\<rparr>"

definition key_of :: "NamespacedName \<Rightarrow> string" where
  "key_of req = nn_Namespace req @ ''/'' @ nn_Name req"

lemma object_key_name: "object_key h r = key_of (name_of (at_ref h r))"
  by (simp add: object_key_def key_of_def name_of_def)

lemma name_of_set_identity [simp]: "name_of (set_identity req f) = req"
  by (simp add: name_of_def set_identity_def)

lemma name_of_set_validated [simp]: "name_of (set_validated f) = name_of f"
  by (simp add: name_of_def set_validated_def)

lemma object_key_put_new:
  "object_key (put_new s v) q = (if q = new_ref s then key_of (name_of v) else object_key (objects s) q)"
  by (simp add: object_key_name)

text \<open>Every cached object is a \<^verbatim>\<open>KongFile\<close> that was allocated, filed under the key it has now.\<close>

definition cache_wf :: "('p \<Rightarrow> string \<Rightarrow> Object option) \<Rightarrow> ('p, 'k) world \<Rightarrow> bool" where
  "cache_wf cached s \<longleftrightarrow>
     (\<forall>k ob. cached (prox s) k = Some ob \<longrightarrow>
       (\<exists>r < new_ref s. ob = KongFileObj r \<and> object_key (objects s) r = k))"

lemma cache_wf_kube [simp]: "cache_wf cached (s\<lparr>kube := k\<rparr>) = cache_wf cached s"
  by (simp add: cache_wf_def)

lemma cache_wfE:
  assumes "cache_wf cached s" and "cached (prox s) k = Some ob"
  obtains r where "r < new_ref s" and "ob = KongFileObj r" and "object_key (objects s) r = k"
  using assms by (auto simp: cache_wf_def)

text \<open>A call allocates one object and changes the cache, if at all, for that object.\<close>

lemma cache_wf_put_new:
  assumes wf: "cache_wf cached s"
    and sub: "\<And>k ob. cached p k = Some ob \<Longrightarrow>
      cached (prox s) k = Some ob \<or> ob = KongFileObj (new_ref s) \<and> k = key_of (name_of v)"
  shows "cache_wf cached (s\<lparr>objects := put_new s v, prox := p\<rparr>)"
  unfolding cache_wf_def
proof (intro allI impI)
  fix k ob
  assume "cached (prox (s\<lparr>objects := put_new s v, prox := p\<rparr>)) k = Some ob"
  then have "cached p k = Some ob" by simp
  from sub [OF this] show "\<exists>r < new_ref (s\<lparr>objects := put_new s v, prox := p\<rparr>). ob = KongFileObj r \<and>
      object_key (objects (s\<lparr>objects := put_new s v, prox := p\<rparr>)) r = k"
  proof
    assume "cached (prox s) k = Some ob"
    with wf obtain r where "r < new_ref s" "ob = KongFileObj r" "object_key (objects s) r = k"
      by (rule cache_wfE)
    then show ?thesis
      by (intro exI [of _ r]) (simp add: object_key_put_new)
  next
    assume "ob = KongFileObj (new_ref s) \<and> k = key_of (name_of v)"
    then show ?thesis
      by (intro exI [of _ "new_ref s"]) (simp add: object_key_put_new)
  qed
qed

lemma cache_wf_same_cache:
  assumes "cache_wf cached s" and "cached p = cached (prox s)"
  shows "cache_wf cached (s\<lparr>objects := put_new s v, prox := p\<rparr>)"
  using assms by (intro cache_wf_put_new) auto

lemma cache_wf_objects:
  assumes "cache_wf cached s"
  shows "cache_wf cached (s\<lparr>objects := put_new s v\<rparr>)"
  using cache_wf_same_cache [OF assms, of "prox s" v] by simp

section \<open>The reconciler against the interfaces\<close>

text \<open>What the reconciler relies on of the Kubernetes client: a read gives the resource asked for, and a
  status update leaves the object with its name.\<close>

locale kube_client =
  fixes K :: "'k k8s_Client"
  assumes get_identity: "k_Get K req z k = (None, v) \<Longrightarrow> name_of v = req"
    and status_identity: "k_StatusUpdate K v k = ((e, v'), k') \<Longrightarrow> name_of v' = name_of v"
begin

lemma fetched_name: "fetch_error K req s = None \<Longrightarrow> name_of (fetched K req s) = req"
  by (rule get_identity [of _ zero_KongFile "kube s"]) (simp add: fetch_error_def fetched_def prod_eq_iff)

end

context proxy_contract
begin

lemma Ensure_absent:
  assumes "cached p (object_key h r) = None"
  shows "EnsureProxyDeleteObject P h (Some (KongFileObj r)) p =
    Return ((\<lparr>Requeue = False\<rparr>, False, None), p)"
  using assms by (simp add: EnsureProxyDeleteObject_def exists_in_cache)

lemma Ensure_present:
  assumes "cached p (object_key h r) = Some (KongFileObj q)"
  shows "EnsureProxyDeleteObject P h (Some (KongFileObj r)) p =
    map_outcome_val (\<lambda>(e, p'). ((\<lparr>Requeue = (e = None)\<rparr>, True, e), p'))
      (pr_DeleteObject P h (Some (KongFileObj q)) p)"
  using assms
  by (simp add: EnsureProxyDeleteObject_def exists_in_cache split: outcome.split prod.split option.split)

end

locale reconciler = proxy_contract P cached + kube_client K
  for P :: "'p Proxy" and cached :: "'p \<Rightarrow> string \<Rightarrow> Object option" and K :: "'k k8s_Client"
begin

text \<open>A missing resource: what is cached under its key is deleted, through the cached object.\<close>

lemma Reconcile_missing_uncached:
  assumes "fetch_error K req s = Some err" and "k_IsNotFound K err"
    and "cached (prox s) (key_of req) = None"
  shows "Reconcile P K className now req s =
    Return ((\<lparr>Requeue = False\<rparr>, None), s\<lparr>objects := put_new s (set_identity req (fetched K req s))\<rparr>)"
  using Reconcile_missing [OF assms(1,2), of P className now] assms(3)
  by (simp add: Let_def Ensure_absent object_key_put_new)

lemma Reconcile_missing_cached:
  assumes "fetch_error K req s = Some err" and "k_IsNotFound K err"
    and "cached (prox s) (key_of req) = Some (KongFileObj q)"
  shows "Reconcile P K className now req s =
    (let h = put_new s (set_identity req (fetched K req s))
     in map_outcome_val (\<lambda>(e, p). ((\<lparr>Requeue = (e = None)\<rparr>, e), s\<lparr>objects := h, prox := p\<rparr>))
          (pr_DeleteObject P h (Some (KongFileObj q)) (prox s)))"
  using Reconcile_missing [OF assms(1,2), of P className now] assms(3)
  by (cases "pr_DeleteObject P (put_new s (set_identity req (fetched K req s)))
        (Some (KongFileObj q)) (prox s)")
    (auto simp: Let_def Ensure_present object_key_put_new)

text \<open>The deletion of a cached object: it goes from the cache, and the answer of Kong is passed on.\<close>

lemma delete_cached_object:
  assumes "cache_wf cached s" and "cached (prox s) k = Some (KongFileObj q)"
  obtains e p where "pr_DeleteObject P (put_new s v) (Some (KongFileObj q)) (prox s) = Return (e, p)"
    and "cached p = (cached (prox s))(k := None)"
proof -
  from assms obtain r where "r < new_ref s" "KongFileObj q = KongFileObj r" "object_key (objects s) r = k"
    by (rule cache_wfE)
  then have "object_key (put_new s v) q = k" by (simp add: object_key_put_new)
  then show ?thesis
    using delete_uncaches [of "put_new s v" q "prox s"] that by auto
qed

text \<open>Reconciling never panics and keeps the cache in agreement with the heap.\<close>

lemma Reconcile_missing_wf:
  assumes wf: "cache_wf cached s" and "fetch_error K req s = Some err" and "k_IsNotFound K err"
  shows "\<exists>out t. Reconcile P K className now req s = Return (out, t) \<and> cache_wf cached t"
proof (cases "cached (prox s) (key_of req)")
  case None
  then show ?thesis
    using Reconcile_missing_uncached [OF assms(2,3)] cache_wf_objects [OF wf] by simp
next
  case (Some ob)
  with wf obtain q where q: "cached (prox s) (key_of req) = Some (KongFileObj q)"
    by (metis cache_wfE)
  let ?v = "set_identity req (fetched K req s)"
  obtain e p where p: "pr_DeleteObject P (put_new s ?v) (Some (KongFileObj q)) (prox s) = Return (e, p)"
    "cached p = (cached (prox s))(key_of req := None)"
    by (rule delete_cached_object [OF wf q])
  have "cache_wf cached (s\<lparr>objects := put_new s ?v, prox := p\<rparr>)"
    by (rule cache_wf_put_new [OF wf]) (auto simp: p(2) split: if_splits)
  then show ?thesis
    using Reconcile_missing_cached [OF assms(2,3) q] p(1) by (simp add: Let_def)
qed

lemma Reconcile_terminating_wf:
  assumes wf: "cache_wf cached s" and "fetch_error K req s = None" and "terminating now (fetched K req s)"
  shows "\<exists>out t. Reconcile P K className now req s = Return (out, t) \<and> cache_wf cached t"
proof -
  let ?f = "fetched K req s" and ?obj = "Some (KongFileObj (new_ref s))"
  obtain b e p where ex: "pr_ObjectExists P (put_new s ?f) ?obj (prox s) = Return ((b, e), p)"
    "cached p = cached (prox s)"
    using exists_keeps_cache [of "put_new s ?f" "new_ref s" "prox s"] by auto
  obtain e' p' where del: "pr_DeleteObject P (put_new s ?f) ?obj p = Return (e', p')"
    "cached p' = (cached p)(object_key (put_new s ?f) (new_ref s) := None)"
    using delete_uncaches [of "put_new s ?f" "new_ref s" p] by auto
  have "cache_wf cached (s\<lparr>objects := put_new s ?f, prox := p\<rparr>)"
    by (rule cache_wf_same_cache [OF wf ex(2)])
  moreover have "cache_wf cached (s\<lparr>objects := put_new s ?f, prox := p'\<rparr>)"
    by (rule cache_wf_put_new [OF wf]) (auto simp: del(2) ex(2) split: if_splits)
  ultimately show ?thesis
    using Reconcile_terminating [OF assms(2,3), of P className] ex(1) del(1) by (simp add: Let_def)
qed

lemma Reconcile_pending_wf:
  assumes wf: "cache_wf cached s" and "fetch_error K req s = None"
    and "\<not> terminating now (fetched K req s)" and "ours className (fetched K req s)"
    and "\<not> validated (fetched K req s)"
  shows "\<exists>out t. Reconcile P K className now req s = Return (out, t) \<and> cache_wf cached t"
proof -
  let ?f = "fetched K req s"
  obtain e p where up: "pr_UpdateObject P (put_new s ?f) (Some (KongFileObj (new_ref s))) (prox s) = Return (e, p)"
    "cached p = (cached (prox s))(object_key (put_new s ?f) (new_ref s) \<mapsto> KongFileObj (new_ref s))"
    using update_caches [of "put_new s ?f" "new_ref s" "prox s"] by auto
  obtain e' v k where st: "k_StatusUpdate K (set_validated ?f) (kube s) = ((e', v), k)"
    by (metis prod.exhaust)
  have wf': "cache_wf cached (s\<lparr>objects := put_new s u, prox := p\<rparr>)" if "name_of u = name_of ?f" for u
    by (rule cache_wf_put_new [OF wf]) (auto simp: up(2) object_key_put_new that split: if_splits)
  have "name_of v = name_of ?f"
    using status_identity [OF st] by simp
  then have "cache_wf cached (s\<lparr>objects := put_new s v, prox := p\<rparr>\<lparr>kube := k\<rparr>)"
    unfolding cache_wf_kube by (rule wf')
  then show ?thesis
    using Reconcile_pending [OF assms(2-5), of P] up(1) st wf' [of ?f]
    by (cases e) simp_all
qed

lemma Reconcile_wf:
  assumes "cache_wf cached s"
  shows "\<exists>out t. Reconcile P K className now req s = Return (out, t) \<and> cache_wf cached t"
proof (cases "fetch_error K req s")
  case (Some err)
  then show ?thesis
    using assms Reconcile_missing_wf Reconcile_unreadable [OF Some] cache_wf_objects [OF assms]
    by (cases "k_IsNotFound K err") simp_all
next
  case None
  show ?thesis
    using Reconcile_terminating_wf [OF assms None] Reconcile_pending_wf [OF assms None]
      Reconcile_settled [OF None, of now className P] cache_wf_objects [OF assms]
    by blast
qed

end

end
