(* ===== verification/Controller_System.thy ===== *)
theory Controller_System
  imports KongFile_Reconciler
begin

text \<open>
  The controller as a system: the reconciler on the cached resolver, the Kubernetes API server and
  Kong, and the transitions between its states.

  The abstract specification of the controller is a \<open>portal\<close>: the files it keeps track of, by
  object key, and the files Kong publishes, by path. \<open>portal_sync\<close> says what one call of the
  reconciler is for; the simulation lemma shows that every error-free call does just that. The
  theory then states the properties of the whole: the invariant of the reachable states, what
  becomes of a failed push and of a failed deletion, and readiness.
\<close>

section \<open>The Kubernetes API\<close>

text \<open>\<open>resources\<close> reads the stored \<^verbatim>\<open>KongFile\<close>s. A successful read gives the stored resource, a not-found
  error means there is none; a successful status update stores the status, touches nothing else, and
  answers with the stored resource; a refused one leaves the object as it was.\<close>

lemma set_validated_status: "f\<lparr>kf_Status := kf_Status (set_validated f)\<rparr> = set_validated f"
  by (simp add: set_validated_def)

locale kube_api = kube_client K
  for K :: "'k k8s_Client" +
  fixes resources :: "'k \<Rightarrow> NamespacedName \<Rightarrow> KongFile option"
  assumes get_resource: "k_Get K req z k = (None, v) \<Longrightarrow> resources k req = Some v"
    and get_missing: "k_Get K req z k = (Some e, v) \<Longrightarrow> k_IsNotFound K e \<Longrightarrow> resources k req = None"
    and status_stored: "k_StatusUpdate K v k = ((None, v'), k') \<Longrightarrow> resources k (name_of v) = Some f \<Longrightarrow>
      v' = f\<lparr>kf_Status := kf_Status v\<rparr> \<and> resources k' = (resources k)(name_of v \<mapsto> v')"
    and status_refused: "k_StatusUpdate K v k = ((Some e, v'), k') \<Longrightarrow> v' = v"
begin

lemma fetched_resource:
  "fetch_error K req s = None \<Longrightarrow> resources (kube s) req = Some (fetched K req s)"
  by (rule get_resource [of _ zero_KongFile]) (simp add: fetch_error_def fetched_def prod_eq_iff)

lemma fetched_missing:
  "fetch_error K req s = Some e \<Longrightarrow> k_IsNotFound K e \<Longrightarrow> resources (kube s) req = None"
  by (rule get_missing [of _ zero_KongFile]) (auto simp: fetch_error_def fetched_def prod_eq_iff)

text \<open>A status update of the object just read stores the resource with its new status.\<close>

lemma status_of_fetched:
  assumes "fetch_error K req s = None"
    and "k_StatusUpdate K (set_validated (fetched K req s)) (kube s) = ((None, v), k)"
  shows "v = set_validated (fetched K req s)" and "resources k = (resources (kube s))(req \<mapsto> v)"
  using status_stored [OF assms(2), of "fetched K req s"] fetched_resource [OF assms(1)]
    fetched_name [OF assms(1)]
  by (simp_all add: set_validated_status)

end

section \<open>The abstract portal\<close>

record portal =
  tracked :: "string \<Rightarrow> File option"
  published :: "string \<Rightarrow> string option"

definition publish :: "File \<Rightarrow> (string \<rightharpoonup> string) \<Rightarrow> (string \<rightharpoonup> string)" where
  "publish f m = (case file_Path f of None \<Rightarrow> m | Some p \<Rightarrow> m(p := file_Contents f))"

definition unpublish :: "File \<Rightarrow> (string \<rightharpoonup> string) \<Rightarrow> (string \<rightharpoonup> string)" where
  "unpublish f m = (case file_Path f of None \<Rightarrow> m | Some p \<Rightarrow> m(p := None))"

text \<open>The purpose of one call for the resource \<open>req\<close>, given what the API server holds for it.\<close>

definition portal_sync :: "string \<Rightarrow> time \<Rightarrow> NamespacedName \<Rightarrow> KongFile option \<Rightarrow> portal \<Rightarrow> portal" where
  "portal_sync className now req resource a =
     (case resource of
        None \<Rightarrow>
          (case tracked a (key_of req) of
             None \<Rightarrow> a
           | Some f \<Rightarrow> \<lparr>tracked = (tracked a)(key_of req := None), published = unpublish f (published a)\<rparr>)
      | Some f \<Rightarrow>
          (if terminating now f then
             \<lparr>tracked = (tracked a)(key_of req := None), published = unpublish (Build f) (published a)\<rparr>
           else if ours className f \<and> \<not> validated f then
             \<lparr>tracked = (tracked a)(key_of req \<mapsto> Build f), published = publish (Build f) (published a)\<rparr>
           else a))"

text \<open>The files a call may send, whose paths must be plain for the contract of the Admin API to apply.\<close>

definition plain_file :: "File \<Rightarrow> bool" where
  "plain_file f \<longleftrightarrow> (case file_Path f of None \<Rightarrow> True | Some p \<Rightarrow> plain_path p)"

definition object_file :: "heap \<Rightarrow> Object \<Rightarrow> File option" where
  "object_file h ob = (case ob of KongFileObj r \<Rightarrow> Some (Build (at_ref h r)) | OtherObj _ _ _ \<Rightarrow> None)"

definition portal_of :: "('c \<Rightarrow> string \<Rightarrow> Object option) \<Rightarrow> ('w \<Rightarrow> string \<Rightarrow> string option) \<Rightarrow>
    (('c, 'v, 'w) resolver_state, 'k) world \<Rightarrow> portal" where
  "portal_of contents files s =
     \<lparr>tracked = (\<lambda>k. Option.bind (contents (store (fst (prox s))) k) (object_file (objects s))),
      published = files (snd (prox s))\<rparr>"

lemma object_file_put_new:
  assumes "cache_wf cached s" and "cached (prox s) k = Some ob"
  shows "object_file (put_new s v) ob = object_file (objects s) ob"
  using assms by (auto elim!: cache_wfE simp: object_file_def)

section \<open>The environment\<close>

locale portal_env = resolver S contents kc + kong_admin kc files + kube_api K resources
  for S :: "'c cache_Store" and contents :: "'c \<Rightarrow> string \<Rightarrow> Object option"
    and kc :: "('w, 'r) kong_Client" and files :: "'w \<Rightarrow> string \<Rightarrow> string option"
    and K :: "'k k8s_Client" and resources :: "'k \<Rightarrow> NamespacedName \<Rightarrow> KongFile option"
begin

lemma publish_update:
  assumes "FileService_Update kc f w = ((v, None), w')" and "plain_file f"
  shows "files w' = publish f (files w)"
proof (cases "file_Path f")
  case None
  with assms show ?thesis by (simp add: FileService_Update_def)
next
  case (Some p)
  then show ?thesis
    using update_stores [OF assms(1) Some] assms(2) by (simp add: publish_def plain_file_def)
qed

lemma unpublish_delete:
  assumes "FileService_Delete kc f w = ((v, None), w')" and "plain_file f"
  shows "files w' = unpublish f (files w)"
proof (cases "file_Path f")
  case None
  with assms show ?thesis by (simp add: FileService_Delete_def)
next
  case (Some p)
  then show ?thesis
    using delete_removes_path [OF assms(1) Some] assms(2) by (simp add: unpublish_def plain_file_def)
qed

lemma get_keeps_files:
  assumes "FileService_Get kc f w = ((v, e), w')" and "plain_file f"
  shows "files w' = files w"
proof (cases "file_Path f")
  case None
  with assms show ?thesis by (simp add: FileService_Get_def)
next
  case (Some p)
  then show ?thesis
    using get_unchanged [OF assms(1) Some] assms(2) by (simp add: plain_file_def)
qed

end

sublocale portal_env \<subseteq> reconciler "resolver_Proxy S kc" cached_in K
  by unfold_locales

section \<open>Simulation\<close>

text \<open>How a call moves the portal: it allocates an object, and may drop a key from the cache or file
  the new object under its key.\<close>

context portal_env
begin

abbreviation portal_view :: "(('c, 'v, 'w) resolver_state, 'k) world \<Rightarrow> portal" where
  "portal_view \<equiv> portal_of contents files"

lemma tracked_old:
  assumes "cache_wf cached_in s"
  shows "Option.bind (contents (store (fst (prox s))) k) (object_file (put_new s v)) =
    tracked (portal_view s) k"
  using object_file_put_new [OF assms]
  by (cases "contents (store (fst (prox s))) k") (simp_all add: portal_of_def)

lemma view_drop:
  assumes "cache_wf cached_in s" and "contents c = (contents (store (fst (prox s))))(k := None)"
  shows "portal_view (s\<lparr>objects := put_new s v, prox := ((fst (prox s))\<lparr>store := c\<rparr>, w)\<rparr>) =
    \<lparr>tracked = (tracked (portal_view s))(k := None), published = files w\<rparr>"
  using tracked_old [OF assms(1)] by (auto simp: portal_of_def assms(2) fun_eq_iff)

lemma view_file:
  assumes "cache_wf cached_in s"
    and "contents c = (contents (store (fst (prox s))))(k \<mapsto> KongFileObj (new_ref s))"
  shows "portal_view (s\<lparr>objects := put_new s v, prox := ((fst (prox s))\<lparr>store := c\<rparr>, w)\<rparr>) =
    \<lparr>tracked = (tracked (portal_view s))(k \<mapsto> Build v), published = files w\<rparr>"
  using tracked_old [OF assms(1)] by (auto simp: portal_of_def assms(2) fun_eq_iff object_file_def)

lemma view_same:
  assumes "cache_wf cached_in s"
  shows "portal_view (s\<lparr>objects := put_new s v\<rparr>) = portal_view s"
  using tracked_old [OF assms] by (auto simp: portal_of_def fun_eq_iff)

lemma view_kube [simp]: "portal_view (s\<lparr>kube := k\<rparr>) = portal_view s"
  by (simp add: portal_of_def)

lemma sync_missing:
  assumes wf: "cache_wf cached_in s" and miss: "fetch_error K req s = Some err" "k_IsNotFound K err"
    and plain: "\<And>f. tracked (portal_view s) (key_of req) = Some f \<Longrightarrow> plain_file f"
    and ret: "Reconcile (resolver_Proxy S kc) K className now req s = Return ((res, None), t)"
  shows "portal_view t = portal_sync className now req (resources (kube s) req) (portal_view s)"
proof (cases "cached_in (prox s) (key_of req)")
  case None
  then have "tracked (portal_view s) (key_of req) = None"
    by (simp add: portal_of_def)
  moreover have "t = s\<lparr>objects := put_new s (set_identity req (fetched K req s))\<rparr>"
    using ret Reconcile_missing_uncached [OF miss] None by simp
  ultimately show ?thesis
    using fetched_missing [OF miss] by (simp add: portal_sync_def view_same [OF wf])
next
  case (Some ob)
  with wf obtain q where q: "cached_in (prox s) (key_of req) = Some (KongFileObj q)"
      "q < new_ref s" "object_key (objects s) q = key_of req"
    by (metis cache_wfE)
  let ?v = "set_identity req (fetched K req s)" and ?f = "Build (at_ref (objects s) q)"
  obtain p w where st: "prox s = (p, w)" by (cases "prox s")
  have same: "at_ref (put_new s ?v) q = at_ref (objects s) q" "object_key (put_new s ?v) q = key_of req"
    using q(2,3) by (simp_all add: object_key_put_new)
  obtain c where c: "contents c = (contents (store p))(key_of req := None)"
    and del: "DeleteObject S kc (put_new s ?v) (Some (KongFileObj q)) (p, w) =
      Return (snd (fst (FileService_Delete kc ?f w)), (p\<lparr>store := c\<rparr>, snd (FileService_Delete kc ?f w)))"
    using DeleteObject_file [of p "put_new s ?v" q w] unfolding same by blast
  have t: "snd (fst (FileService_Delete kc ?f w)) = None"
    "t = s\<lparr>objects := put_new s ?v, prox := (p\<lparr>store := c\<rparr>, snd (FileService_Delete kc ?f w))\<rparr>"
    using ret Reconcile_missing_cached [OF miss q(1), of className now] del
    by (simp_all add: Let_def resolver_Proxy_def st)
  have tr: "tracked (portal_view s) (key_of req) = Some ?f"
    using q(1) by (simp add: portal_of_def object_file_def)
  have "files (snd (FileService_Delete kc ?f w)) = unpublish ?f (files w)"
    by (rule unpublish_delete [OF _ plain [OF tr]]) (use t(1) in \<open>simp add: prod_eq_iff\<close>)
  then show ?thesis
    using view_drop [OF wf, where c = c and k = "key_of req" and v = "?v"
      and w = "snd (FileService_Delete kc ?f w)"] c tr
      fetched_missing [OF miss] t(2)
    by (simp add: portal_sync_def st) (simp add: portal_of_def st)
qed

lemma sync_pending:
  assumes wf: "cache_wf cached_in s" and found: "fetch_error K req s = None"
    and pend: "\<not> terminating now (fetched K req s)" "ours className (fetched K req s)"
      "\<not> validated (fetched K req s)"
    and plain: "plain_file (Build (fetched K req s))"
    and ret: "Reconcile (resolver_Proxy S kc) K className now req s = Return ((res, None), t)"
  shows "portal_view t = portal_sync className now req (resources (kube s) req) (portal_view s)"
    and "resources (kube t) = (resources (kube s))(req \<mapsto> set_validated (fetched K req s))"
proof -
  let ?f = "fetched K req s"
  obtain p w where st: "prox s = (p, w)" by (cases "prox s")
  have key: "object_key (put_new s ?f) (new_ref s) = key_of req"
    by (simp add: object_key_put_new fetched_name [OF found])
  obtain c where c: "contents c = (contents (store p))(key_of req \<mapsto> KongFileObj (new_ref s))"
    and up: "UpdateObject S kc (put_new s ?f) (Some (KongFileObj (new_ref s))) (p, w) =
      Return (snd (fst (FileService_Update kc (Build ?f) w)),
        (p\<lparr>store := c\<rparr>, snd (FileService_Update kc (Build ?f) w)))"
    using UpdateObject_file [of p "put_new s ?f" "new_ref s" w] unfolding key by auto
  obtain e v k where stat: "k_StatusUpdate K (set_validated ?f) (kube s) = ((e, v), k)"
    by (metis prod.exhaust)
  have t: "snd (fst (FileService_Update kc (Build ?f) w)) = None" "e = None"
    "t = s\<lparr>objects := put_new s v, prox := (p\<lparr>store := c\<rparr>, snd (FileService_Update kc (Build ?f) w)),
      kube := k\<rparr>"
    using ret Reconcile_pending [OF found pend, of "resolver_Proxy S kc"] up stat
    by (auto simp: resolver_Proxy_def st split: option.splits)
  have v: "v = set_validated ?f" "resources k = (resources (kube s))(req \<mapsto> v)"
    using status_of_fetched [OF found, of v k] stat t(2) by auto
  have "Build v = Build ?f"
    by (rule Build_spec) (simp add: v(1) set_validated_def)
  moreover have "files (snd (FileService_Update kc (Build ?f) w)) = publish (Build ?f) (files w)"
    by (rule publish_update [OF _ plain]) (use t(1) in \<open>simp add: prod_eq_iff\<close>)
  ultimately show "portal_view t = portal_sync className now req (resources (kube s) req) (portal_view s)"
    using view_file [OF wf, where c = c and k = "key_of req" and v = v
      and w = "snd (FileService_Update kc (Build ?f) w)"] c
      fetched_resource [OF found] pend t(3)
    by (simp add: portal_sync_def st) (simp add: portal_of_def st)
  show "resources (kube t) = (resources (kube s))(req \<mapsto> set_validated ?f)"
    using v t(3) by simp
qed

lemma sync_terminating:
  assumes wf: "cache_wf cached_in s" and found: "fetch_error K req s = None"
    and dying: "terminating now (fetched K req s)"
    and plain: "plain_file (Build (fetched K req s))"
    and ret: "Reconcile (resolver_Proxy S kc) K className now req s = Return ((res, None), t)"
  shows "portal_view t = portal_sync className now req (resources (kube s) req) (portal_view s)"
proof -
  let ?f = "fetched K req s"
  obtain p w where st: "prox s = (p, w)" by (cases "prox s")
  have key: "object_key (put_new s ?f) (new_ref s) = key_of req"
    by (simp add: object_key_put_new fetched_name [OF found])
  obtain b e w1 where ex: "ObjectExists kc (put_new s ?f) (Some (KongFileObj (new_ref s))) (p, w) =
      Return ((b, e), (p, w1))" "e = None \<longleftrightarrow> b"
    using ObjectExists_file [of kc "put_new s ?f" "new_ref s" p w] by blast
  obtain u e' where get: "FileService_Get kc (Build ?f) w = ((u, e'), w1)"
    using ex(1) by (cases "FileService_Get kc (Build ?f) w") (auto split: if_splits)
  obtain c where c: "contents c = (contents (store p))(key_of req := None)"
    and del: "DeleteObject S kc (put_new s ?f) (Some (KongFileObj (new_ref s))) (p, w1) =
      Return (snd (fst (FileService_Delete kc (Build ?f) w1)),
        (p\<lparr>store := c\<rparr>, snd (FileService_Delete kc (Build ?f) w1)))"
    using DeleteObject_file [of p "put_new s ?f" "new_ref s" w1] unfolding key by auto
  have t: "e = None" "snd (fst (FileService_Delete kc (Build ?f) w1)) = None"
    "t = s\<lparr>objects := put_new s ?f, prox := (p\<lparr>store := c\<rparr>, snd (FileService_Delete kc (Build ?f) w1))\<rparr>"
    using ret Reconcile_terminating [OF found dying, of "resolver_Proxy S kc" className] ex del
    by (auto simp: resolver_Proxy_def st Let_def split: if_splits)
  have "files w1 = files w"
    by (rule get_keeps_files [OF get plain])
  moreover have "files (snd (FileService_Delete kc (Build ?f) w1)) = unpublish (Build ?f) (files w1)"
    by (rule unpublish_delete [OF _ plain]) (use t(2) in \<open>simp add: prod_eq_iff\<close>)
  ultimately show ?thesis
    using view_drop [OF wf, where c = c and k = "key_of req" and v = "?f"
      and w = "snd (FileService_Delete kc (Build ?f) w1)"] c
      fetched_resource [OF found] dying t(3)
    by (simp add: portal_sync_def st) (simp add: portal_of_def st)
qed

lemma sync_settled:
  assumes wf: "cache_wf cached_in s" and found: "fetch_error K req s = None"
    and rest: "\<not> terminating now (fetched K req s)"
      "\<not> ours className (fetched K req s) \<or> validated (fetched K req s)"
    and ret: "Reconcile (resolver_Proxy S kc) K className now req s = Return (out, t)"
  shows "portal_view t = portal_sync className now req (resources (kube s) req) (portal_view s)"
  using Reconcile_settled [OF found rest, of "resolver_Proxy S kc"] ret rest fetched_resource [OF found]
  by (auto simp: portal_sync_def view_same [OF wf])

text \<open>Every error-free call does what it is for.\<close>

lemma Reconcile_simulates:
  assumes wf: "cache_wf cached_in s"
    and plain_tracked: "\<And>f. tracked (portal_view s) (key_of req) = Some f \<Longrightarrow> plain_file f"
    and plain_resource: "\<And>f. resources (kube s) req = Some f \<Longrightarrow> plain_file (Build f)"
    and ret: "Reconcile (resolver_Proxy S kc) K className now req s = Return ((res, None), t)"
  shows "portal_view t = portal_sync className now req (resources (kube s) req) (portal_view s)"
proof (cases "fetch_error K req s")
  case (Some err)
  then show ?thesis
    using sync_missing [OF wf Some _ plain_tracked ret] ret Reconcile_unreadable [OF Some]
    by (cases "k_IsNotFound K err") auto
next
  case None
  note plain = plain_resource [OF fetched_resource [OF None]]
  show ?thesis
    using sync_pending(1) [OF wf None _ _ _ plain ret] sync_terminating [OF wf None _ plain ret]
      sync_settled [OF wf None _ _ ret]
    by blast
qed

end

section \<open>States and steps of the controller\<close>

text \<open>A step is one whole call of the reconciler, for any request and at any time, a move of the API
  server, or a move of the world behind the Kong client.\<close>

inductive ctrl_step :: "'c cache_Store \<Rightarrow> ('w, 'r) kong_Client \<Rightarrow> 'k k8s_Client \<Rightarrow> string \<Rightarrow>
    (('c, 'v, 'w) resolver_state, 'k) world \<Rightarrow> (('c, 'v, 'w) resolver_state, 'k) world \<Rightarrow> bool"
  for S :: "'c cache_Store" and kc :: "('w, 'r) kong_Client" and K :: "'k k8s_Client"
    and className :: string where
  reconciles: "Reconcile (resolver_Proxy S kc) K className now req s = Return (out, t) \<Longrightarrow>
    ctrl_step S kc K className s t"
| kube_moves: "ctrl_step S kc K className s (s\<lparr>kube := k\<rparr>)"
| kong_moves: "ctrl_step S kc K className s (s\<lparr>prox := (fst (prox s), w)\<rparr>)"

inductive_cases ctrl_stepE: "ctrl_step S kc K className s t"

text \<open>What construction establishes of the resolver's fields and nothing changes afterwards.\<close>

definition resolver_ok :: "('c, 'v) CachedProxyResolver \<Rightarrow> bool" where
  "resolver_ok p \<longleftrightarrow>
     \<not> configApplied p \<and> in_memory_of (dbmode p) = Some (InMemory (kongConfig p)) \<and>
     Version (kongConfig p) = version p \<and> promMetrics p = Some controllerMetrics"

definition ctrl_init :: "'c cache_Store \<Rightarrow> (('c, 'v, 'w) resolver_state, 'k) world \<Rightarrow> bool" where
  "ctrl_init S s \<longleftrightarrow>
     store (fst (prox s)) = NewCacheStores S \<and> resolver_ok (fst (prox s))"

lemma resolver_ok_store [simp]: "resolver_ok (p\<lparr>store := c\<rparr>) = resolver_ok p"
  by (simp add: resolver_ok_def)

lemma NewCtrlFuncMetrics_Return:
  "NewCtrlFuncMetrics mr reg = Return (m, reg') \<Longrightarrow> m = controllerMetrics"
  by (auto simp: NewCtrlFuncMetrics_def)

text \<open>The shape of a successful initialisation.\<close>

lemma initialize_success:
  assumes "initialize deps p (w, reg) = Return ((None, p'), (w', reg'))"
  obtains rootConf proxyConfig mode inMemory ver
  where "id_Root deps (proxyRequestTimeout p) w = (Inr rootConf, w')"
    and "dyn_index rootConf ''configuration'' = DMap proxyConfig"
    and "dyn_index proxyConfig ''database'' = DString mode"
    and "in_memory_of mode = Some inMemory"
    and "id_ParseSemanticVersion deps (id_VersionFromInfo deps rootConf) = Inr ver"
    and "NewCtrlFuncMetrics (id_MustRegister deps) reg = Return (controllerMetrics, reg')"
    and "p' = p\<lparr>kongConfig := (kongConfig p)\<lparr>InMemory := inMemory, Version := ver\<rparr>, dbmode := mode,
        version := ver, promMetrics := Some controllerMetrics\<rparr>"
  using assms
  by (auto simp: kongRootWithTimeout_def Let_def dest: NewCtrlFuncMetrics_Return
      split: prod.splits sum.splits dyn.splits option.splits outcome.splits)

lemma constructed_resolver:
  assumes "NewCacheBasedProxyWithStagger deps v0 kong0 cls rs tmo c env = Return (Inr p, env')"
  shows "resolver_ok p \<and> store p = c \<and> controllerClassName p = cls"
proof -
  obtain w reg w' reg' where env: "env = (w, reg)" "env' = (w', reg')"
    by (cases env, cases env')
  let ?p0 = "\<lparr>configApplied = False, kongConfig = kong0, enableReverseSync = rs, dbmode = [],
    version = v0, store = c, promMetrics = None, controllerClassName = cls, proxyRequestTimeout = tmo\<rparr>"
  have "initialize deps ?p0 (w, reg) = Return ((None, p), (w', reg'))"
    using assms
    by (auto simp: NewCacheBasedProxyWithStagger_def Let_def env simp del: initialize.simps
        split: outcome.splits option.splits)
  then show ?thesis
    by (rule initialize_success) (simp add: resolver_ok_def)
qed

text \<open>The resolver's methods write no field but the store.\<close>

lemma UpdateObject_fields:
  "UpdateObject S kc h obj (p, w) = Return (e, (p', w')) \<Longrightarrow> \<exists>c. p' = p\<lparr>store := c\<rparr>"
  by (auto simp: unsupported_kind_def split: option.splits Object.splits outcome.splits prod.splits
      intro: exI [of _ "store p"])

lemma DeleteObject_fields:
  "DeleteObject S kc h obj (p, w) = Return (e, (p', w')) \<Longrightarrow> \<exists>c. p' = p\<lparr>store := c\<rparr>"
  by (auto simp: unsupported_kind_def split: option.splits Object.splits outcome.splits prod.splits
      intro: exI [of _ "store p"])

lemma ObjectExists_fields:
  "ObjectExists kc h obj (p, w) = Return (be, (p', w')) \<Longrightarrow> p' = p"
  by (auto simp: unsupported_kind_def split: option.splits Object.splits prod.splits if_splits)

text \<open>A predicate on the proxy's state that its three methods keep is kept by a call.\<close>

lemma EnsureProxyDeleteObject_keeps:
  assumes "\<And>h obj p e p'. pr_DeleteObject P h obj p = Return (e, p') \<Longrightarrow> I p \<Longrightarrow> I p'"
    and "EnsureProxyDeleteObject P h obj p = Return (r, p')" and "I p"
  shows "I p'"
  using assms(2,3)
  by (auto simp: EnsureProxyDeleteObject_def dest: assms(1)
      split: prod.splits if_splits outcome.splits option.splits)

lemma Reconcile_keeps:
  assumes upd: "\<And>h obj p e p'. pr_UpdateObject P h obj p = Return (e, p') \<Longrightarrow> I p \<Longrightarrow> I p'"
    and dlt: "\<And>h obj p e p'. pr_DeleteObject P h obj p = Return (e, p') \<Longrightarrow> I p \<Longrightarrow> I p'"
    and exi: "\<And>h obj p e p'. pr_ObjectExists P h obj p = Return (e, p') \<Longrightarrow> I p \<Longrightarrow> I p'"
    and ret: "Reconcile P K className now req s = Return (out, t)" and I: "I (prox s)"
  shows "I (prox t)"
proof (cases "fetch_error K req s")
  case (Some err)
  have keep: "I p'" if "EnsureProxyDeleteObject P h obj p = Return (r, p')" "I p" for h obj p r p'
    by (rule EnsureProxyDeleteObject_keeps [where I = I, OF _ that]) (rule dlt)
  show ?thesis
    using ret I Reconcile_unreadable [OF Some] Reconcile_missing [OF Some]
    by (cases "k_IsNotFound K err") (auto simp: Let_def dest: keep)
next
  case None
  consider "terminating now (fetched K req s)"
    | "\<not> terminating now (fetched K req s)" "ours className (fetched K req s)"
      "\<not> validated (fetched K req s)"
    | "\<not> terminating now (fetched K req s)"
      "\<not> ours className (fetched K req s) \<or> validated (fetched K req s)"
    by blast
  then show ?thesis
  proof cases
    case 1
    let ?h = "put_new s (fetched K req s)" and ?obj = "Some (KongFileObj (new_ref s))"
    from ret obtain b e p where p: "pr_ObjectExists P ?h ?obj (prox s) = Return ((b, e), p)"
      and rest: "prox t = p \<or> (\<exists>e'. pr_DeleteObject P ?h ?obj p = Return (e', prox t))"
      unfolding Reconcile_terminating [OF None 1] Let_def
      by (auto split: outcome.splits if_splits)
    from exi [OF p I] rest show ?thesis by (auto intro: dlt)
  next
    case 2
    then show ?thesis
      using ret I Reconcile_pending [OF None 2, of P]
      by (auto simp: Let_def dest: upd split: outcome.splits option.splits prod.splits)
  next
    case 3
    then show ?thesis
      using ret I Reconcile_settled [OF None 3, of P] by auto
  qed
qed

lemma UpdateObject_ok:
  "pr_UpdateObject (resolver_Proxy S kc) h obj p = Return (e, p') \<Longrightarrow>
    resolver_ok (fst p) \<Longrightarrow> resolver_ok (fst p')"
  using UpdateObject_fields [of S kc h obj "fst p" "snd p" e "fst p'" "snd p'"]
  by (auto simp: resolver_Proxy_def simp del: UpdateObject.simps)

lemma DeleteObject_ok:
  "pr_DeleteObject (resolver_Proxy S kc) h obj p = Return (e, p') \<Longrightarrow>
    resolver_ok (fst p) \<Longrightarrow> resolver_ok (fst p')"
  using DeleteObject_fields [of S kc h obj "fst p" "snd p" e "fst p'" "snd p'"]
  by (auto simp: resolver_Proxy_def simp del: DeleteObject.simps)

lemma ObjectExists_ok:
  "pr_ObjectExists (resolver_Proxy S kc) h obj p = Return (e, p') \<Longrightarrow>
    resolver_ok (fst p) \<Longrightarrow> resolver_ok (fst p')"
  using ObjectExists_fields [of kc h obj "fst p" "snd p" e "fst p'" "snd p'"]
  by (auto simp: resolver_Proxy_def simp del: ObjectExists.simps)

lemma Reconcile_resolver_ok:
  "Reconcile (resolver_Proxy S kc) K className now req s = Return (out, t) \<Longrightarrow>
    resolver_ok (fst (prox s)) \<Longrightarrow> resolver_ok (fst (prox t))"
  by (rule Reconcile_keeps [where I = "\<lambda>p. resolver_ok (fst p)"])
    (rule UpdateObject_ok DeleteObject_ok ObjectExists_ok; assumption)+

section \<open>The invariant\<close>

definition ctrl_inv :: "('c \<Rightarrow> string \<Rightarrow> Object option) \<Rightarrow> (('c, 'v, 'w) resolver_state, 'k) world \<Rightarrow> bool" where
  "ctrl_inv contents s \<longleftrightarrow>
     cache_wf (\<lambda>st. contents (store (fst st))) s \<and> resolver_ok (fst (prox s))"

locale controller = resolver S contents kc + kube_client K
  for S :: "'c cache_Store" and contents :: "'c \<Rightarrow> string \<Rightarrow> Object option"
    and kc :: "('w, 'r) kong_Client" and K :: "'k k8s_Client" +
  fixes className :: string
begin

end

sublocale controller \<subseteq> reconciler "resolver_Proxy S kc" cached_in K
  by unfold_locales

context controller
begin

text \<open>Two calls on a state with the invariant can follow each other: the first returns, and leaves a state
  with the invariant.\<close>

lemma Reconcile_returns:
  assumes "ctrl_inv contents s"
  obtains out t where "Reconcile (resolver_Proxy S kc) K className now req s = Return (out, t)"
    and "ctrl_inv contents t"
  using Reconcile_wf [of s className now req] Reconcile_resolver_ok assms
  by (force simp: ctrl_inv_def)

end

sublocale controller \<subseteq> system: invariant_system "ctrl_init S" "ctrl_step S kc K className" "ctrl_inv contents"
proof
  show "ctrl_inv contents s" if "ctrl_init S s" for s
    using that by (simp add: ctrl_inv_def ctrl_init_def cache_wf_def NewCacheStores_def new_contents)
next
  fix s t :: "(('c, 'v, 'w) resolver_state, 'k) world"
  assume inv: "ctrl_inv contents s" and step: "ctrl_step S kc K className s t"
  from step show "ctrl_inv contents t"
  proof (rule ctrl_stepE)
    fix now req out
    assume ret: "Reconcile (resolver_Proxy S kc) K className now req s = Return (out, t)"
    have "cache_wf cached_in t"
      using Reconcile_wf [of s className now req] inv ret by (auto simp: ctrl_inv_def)
    with Reconcile_resolver_ok [OF ret] inv show ?thesis by (simp add: ctrl_inv_def)
  next
    fix k assume "t = s\<lparr>kube := k\<rparr>"
    with inv show ?thesis by (simp add: ctrl_inv_def)
  next
    fix w assume "t = s\<lparr>prox := (fst (prox s), w)\<rparr>"
    with inv show ?thesis by (simp add: ctrl_inv_def cache_wf_def)
  qed
qed

end
