(* ===== verification/Controller_Runs.thy ===== *)
theory Controller_Runs
  imports Controller_System
begin

text \<open>
  What sequences of calls of the reconciler do. The work queue of controller-runtime turns events into
  calls one after the other; \<open>run_calls\<close> is such a schedule, and the lemmas say which calls leave the
  portal alone, which ones repeat, and what a call can touch at all.
\<close>

section \<open>Schedules\<close>

fun run_calls :: "'p Proxy \<Rightarrow> 'k k8s_Client \<Rightarrow> string \<Rightarrow> (time \<times> NamespacedName) list \<Rightarrow>
    ('p, 'k) world \<Rightarrow> ((Result \<times> error option) list \<times> ('p, 'k) world) outcome" where
  "run_calls P K className [] s = Return ([], s)"
| "run_calls P K className ((now, req) # calls) s =
     (case Reconcile P K className now req s of
        Panic m \<Rightarrow> Panic m
      | Return (out, t) \<Rightarrow>
          map_outcome_val (\<lambda>(outs, u). (out # outs, u)) (run_calls P K className calls t))"

text \<open>The outcome of a call that has nothing to do: success, and no further call asked for.\<close>

abbreviation idle :: "Result \<times> error option" where
  "idle \<equiv> (\<lparr>Requeue = False\<rparr>, None)"

text \<open>A property of states under which every call of the schedule returns \<open>out\<close> and which every call
  keeps.\<close>

lemma run_calls_steady:
  assumes call: "\<And>now req s. (now, req) \<in> set calls \<Longrightarrow> I s \<Longrightarrow>
      \<exists>t. Reconcile P K className now req s = Return (out, t) \<and> I t"
    and "I s"
  shows "\<exists>t. run_calls P K className calls s = Return (replicate (length calls) out, t) \<and> I t"
  using assms
proof (induction calls arbitrary: s)
  case Nil
  then show ?case by simp
next
  case (Cons c calls)
  obtain now req where c: "c = (now, req)" by (cases c)
  from Cons.prems obtain t where t: "Reconcile P K className now req s = Return (out, t)" "I t"
    unfolding c by fastforce
  obtain u where "run_calls P K className calls t = Return (replicate (length calls) out, u)" "I u"
    using Cons.IH [OF _ t(2)] Cons.prems(1) by auto
  with t c show ?case by simp
qed

lemma fetch_cong:
  assumes "kube s = kube t"
  shows "fetch_error K req s = fetch_error K req t" and "fetched K req s = fetched K req t"
  using assms by (simp_all add: fetch_error_def fetched_def)

lemma fetch_updates [simp]:
  "fetch_error K req (s\<lparr>objects := h\<rparr>) = fetch_error K req s"
  "fetch_error K req (s\<lparr>prox := p\<rparr>) = fetch_error K req s"
  "fetched K req (s\<lparr>objects := h\<rparr>) = fetched K req s"
  "fetched K req (s\<lparr>prox := p\<rparr>) = fetched K req s"
  by (rule fetch_cong; simp)+

text \<open>A resource that is validated, or of another class, is left alone by every schedule of its calls.\<close>

lemma settled_calls:
  fixes s :: "('p, 'k) world"
  assumes "fetch_error K req s = None"
    and "\<not> ours className (fetched K req s) \<or> validated (fetched K req s)"
    and "\<forall>(now, req') \<in> set calls. req' = req \<and> \<not> terminating now (fetched K req s)"
  shows "\<exists>t. run_calls P K className calls s =
      Return (replicate (length calls) idle, t) \<and>
    prox t = prox s \<and> kube t = kube s"
proof (rule run_calls_steady [where I = "\<lambda>t. prox t = prox s \<and> kube t = kube s"])
  fix now req' and t :: "('p, 'k) world"
  assume c: "(now, req') \<in> set calls" and t: "prox t = prox s \<and> kube t = kube s"
  have r: "req' = req" "\<not> terminating now (fetched K req s)" using c assms(3) by auto
  have f: "fetch_error K req t = None" "fetched K req t = fetched K req s"
    using fetch_cong [of t s K req] t assms(1) by simp_all
  show "\<exists>u. Reconcile P K className now req' t = Return ((\<lparr>Requeue = False\<rparr>, None), u) \<and>
      prox u = prox s \<and> kube u = kube s"
    using Reconcile_settled [OF f(1), of now className P] f(2) assms(2) t r by auto
qed simp

section \<open>What a call can touch\<close>

context portal_env
begin

lemma kube_of_unwritten:
  assumes "fetch_error K req s \<noteq> None \<or> terminating now (fetched K req s)"
    and "Reconcile (resolver_Proxy S kc) K className now req s = Return (out, t)"
  shows "kube t = kube s"
proof (cases "fetch_error K req s")
  case None
  with assms(1) have "terminating now (fetched K req s)" by simp
  from Reconcile_terminating [OF None this] assms(2) show ?thesis
    by (auto simp: Let_def split: outcome.splits if_splits)
next
  case (Some err)
  with assms(2) show ?thesis
    using Reconcile_unreadable [OF Some, of "resolver_Proxy S kc" className now]
      Reconcile_missing [OF Some, of "resolver_Proxy S kc" className now]
    by (cases "k_IsNotFound K err") (auto simp: Let_def)
qed

text \<open>Paths other than the ones of the object's own file are never touched, whatever the outcome.\<close>

lemma update_elsewhere:
  assumes "FileService_Update kc f w = (r, w')" and "plain_file f" and "file_Path f \<noteq> Some q"
  shows "files w' q = files w q"
proof (cases "file_Path f")
  case None
  with assms(1) show ?thesis by (simp add: FileService_Update_def)
next
  case (Some p)
  then show ?thesis
    using update_only [OF assms(1) Some] assms(2,3) by (auto simp: plain_file_def)
qed

lemma delete_elsewhere:
  assumes "FileService_Delete kc f w = (r, w')" and "plain_file f" and "file_Path f \<noteq> Some q"
  shows "files w' q = files w q"
proof (cases "file_Path f")
  case None
  with assms(1) show ?thesis by (simp add: FileService_Delete_def)
next
  case (Some p)
  then show ?thesis
    using delete_only_path [OF assms(1) Some] assms(2,3) by (auto simp: plain_file_def)
qed

lemma UpdateObject_elsewhere:
  assumes "pr_UpdateObject (resolver_Proxy S kc) h (Some (KongFileObj r)) st = Return (e, st')"
    and "plain_file (Build (at_ref h r))" and "file_Path (Build (at_ref h r)) \<noteq> Some q"
  shows "files (snd st') q = files (snd st) q"
proof -
  obtain p w where st: "st = (p, w)" by (cases st)
  have "snd st' = snd (FileService_Update kc (Build (at_ref h r)) w)"
    by (rule UpdateObject_file [of p h r w])
      (use assms(1) in \<open>auto simp: st resolver_Proxy_def simp del: UpdateObject.simps\<close>)
  then show ?thesis
    using update_elsewhere [OF _ assms(2,3), of w] st by (metis prod.collapse snd_conv)
qed

lemma DeleteObject_elsewhere:
  assumes "pr_DeleteObject (resolver_Proxy S kc) h (Some (KongFileObj r)) st = Return (e, st')"
    and "plain_file (Build (at_ref h r))" and "file_Path (Build (at_ref h r)) \<noteq> Some q"
  shows "files (snd st') q = files (snd st) q"
proof -
  obtain p w where st: "st = (p, w)" by (cases st)
  have "snd st' = snd (FileService_Delete kc (Build (at_ref h r)) w)"
    by (rule DeleteObject_file [of p h r w])
      (use assms(1) in \<open>auto simp: st resolver_Proxy_def simp del: DeleteObject.simps\<close>)
  then show ?thesis
    using delete_elsewhere [OF _ assms(2,3), of w] st by (metis prod.collapse snd_conv)
qed

lemma ObjectExists_reads:
  assumes "pr_ObjectExists (resolver_Proxy S kc) h (Some (KongFileObj r)) st = Return (be, st')"
    and "plain_file (Build (at_ref h r))"
  shows "files (snd st') = files (snd st)"
proof -
  obtain p w where st: "st = (p, w)" by (cases st)
  have "snd st' = snd (FileService_Get kc (Build (at_ref h r)) w)"
    using assms(1) by (auto simp: st resolver_Proxy_def split: prod.splits if_splits)
  then show ?thesis
    using get_keeps_files [OF _ assms(2), of w] st by (metis prod.collapse snd_conv)
qed

text \<open>Tracked files of other keys stay.\<close>

lemma tracked_elsewhere:
  assumes "cache_wf cached_in s"
    and "\<And>k'. k' \<noteq> k \<Longrightarrow> contents (store (fst p)) k' = contents (store (fst (prox s))) k'"
    and "k' \<noteq> k"
  shows "tracked (portal_view (s\<lparr>objects := put_new s v, prox := p\<rparr>)) k' = tracked (portal_view s) k'"
  using tracked_old [OF assms(1), of k'] assms(2,3) by (simp add: portal_of_def)

lemma frame_missing:
  assumes wf: "cache_wf cached_in s" and miss: "fetch_error K req s = Some err" "k_IsNotFound K err"
    and own: "\<And>f. tracked (portal_view s) (key_of req) = Some f \<Longrightarrow> plain_file f \<and> file_Path f \<noteq> Some q"
    and ret: "Reconcile (resolver_Proxy S kc) K className now req s = Return (out, t)"
  shows "published (portal_view t) q = published (portal_view s) q"
    and "k \<noteq> key_of req \<Longrightarrow> tracked (portal_view t) k = tracked (portal_view s) k"
proof -
  let ?v = "set_identity req (fetched K req s)"
  have "published (portal_view t) q = published (portal_view s) q \<and>
    (k \<noteq> key_of req \<longrightarrow> tracked (portal_view t) k = tracked (portal_view s) k)"
  proof (cases "cached_in (prox s) (key_of req)")
    case None
    then have "t = s\<lparr>objects := put_new s ?v\<rparr>"
      using ret Reconcile_missing_uncached [OF miss] by simp
    then show ?thesis by (simp add: view_same [OF wf])
  next
    case (Some ob)
    with wf obtain r where r: "cached_in (prox s) (key_of req) = Some (KongFileObj r)"
        "r < new_ref s" "object_key (objects s) r = key_of req"
      by (metis cache_wfE)
    have same: "at_ref (put_new s ?v) r = at_ref (objects s) r" "object_key (put_new s ?v) r = key_of req"
      using r(2,3) by (simp_all add: object_key_put_new)
    obtain e p where del: "pr_DeleteObject (resolver_Proxy S kc) (put_new s ?v) (Some (KongFileObj r)) (prox s)
        = Return (e, p)" and t: "t = s\<lparr>objects := put_new s ?v, prox := p\<rparr>"
      using ret Reconcile_missing_cached [OF miss r(1), of className now] by (auto simp: Let_def)
    have "plain_file (Build (at_ref (objects s) r)) \<and> file_Path (Build (at_ref (objects s) r)) \<noteq> Some q"
      by (rule own) (use r(1) in \<open>simp add: portal_of_def object_file_def\<close>)
    then have "files (snd p) q = files (snd (prox s)) q"
      using DeleteObject_elsewhere [OF del] same by auto
    then show ?thesis
      using tracked_elsewhere [OF wf, of "key_of req" p k ?v] delete_cached [OF del] same(2) t
      by (simp add: portal_of_def)
  qed
  then show "published (portal_view t) q = published (portal_view s) q"
    and "k \<noteq> key_of req \<Longrightarrow> tracked (portal_view t) k = tracked (portal_view s) k" by auto
qed

lemma frame_terminating:
  assumes wf: "cache_wf cached_in s" and found: "fetch_error K req s = None"
    and dying: "terminating now (fetched K req s)"
    and own: "plain_file (Build (fetched K req s)) \<and> file_Path (Build (fetched K req s)) \<noteq> Some q"
    and ret: "Reconcile (resolver_Proxy S kc) K className now req s = Return (out, t)"
  shows "published (portal_view t) q = published (portal_view s) q"
    and "k \<noteq> key_of req \<Longrightarrow> tracked (portal_view t) k = tracked (portal_view s) k"
proof -
  let ?f = "fetched K req s" and ?obj = "Some (KongFileObj (new_ref s))"
  have key: "object_key (put_new s ?f) (new_ref s) = key_of req"
    by (simp add: object_key_put_new fetched_name [OF found])
  obtain b e p where ex: "pr_ObjectExists (resolver_Proxy S kc) (put_new s ?f) ?obj (prox s) = Return ((b, e), p)"
    using exists_keeps_cache by blast
  have rd: "files (snd p) = files (snd (prox s))"
    using ObjectExists_reads [OF ex] own by simp
  define p' where "p' = prox t"
  have p': "t = s\<lparr>objects := put_new s ?f, prox := p'\<rparr>"
    "p' = p \<or> (\<exists>e'. pr_DeleteObject (resolver_Proxy S kc) (put_new s ?f) ?obj p = Return (e', p'))"
    using ret Reconcile_terminating [OF found dying, of "resolver_Proxy S kc" className] ex
    by (auto simp: Let_def p'_def split: if_splits)
  have "files (snd p') q = files (snd p) q \<and> (\<forall>k'. k' \<noteq> key_of req \<longrightarrow> cached_in p' k' = cached_in p k')"
    using p'(2)
  proof
    assume "\<exists>e'. pr_DeleteObject (resolver_Proxy S kc) (put_new s ?f) ?obj p = Return (e', p')"
    then obtain e' where del: "pr_DeleteObject (resolver_Proxy S kc) (put_new s ?f) ?obj p = Return (e', p')" ..
    show ?thesis
      using DeleteObject_elsewhere [OF del, of q] delete_cached [OF del] own key by simp
  qed simp
  moreover have "cached_in p = cached_in (prox s)"
    using exists_cached [OF ex] by simp
  ultimately have "published (portal_view t) q = published (portal_view s) q"
    and "\<And>k. k \<noteq> key_of req \<Longrightarrow> tracked (portal_view t) k = tracked (portal_view s) k"
    using tracked_elsewhere [OF wf, of "key_of req" p' _ ?f] rd p'(1) by (simp_all add: portal_of_def)
  then show "published (portal_view t) q = published (portal_view s) q"
    and "k \<noteq> key_of req \<Longrightarrow> tracked (portal_view t) k = tracked (portal_view s) k" by blast+
qed

lemma frame_pending:
  assumes wf: "cache_wf cached_in s" and found: "fetch_error K req s = None"
    and pend: "\<not> terminating now (fetched K req s)" "ours className (fetched K req s)"
      "\<not> validated (fetched K req s)"
    and own: "plain_file (Build (fetched K req s)) \<and> file_Path (Build (fetched K req s)) \<noteq> Some q"
    and ret: "Reconcile (resolver_Proxy S kc) K className now req s = Return (out, t)"
  shows "published (portal_view t) q = published (portal_view s) q"
    and "k \<noteq> key_of req \<Longrightarrow> tracked (portal_view t) k = tracked (portal_view s) k"
proof -
  let ?f = "fetched K req s" and ?obj = "Some (KongFileObj (new_ref s))"
  have key: "object_key (put_new s ?f) (new_ref s) = key_of req"
    by (simp add: object_key_put_new fetched_name [OF found])
  obtain e p where up: "pr_UpdateObject (resolver_Proxy S kc) (put_new s ?f) ?obj (prox s) = Return (e, p)"
    using update_caches by blast
  obtain v where t: "t = s\<lparr>objects := put_new s v, prox := p, kube := kube t\<rparr>"
    using ret Reconcile_pending [OF found pend, of "resolver_Proxy S kc"] up
    by (cases e) (auto simp: Let_def split: prod.splits)
  have "files (snd p) q = files (snd (prox s)) q"
    using UpdateObject_elsewhere [OF up, of q] own by simp
  then show "published (portal_view t) q = published (portal_view s) q"
    by (subst t) (simp add: portal_of_def)
  have "cached_in p k' = cached_in (prox s) k'" if "k' \<noteq> key_of req" for k'
    using update_cached [OF up] that key by simp
  then show "k \<noteq> key_of req \<Longrightarrow> tracked (portal_view t) k = tracked (portal_view s) k"
    using tracked_elsewhere [OF wf, of "key_of req" p k v] by (subst t) (simp add: portal_of_def)
qed

text \<open>Every call, whatever its outcome: no other object's file and no other cache entry is touched.\<close>

lemma Reconcile_frame:
  assumes wf: "cache_wf cached_in s"
    and tracked_own: "\<And>f. tracked (portal_view s) (key_of req) = Some f \<Longrightarrow>
      plain_file f \<and> file_Path f \<noteq> Some q"
    and resource_own: "\<And>f. resources (kube s) req = Some f \<Longrightarrow>
      plain_file (Build f) \<and> file_Path (Build f) \<noteq> Some q"
    and ret: "Reconcile (resolver_Proxy S kc) K className now req s = Return (out, t)"
  shows "published (portal_view t) q = published (portal_view s) q \<and>
    (\<forall>k. k \<noteq> key_of req \<longrightarrow> tracked (portal_view t) k = tracked (portal_view s) k)"
proof (cases "fetch_error K req s")
  case (Some err)
  then show ?thesis
    using frame_missing [OF wf Some _ tracked_own ret] ret
      Reconcile_unreadable [OF Some, of "resolver_Proxy S kc" className now]
    by (cases "k_IsNotFound K err") (auto simp: view_same [OF wf])
next
  case None
  note own = resource_own [OF fetched_resource [OF None]]
  show ?thesis
    using frame_terminating [OF wf None _ own ret] frame_pending [OF wf None _ _ _ own ret]
      Reconcile_settled [OF None, of now className "resolver_Proxy S kc"] ret
    by (cases "terminating now (fetched K req s)";
        cases "ours className (fetched K req s) \<and> \<not> validated (fetched K req s)")
      (auto simp: view_same [OF wf])
qed

section \<open>The calls on the resolver\<close>

text \<open>What the pending, the missing and the terminating branch come to when the proxy is the resolver.\<close>

lemma pending_resolver:
  assumes found: "fetch_error K req s = None"
    and pend: "\<not> terminating now (fetched K req s)" "ours className (fetched K req s)"
      "\<not> validated (fetched K req s)"
    and kong: "FileService_Update kc (Build (fetched K req s)) (snd (prox s)) = ((v, err), w)"
  obtains c where "contents c = (contents (store (fst (prox s))))(key_of req \<mapsto> KongFileObj (new_ref s))"
    and "Reconcile (resolver_Proxy S kc) K className now req s =
      Return (case err of
        Some e \<Rightarrow> ((\<lparr>Requeue = False\<rparr>, Some e),
          s\<lparr>objects := put_new s (fetched K req s), prox := ((fst (prox s))\<lparr>store := c\<rparr>, w)\<rparr>)
      | None \<Rightarrow> (let ((e, v), k) = k_StatusUpdate K (set_validated (fetched K req s)) (kube s)
          in ((\<lparr>Requeue = False\<rparr>, e),
            s\<lparr>objects := put_new s v, prox := ((fst (prox s))\<lparr>store := c\<rparr>, w), kube := k\<rparr>)))"
proof -
  let ?f = "fetched K req s"
  obtain p w0 where st: "prox s = (p, w0)" by (cases "prox s")
  have key: "object_key (put_new s ?f) (new_ref s) = key_of req"
    by (simp add: object_key_put_new fetched_name [OF found])
  obtain c where c: "contents c = (contents (store p))(key_of req \<mapsto> KongFileObj (new_ref s))"
    and up: "UpdateObject S kc (put_new s ?f) (Some (KongFileObj (new_ref s))) (p, w0) =
      Return (snd (fst (FileService_Update kc (Build ?f) w0)),
        (p\<lparr>store := c\<rparr>, snd (FileService_Update kc (Build ?f) w0)))"
    using UpdateObject_file [of p "put_new s ?f" "new_ref s" w0] unfolding key by auto
  show ?thesis
    by (rule that [of c]) (use c Reconcile_pending [OF found pend, of "resolver_Proxy S kc"] up kong in
      \<open>auto simp: st resolver_Proxy_def split_def Let_def simp del: UpdateObject.simps
        split: option.splits\<close>)
qed

lemma missing_resolver:
  assumes wf: "cache_wf cached_in s" and miss: "fetch_error K req s = Some err" "k_IsNotFound K err"
    and tracked: "tracked (portal_view s) (key_of req) = Some f"
    and kong: "FileService_Delete kc f (snd (prox s)) = ((v, e), w)"
  obtains c where "contents c = (contents (store (fst (prox s))))(key_of req := None)"
    and "Reconcile (resolver_Proxy S kc) K className now req s =
      Return ((\<lparr>Requeue = (e = None)\<rparr>, e),
        s\<lparr>objects := put_new s (set_identity req (fetched K req s)),
          prox := ((fst (prox s))\<lparr>store := c\<rparr>, w)\<rparr>)"
proof -
  let ?v = "set_identity req (fetched K req s)"
  obtain p w0 where st: "prox s = (p, w0)" by (cases "prox s")
  obtain ob where ob: "cached_in (prox s) (key_of req) = Some ob" "object_file (objects s) ob = Some f"
    using tracked by (auto simp: portal_of_def bind_eq_Some_conv)
  with wf obtain r where r: "ob = KongFileObj r" "r < new_ref s" "object_key (objects s) r = key_of req"
    by (metis cache_wfE)
  have same: "at_ref (put_new s ?v) r = at_ref (objects s) r" "object_key (put_new s ?v) r = key_of req"
    using r(2,3) by (simp_all add: object_key_put_new)
  have f: "f = Build (at_ref (objects s) r)"
    using ob(2) r(1) by (simp add: object_file_def)
  obtain c where c: "contents c = (contents (store p))(key_of req := None)"
    and del: "DeleteObject S kc (put_new s ?v) (Some (KongFileObj r)) (p, w0) =
      Return (snd (fst (FileService_Delete kc f w0)), (p\<lparr>store := c\<rparr>, snd (FileService_Delete kc f w0)))"
    using DeleteObject_file [of p "put_new s ?v" r w0] unfolding same f by blast
  show ?thesis
    by (rule that [of c]) (use c del kong Reconcile_missing_cached [OF miss, of r className now] ob(1) r(1)
      in \<open>simp_all add: Let_def resolver_Proxy_def st\<close>)
qed

lemma terminating_resolver:
  assumes found: "fetch_error K req s = None" and dying: "terminating now (fetched K req s)"
    and kong: "FileService_Get kc (Build (fetched K req s)) (snd (prox s)) = ((v, e), w)"
  shows "e \<noteq> None \<Longrightarrow> Reconcile (resolver_Proxy S kc) K className now req s =
      Return ((\<lparr>Requeue = False\<rparr>, e),
        s\<lparr>objects := put_new s (fetched K req s), prox := (fst (prox s), w)\<rparr>)"
    and "e = None \<Longrightarrow> \<exists>e' t. Reconcile (resolver_Proxy S kc) K className now req s =
      Return ((\<lparr>Requeue = (e' = None)\<rparr>, e'), t)"
proof -
  let ?f = "fetched K req s" and ?P = "resolver_Proxy S kc"
  have v: "v = None \<longleftrightarrow> e \<noteq> None"
    by (rule FileService_Get_file_or_error [OF kong])
  have ex: "pr_ObjectExists ?P (put_new s ?f) (Some (KongFileObj (new_ref s))) (prox s) =
      Return ((e = None, e), (fst (prox s), w))"
    using kong v by (cases "prox s") (auto simp: resolver_Proxy_def)
  note call = Reconcile_terminating [OF found dying, of ?P className, unfolded Let_def ex]
  show "e \<noteq> None \<Longrightarrow> Reconcile ?P K className now req s =
      Return ((\<lparr>Requeue = False\<rparr>, e), s\<lparr>objects := put_new s ?f, prox := (fst (prox s), w)\<rparr>)"
    by (simp add: call)
  obtain e' p' where "pr_DeleteObject ?P (put_new s ?f) (Some (KongFileObj (new_ref s))) (fst (prox s), w) =
      Return (e', p')"
    using delete_uncaches by blast
  then show "e = None \<Longrightarrow> \<exists>e' t. Reconcile ?P K className now req s = Return ((\<lparr>Requeue = (e' = None)\<rparr>, e'), t)"
    by (simp add: call)
qed

text \<open>A resource in deletion keeps its call going: the existence check fails, or the deletion does, or
  the call asks for another one. It fails for sure once the file is gone.\<close>

lemma terminating_unsettled:
  assumes found: "fetch_error K req s = None" and dying: "terminating now (fetched K req s)"
    and ret: "Reconcile (resolver_Proxy S kc) K className now req s = Return ((res, err), t)"
  shows "err \<noteq> None \<or> Requeue res"
    and "file_Path (Build (fetched K req s)) = Some p \<Longrightarrow> plain_path p \<Longrightarrow>
      files (snd (prox s)) p = None \<Longrightarrow> err \<noteq> None"
proof -
  let ?f = "fetched K req s"
  obtain v e w where kong: "FileService_Get kc (Build ?f) (snd (prox s)) = ((v, e), w)"
    by (metis prod.exhaust)
  note call = terminating_resolver [OF found dying kong, of className]
  show "err \<noteq> None \<or> Requeue res"
    using call ret by (cases e) auto
  assume p: "file_Path (Build ?f) = Some p" "plain_path p" "files (snd (prox s)) p = None"
  then have "e \<noteq> None"
    using get_found_path [of "Build ?f" "snd (prox s)" v w p] kong by auto
  then show "err \<noteq> None"
    using call(1) ret by auto
qed

text \<open>A missing resource that is not cached: every schedule of its calls succeeds and does nothing.\<close>

lemma forgotten_calls:
  fixes s :: "(('c, 'v, 'w) resolver_state, 'k) world"
  assumes miss: "fetch_error K req s = Some err" "k_IsNotFound K err"
    and "cached_in (prox s) (key_of req) = None" and "\<forall>(now, req') \<in> set calls. req' = req"
  shows "\<exists>t. run_calls (resolver_Proxy S kc) K className calls s =
      Return (replicate (length calls) idle, t) \<and>
    prox t = prox s \<and> kube t = kube s"
proof (rule run_calls_steady [where I = "\<lambda>t. prox t = prox s \<and> kube t = kube s"])
  fix now req' and t :: "(('c, 'v, 'w) resolver_state, 'k) world"
  assume "(now, req') \<in> set calls" and t: "prox t = prox s \<and> kube t = kube s"
  then have "req' = req" using assms(4) by auto
  moreover have "fetch_error K req t = Some err"
    using fetch_cong(1) [of t s K req] t miss(1) by simp
  ultimately show "\<exists>u. Reconcile (resolver_Proxy S kc) K className now req' t =
      Return ((\<lparr>Requeue = False\<rparr>, None), u) \<and> prox u = prox s \<and> kube u = kube s"
    using Reconcile_missing_uncached [OF _ miss(2), of req t className now] t assms(3) by simp
qed simp

section \<open>Failure and recovery\<close>

text \<open>A push that Kong refuses leaves the resource as it was, so it is still pending.\<close>

lemma failed_push:
  assumes wf: "cache_wf cached_in s" and found: "fetch_error K req s = None"
    and pend: "\<not> terminating now (fetched K req s)" "ours className (fetched K req s)"
      "\<not> validated (fetched K req s)"
    and kong: "FileService_Update kc (Build (fetched K req s)) (snd (prox s)) = ((v, Some e), w)"
  shows "\<exists>t. Reconcile (resolver_Proxy S kc) K className now req s = Return ((\<lparr>Requeue = False\<rparr>, Some e), t) \<and>
    kube t = kube s \<and> tracked (portal_view t) (key_of req) = Some (Build (fetched K req s))"
proof -
  obtain c where c: "contents c = (contents (store (fst (prox s))))(key_of req \<mapsto> KongFileObj (new_ref s))"
    and call: "Reconcile (resolver_Proxy S kc) K className now req s =
      Return ((\<lparr>Requeue = False\<rparr>, Some e),
        s\<lparr>objects := put_new s (fetched K req s), prox := ((fst (prox s))\<lparr>store := c\<rparr>, w)\<rparr>)"
    by (rule pending_resolver [OF found pend kong]) simp
  show ?thesis
    using call view_file [OF wf c, where v = "fetched K req s" and w = w] by simp
qed

lemma successful_push:
  assumes found: "fetch_error K req s = None"
    and pend: "\<not> terminating now (fetched K req s)" "ours className (fetched K req s)"
      "\<not> validated (fetched K req s)"
    and plain: "plain_file (Build (fetched K req s))"
    and kong: "FileService_Update kc (Build (fetched K req s)) (snd (prox s)) = ((v, None), w)"
    and stat: "k_StatusUpdate K (set_validated (fetched K req s)) (kube s) = ((None, u), k)"
  shows "\<exists>t. Reconcile (resolver_Proxy S kc) K className now req s = Return ((\<lparr>Requeue = False\<rparr>, None), t) \<and>
    files (snd (prox t)) = publish (Build (fetched K req s)) (files (snd (prox s))) \<and>
    resources (kube t) = (resources (kube s))(req \<mapsto> set_validated (fetched K req s))"
proof -
  obtain c where call: "Reconcile (resolver_Proxy S kc) K className now req s =
      Return ((\<lparr>Requeue = False\<rparr>, None),
        s\<lparr>objects := put_new s u, prox := ((fst (prox s))\<lparr>store := c\<rparr>, w), kube := k\<rparr>)"
    by (rule pending_resolver [OF found pend kong]) (simp add: stat)
  show ?thesis
    using call publish_update [OF kong plain] status_of_fetched [OF found stat] by simp
qed

text \<open>The calls for a settled resource leave the portal as it is.\<close>

lemma settled_view:
  fixes s :: "(('c, 'v, 'w) resolver_state, 'k) world"
  assumes wf: "cache_wf cached_in s" and found: "fetch_error K req s = None"
    and settled: "\<not> ours className (fetched K req s) \<or> validated (fetched K req s)"
    and calls: "\<forall>(now, req') \<in> set calls. req' = req \<and> \<not> terminating now (fetched K req s)"
  shows "\<exists>t. run_calls (resolver_Proxy S kc) K className calls s = Return (replicate (length calls) idle, t) \<and>
    cache_wf cached_in t \<and> portal_view t = portal_view s \<and> kube t = kube s"
proof (rule run_calls_steady [where I = "\<lambda>t. cache_wf cached_in t \<and> portal_view t = portal_view s \<and> kube t = kube s"])
  fix now req' and t :: "(('c, 'v, 'w) resolver_state, 'k) world"
  assume c: "(now, req') \<in> set calls" and t: "cache_wf cached_in t \<and> portal_view t = portal_view s \<and> kube t = kube s"
  have r: "req' = req" "\<not> terminating now (fetched K req s)" using c calls by auto
  have f: "fetch_error K req t = None" "fetched K req t = fetched K req s"
    using fetch_cong [of t s K req] t found by simp_all
  show "\<exists>u. Reconcile (resolver_Proxy S kc) K className now req' t = Return (idle, u) \<and>
      cache_wf cached_in u \<and> portal_view u = portal_view s \<and> kube u = kube s"
    using Reconcile_settled [OF f(1), of now className "resolver_Proxy S kc"] f(2) settled t r
      view_same [of t] cache_wf_objects [of cached_in t] by auto
qed (simp add: wf)

text \<open>The deletion of a missing resource, with Kong's answer \<open>e\<close>: the key is forgotten either way, and
  the next call finds nothing to do.\<close>

lemma missing_then_forgotten:
  fixes s :: "(('c, 'v, 'w) resolver_state, 'k) world"
  assumes wf: "cache_wf cached_in s" and miss: "fetch_error K req s = Some err" "k_IsNotFound K err"
    and tracked: "tracked (portal_view s) (key_of req) = Some f"
    and kong: "FileService_Delete kc f (snd (prox s)) = ((v, e), w)"
  shows "\<exists>t. Reconcile (resolver_Proxy S kc) K className now req s = Return ((\<lparr>Requeue = (e = None)\<rparr>, e), t) \<and>
    portal_view t = \<lparr>tracked = (tracked (portal_view s))(key_of req := None), published = files w\<rparr> \<and>
    (\<forall>calls. (\<forall>(now', req') \<in> set calls. req' = req) \<longrightarrow>
      (\<exists>u. run_calls (resolver_Proxy S kc) K className calls t =
          Return (replicate (length calls) idle, u) \<and> prox u = prox t \<and> kube u = kube s))"
proof -
  let ?v = "set_identity req (fetched K req s)"
  obtain c where c: "contents c = (contents (store (fst (prox s))))(key_of req := None)"
    and call: "Reconcile (resolver_Proxy S kc) K className now req s =
      Return ((\<lparr>Requeue = (e = None)\<rparr>, e),
        s\<lparr>objects := put_new s ?v, prox := ((fst (prox s))\<lparr>store := c\<rparr>, w)\<rparr>)"
    by (rule missing_resolver [OF wf miss tracked kong, of className now]) blast
  let ?t = "s\<lparr>objects := put_new s ?v, prox := ((fst (prox s))\<lparr>store := c\<rparr>, w)\<rparr>"
  have view: "portal_view ?t = \<lparr>tracked = (tracked (portal_view s))(key_of req := None), published = files w\<rparr>"
    by (rule view_drop [OF wf c])
  have "\<exists>u. run_calls (resolver_Proxy S kc) K className calls ?t =
      Return (replicate (length calls) idle, u) \<and> prox u = prox ?t \<and> kube u = kube ?t"
    if "\<forall>(now', req') \<in> set calls. req' = req" for calls
    by (rule forgotten_calls [OF _ miss(2) _ that]) (simp_all add: miss(1) c)
  then show ?thesis
    using call view by simp
qed

text \<open>The object filed in the cache by a push is the one the status update writes.\<close>

lemma refused_status:
  assumes found: "fetch_error K req s = None"
    and pend: "\<not> terminating now (fetched K req s)" "ours className (fetched K req s)"
      "\<not> validated (fetched K req s)"
    and kong: "FileService_Update kc (Build (fetched K req s)) (snd (prox s)) = ((v, None), w)"
    and stat: "k_StatusUpdate K (set_validated (fetched K req s)) (kube s) = ((Some e, u), k)"
  shows "\<exists>t r. Reconcile (resolver_Proxy S kc) K className now req s = Return ((\<lparr>Requeue = False\<rparr>, Some e), t) \<and>
    kube t = k \<and> cached_in (prox t) (key_of req) = Some (KongFileObj r) \<and>
    at_ref (objects t) r = set_validated (fetched K req s)"
proof -
  have u: "u = set_validated (fetched K req s)"
    by (rule status_refused [OF stat])
  obtain c where c: "contents c = (contents (store (fst (prox s))))(key_of req \<mapsto> KongFileObj (new_ref s))"
    and call: "Reconcile (resolver_Proxy S kc) K className now req s =
      Return ((\<lparr>Requeue = False\<rparr>, Some e),
        s\<lparr>objects := put_new s u, prox := ((fst (prox s))\<lparr>store := c\<rparr>, w), kube := k\<rparr>)"
    using pending_resolver [OF found pend kong] stat by (auto simp: Let_def)
  then show ?thesis by (simp add: u)
qed

end

section \<open>Reachable states\<close>

lemma portal_env_controller:
  "portal_env S contents kc files K resources \<Longrightarrow> controller S contents K"
  by (simp add: portal_env_def controller_def kube_api_def resolver_def)

context controller
begin

lemma reach_ctrl_inv: "reach (ctrl_init S) (ctrl_step S kc K className) s \<Longrightarrow> ctrl_inv contents s"
  by (rule system.reach_inv)

text \<open>Every schedule of calls returns, from every state with the invariant.\<close>

lemma run_calls_total:
  "ctrl_inv contents s \<Longrightarrow>
    \<exists>outs t. run_calls (resolver_Proxy S kc) K className calls s = Return (outs, t) \<and>
      length outs = length calls \<and> ctrl_inv contents t"
proof (induction calls arbitrary: s)
  case Nil
  then show ?case by simp
next
  case (Cons c calls)
  obtain now req where c: "c = (now, req)" by (cases c)
  obtain out t where t: "Reconcile (resolver_Proxy S kc) K className now req s = Return (out, t)"
    "ctrl_inv contents t"
    by (rule Reconcile_returns [OF Cons.prems])
  from Cons.IH [OF t(2)] obtain outs u where
    "run_calls (resolver_Proxy S kc) K className calls t = Return (outs, u)"
    "length outs = length calls" "ctrl_inv contents u" by blast
  with t(1) show ?case by (simp add: c)
qed

end

lemma reachable_inv:
  assumes "controller S contents K"
    and "reach (ctrl_init S) (ctrl_step S kc K className) s"
  shows "cache_wf (\<lambda>st. contents (store (fst st))) s" and "resolver_ok (fst (prox s))"
  using controller.reach_ctrl_inv [OF assms] by (simp_all add: ctrl_inv_def)

lemma reachable_wf:
  assumes "portal_env S contents kc files K resources"
    and "reach (ctrl_init S) (ctrl_step S kc K className) s"
  shows "cache_wf (\<lambda>st. contents (store (fst st))) s"
  by (rule reachable_inv(1) [OF portal_env_controller [OF assms(1)] assms(2)])

text \<open>A newly constructed resolver over a new cache starts the controller.\<close>

lemma constructed_init:
  assumes "NewCacheBasedProxyWithStagger deps v0 kong0 cls rs tmo (NewCacheStores S) env = Return (Inr p, env')"
    and "fst (prox s) = p"
  shows "ctrl_init S s"
  using constructed_resolver [OF assms(1)] assms(2) by (simp add: ctrl_init_def)

lemma portal_env_new:
  "portal_env S contents kc files K resources \<Longrightarrow> contents (NewCacheStores S) = Map.empty"
  by (simp add: portal_env_def resolver_def cache_store_def NewCacheStores_def)

text \<open>No call changes the database mode.\<close>

lemma UpdateObject_dbmode:
  "pr_UpdateObject (resolver_Proxy S kc) h obj p = Return (e, p') \<Longrightarrow> dbmode (fst p') = dbmode (fst p)"
  using UpdateObject_fields [of S kc h obj "fst p" "snd p" e "fst p'" "snd p'"]
  by (auto simp: resolver_Proxy_def simp del: UpdateObject.simps)

lemma DeleteObject_dbmode:
  "pr_DeleteObject (resolver_Proxy S kc) h obj p = Return (e, p') \<Longrightarrow> dbmode (fst p') = dbmode (fst p)"
  using DeleteObject_fields [of S kc h obj "fst p" "snd p" e "fst p'" "snd p'"]
  by (auto simp: resolver_Proxy_def simp del: DeleteObject.simps)

lemma ObjectExists_dbmode:
  "pr_ObjectExists (resolver_Proxy S kc) h obj p = Return (e, p') \<Longrightarrow> dbmode (fst p') = dbmode (fst p)"
  using ObjectExists_fields [of kc h obj "fst p" "snd p" e "fst p'" "snd p'"]
  by (auto simp: resolver_Proxy_def simp del: ObjectExists.simps)

lemma step_dbmode:
  assumes "ctrl_step S kc K className s t"
  shows "dbmode (fst (prox t)) = dbmode (fst (prox s))"
  using assms
proof (rule ctrl_stepE)
  fix now req out
  assume "Reconcile (resolver_Proxy S kc) K className now req s = Return (out, t)"
  then show ?thesis
    by (rule Reconcile_keeps [where I = "\<lambda>p. dbmode (fst p) = dbmode (fst (prox s))", rotated 3])
      (simp_all add: UpdateObject_dbmode DeleteObject_dbmode ObjectExists_dbmode)
qed simp_all

lemma steps_dbmode:
  "(ctrl_step S kc K className)\<^sup>*\<^sup>* s t \<Longrightarrow> dbmode (fst (prox t)) = dbmode (fst (prox s))"
  by (induction rule: rtranclp_induct) (simp_all add: step_dbmode)

end
