(* ===== verification/Controller_Schedules.thy ===== *)
theory Controller_Schedules
  imports Controller_Runs
begin

text \<open>
  Schedules of calls for many resources, against a Kong and an API server that serve: whatever the order
  of the calls and however often each is made, every resource called for ends up published and validated,
  and nothing else moves.
\<close>

section \<open>What can be published\<close>

definition publishable :: "string \<Rightarrow> KongFile \<Rightarrow> bool" where
  "publishable className f \<longleftrightarrow>
     time_IsZero (om_DeletionTimestamp (kf_Meta f)) \<and> MatchesControllerClassName (kf_Meta f) className \<and>
     Spec_Kind (kf_Spec f) \<in> {CONTENT, ASSET, SPECIFICATION} \<and> plain_file (Build f)"

lemma Build_set_validated [simp]: "Build (set_validated f) = Build f"
  by (rule Build_spec) (simp add: set_validated_def)

lemma set_validated_twice [simp]: "set_validated (set_validated f) = set_validated f"
  by (simp add: set_validated_def)

lemma validated_set_validated [simp]: "validated (set_validated f)"
  by (simp add: validated_def set_validated_def)

lemma set_validated_id: "validated f \<Longrightarrow> set_validated f = f"
  by (cases f; cases "kf_Status f") (simp add: validated_def set_validated_def)

lemma publishable_set_validated [simp]: "publishable c (set_validated f) = publishable c f"
  by (simp add: publishable_def) (simp add: set_validated_def)

lemma publishable_path:
  assumes "publishable c f"
  shows "\<not> isEmptyString (file_Path (Build f))" and "\<exists>p. file_Path (Build f) = Some p"
proof -
  show "\<not> isEmptyString (file_Path (Build f))"
    using assms by (auto simp: publishable_def Build_path_blank_iff kind_prefix_def)
  then show "\<exists>p. file_Path (Build f) = Some p" by (rule not_isEmptyStringD)
qed

text \<open>A resource of another class, or none, is left as it is; one of our class awaits its push until it is
  validated.\<close>

definition foreign :: "string \<Rightarrow> KongFile \<Rightarrow> bool" where
  "foreign className f \<longleftrightarrow> time_IsZero (om_DeletionTimestamp (kf_Meta f)) \<and> \<not> ours className f"

definition servable :: "string \<Rightarrow> KongFile \<Rightarrow> bool" where
  "servable className f \<longleftrightarrow> publishable className f \<or> foreign className f"

definition awaits :: "string \<Rightarrow> KongFile \<Rightarrow> bool" where
  "awaits className f \<longleftrightarrow> ours className f \<and> \<not> validated f"

definition synced :: "string \<Rightarrow> KongFile \<Rightarrow> KongFile" where
  "synced className f = (if ours className f then set_validated f else f)"

lemma ours_set_validated [simp]: "ours c (set_validated f) = ours c f"
  by (simp add: ours_def set_validated_def)

lemma meta_set_validated [simp]: "kf_Meta (set_validated f) = kf_Meta f"
  by (simp add: set_validated_def)

lemma publishable_ours: "publishable c f \<Longrightarrow> ours c f"
  by (simp add: publishable_def ours_def)

lemma synced_simps [simp]:
  "Build (synced c f) = Build f" "ours c (synced c f) = ours c f" "servable c (synced c f) = servable c f"
  "synced c (synced c f) = synced c f" "\<not> awaits c (synced c f)"
  by (simp_all add: synced_def servable_def foreign_def awaits_def)

lemma synced_id: "\<not> awaits c f \<Longrightarrow> synced c f = f"
  by (auto simp: synced_def awaits_def set_validated_id)

lemma synced_eq_iff [simp]: "synced c f = f \<longleftrightarrow> \<not> awaits c f" "f = synced c f \<longleftrightarrow> \<not> awaits c f"
  using synced_id synced_simps(5) by metis+

text \<open>No two of the resources of our class build the same path.\<close>

definition paths_apart :: "string \<Rightarrow> (NamespacedName \<Rightarrow> KongFile option) \<Rightarrow> NamespacedName set \<Rightarrow> bool" where
  "paths_apart c res R \<longleftrightarrow>
     (\<forall>req \<in> R. \<forall>req' \<in> R. \<forall>f f'. res req = Some f \<longrightarrow> res req' = Some f' \<longrightarrow> req \<noteq> req' \<longrightarrow>
       ours c f \<longrightarrow> ours c f' \<longrightarrow> file_Path (Build f) \<noteq> file_Path (Build f'))"

lemma paths_apart_synced:
  "paths_apart c res R \<Longrightarrow> res req = Some f \<Longrightarrow> paths_apart c (res(req \<mapsto> synced c f)) R"
  by (auto simp: paths_apart_def)

section \<open>Environments that serve\<close>

text \<open>As long as it is \<open>up\<close>, Kong takes every push of a plain file, and stays up; as long as it is \<open>ready\<close>,
  the API server gives every resource it has and stores every status, and stays ready.\<close>

locale serving_env = portal_env S contents kc files K resources
  for S :: "'c cache_Store" and contents :: "'c \<Rightarrow> string \<Rightarrow> Object option"
    and kc :: "('w, 'r) kong_Client" and files :: "'w \<Rightarrow> string \<Rightarrow> string option"
    and K :: "'k k8s_Client" and resources :: "'k \<Rightarrow> NamespacedName \<Rightarrow> KongFile option" +
  fixes up :: "'w \<Rightarrow> bool" and ready :: "'k \<Rightarrow> bool"
  assumes push_serves: "up w \<Longrightarrow> plain_file g \<Longrightarrow> \<not> isEmptyString (file_Path g) \<Longrightarrow>
      \<exists>v w'. FileService_Update kc g w = ((v, None), w') \<and> up w'"
    and get_serves: "ready k \<Longrightarrow> resources k req = Some f \<Longrightarrow> k_Get K req zero_KongFile k = (None, f)"
    and status_serves: "ready k \<Longrightarrow> resources k (name_of v) = Some f \<Longrightarrow>
      \<exists>v' k'. k_StatusUpdate K v k = ((None, v'), k') \<and> ready k'"
begin

lemma serve_one:
  assumes env: "up (snd (prox s))" "ready (kube s)"
    and f: "resources (kube s) req = Some f" "servable className f"
  shows "\<exists>t. Reconcile (resolver_Proxy S kc) K className now req s = Return (idle, t) \<and>
    up (snd (prox t)) \<and> ready (kube t) \<and>
    resources (kube t) = (resources (kube s))(req \<mapsto> synced className f) \<and>
    files (snd (prox t)) =
      (if awaits className f then publish (Build f) (files (snd (prox s))) else files (snd (prox s)))"
proof -
  have found: "fetch_error K req s = None" "fetched K req s = f"
    using get_serves [OF env(2) f(1)] by (simp_all add: fetch_error_def fetched_def)
  have alive: "\<not> terminating now f"
    using f(2) by (auto simp: servable_def publishable_def foreign_def terminating_def)
  show ?thesis
  proof (cases "awaits className f")
    case False
    then show ?thesis
      using Reconcile_settled [OF found(1), of now className "resolver_Proxy S kc"] found(2) alive env f(1)
      by (auto simp: synced_id fun_upd_idem awaits_def)
  next
    case True
    then have pub: "publishable className f" and pend: "ours className f" "\<not> validated f"
      using f(2) by (auto simp: servable_def foreign_def awaits_def)
    obtain v w where kong: "FileService_Update kc (Build f) (snd (prox s)) = ((v, None), w)" "up w"
      using push_serves [OF env(1) _ publishable_path(1) [OF pub]] pub by (auto simp: publishable_def)
    have "name_of f = req"
      using fetched_name [OF found(1)] found(2) by simp
    then obtain g k where stat: "k_StatusUpdate K (set_validated f) (kube s) = ((None, g), k)" "ready k"
      using status_serves [OF env(2), of "set_validated f" f] f(1) by auto
    obtain c where "Reconcile (resolver_Proxy S kc) K className now req s = Return (idle,
        s\<lparr>objects := put_new s g, prox := ((fst (prox s))\<lparr>store := c\<rparr>, w), kube := k\<rparr>)"
      using pending_resolver [OF found(1), of now className v None w] found(2) alive pend kong(1) stat(1)
      by auto
    moreover have "files w = publish (Build f) (files (snd (prox s)))"
      using publish_update [OF kong(1)] pub by (simp add: publishable_def)
    moreover have "resources k = (resources (kube s))(req \<mapsto> set_validated f)"
      using status_of_fetched [OF found(1)] stat(1) found(2) by auto
    ultimately show ?thesis
      using kong(2) stat(2) True by (simp add: synced_def awaits_def)
  qed
qed

text \<open>The schedule, call by call.\<close>

lemma serve_schedule:
  assumes "up (snd (prox s))" and "ready (kube s)"
    and "snd ` set calls \<subseteq> R"
    and "\<And>req. req \<in> R \<Longrightarrow> \<exists>f. resources (kube s) req = Some f \<and> servable className f"
    and "paths_apart className (resources (kube s)) R"
  shows "\<exists>t. run_calls (resolver_Proxy S kc) K className calls s = Return (replicate (length calls) idle, t) \<and>
    (\<forall>req. resources (kube t) req =
      (if req \<in> snd ` set calls then map_option (synced className) (resources (kube s) req)
       else resources (kube s) req)) \<and>
    (\<forall>req \<in> snd ` set calls. \<forall>f p. resources (kube s) req = Some f \<longrightarrow> awaits className f \<longrightarrow>
      file_Path (Build f) = Some p \<longrightarrow> files (snd (prox t)) p = file_Contents (Build f)) \<and>
    (\<forall>q. (\<forall>req \<in> snd ` set calls. \<forall>f. resources (kube s) req = Some f \<longrightarrow> awaits className f \<longrightarrow>
        file_Path (Build f) \<noteq> Some q) \<longrightarrow> files (snd (prox t)) q = files (snd (prox s)) q)"
  using assms
proof (induction calls arbitrary: s)
  case Nil
  then show ?case by simp
next
  case (Cons c calls)
  obtain now req where c: "c = (now, req)" by (cases c)
  have R: "req \<in> R" "snd ` set calls \<subseteq> R" using Cons.prems(3) by (auto simp: c)
  from Cons.prems(4) [OF R(1)] obtain f where f: "resources (kube s) req = Some f" "servable className f"
    by blast
  from serve_one [OF Cons.prems(1,2) f, of now] obtain t1 where
    call: "Reconcile (resolver_Proxy S kc) K className now req s = Return (idle, t1)"
    and env1: "up (snd (prox t1))" "ready (kube t1)"
    and res1: "resources (kube t1) = (resources (kube s))(req \<mapsto> synced className f)"
    and files1: "files (snd (prox t1)) =
      (if awaits className f then publish (Build f) (files (snd (prox s))) else files (snd (prox s)))"
    by blast
  have pub: "\<exists>g. resources (kube t1) req' = Some g \<and> servable className g" if "req' \<in> R" for req'
    using Cons.prems(4) [OF that] f by (auto simp: res1)
  have apart: "paths_apart className (resources (kube t1)) R"
    unfolding res1 by (rule paths_apart_synced [OF Cons.prems(5) f(1)])
  from Cons.IH [OF env1 R(2) pub apart] obtain t where
    ih: "run_calls (resolver_Proxy S kc) K className calls t1 = Return (replicate (length calls) idle, t) \<and>
      (\<forall>req. resources (kube t) req =
        (if req \<in> snd ` set calls then map_option (synced className) (resources (kube t1) req)
         else resources (kube t1) req)) \<and>
      (\<forall>req \<in> snd ` set calls. \<forall>f p. resources (kube t1) req = Some f \<longrightarrow> awaits className f \<longrightarrow>
        file_Path (Build f) = Some p \<longrightarrow> files (snd (prox t)) p = file_Contents (Build f)) \<and>
      (\<forall>q. (\<forall>req \<in> snd ` set calls. \<forall>f. resources (kube t1) req = Some f \<longrightarrow> awaits className f \<longrightarrow>
          file_Path (Build f) \<noteq> Some q) \<longrightarrow> files (snd (prox t)) q = files (snd (prox t1)) q)" ..
  note rest = ih [THEN conjunct1] and tail = ih [THEN conjunct2]
  note res = tail [THEN conjunct1, rule_format]
    and done_files = tail [THEN conjunct2, THEN conjunct1, rule_format]
    and kept = tail [THEN conjunct2, THEN conjunct2, rule_format]
  have old: "req' \<noteq> req \<and> resources (kube s) req' = Some g"
    if "resources (kube t1) req' = Some g" "awaits className g" for req' g
    using that by (auto simp: res1 split: if_splits)
  have own: "files (snd (prox t)) p = file_Contents (Build f)" if "awaits className f" "file_Path (Build f) = Some p" for p
  proof -
    have "files (snd (prox t)) p = files (snd (prox t1)) p"
    proof (rule kept)
      fix req' g
      assume "req' \<in> snd ` set calls" "resources (kube t1) req' = Some g" "awaits className g"
      with old [OF this(2,3)] R Cons.prems(5) f(1) that show "file_Path (Build g) \<noteq> Some p"
        by (fastforce simp: paths_apart_def awaits_def)
    qed
    then show ?thesis using that by (simp add: files1 publish_def)
  qed
  have other: "files (snd (prox t)) q = files (snd (prox s)) q"
    if no: "\<And>req' g. req' \<in> snd ` set (c # calls) \<Longrightarrow> resources (kube s) req' = Some g \<Longrightarrow>
      awaits className g \<Longrightarrow> file_Path (Build g) \<noteq> Some q" for q
  proof -
    have "files (snd (prox t)) q = files (snd (prox t1)) q"
    proof (rule kept)
      fix req' g
      assume later: "req' \<in> snd ` set calls" and "resources (kube t1) req' = Some g" "awaits className g"
      with old [OF this(2,3)] no [of req' g] show "file_Path (Build g) \<noteq> Some q" by simp
    qed
    also have "\<dots> = files (snd (prox s)) q"
      using no [of req f] f(1) by (auto simp: files1 publish_def c split: option.split)
    finally show ?thesis .
  qed
  have done_all: "files (snd (prox t)) q = file_Contents (Build g)"
    if "req' \<in> snd ` set (c # calls)" "resources (kube s) req' = Some g" "awaits className g"
      "file_Path (Build g) = Some q" for req' g q
    using that own [of q] f(1) done_files [of req' g q] by (cases "req' = req") (auto simp: c res1)
  have res_all: "resources (kube t) req' =
      (if req' \<in> snd ` set (c # calls) then map_option (synced className) (resources (kube s) req')
       else resources (kube s) req')" for req'
    using f(1) by (auto simp: res res1 c)
  have "run_calls (resolver_Proxy S kc) K className (c # calls) s =
      Return (replicate (length (c # calls)) idle, t)"
    using call rest by (simp add: c)
  then show ?case
    by (intro exI [of _ t] conjI allI ballI impI) (simp_all only: res_all, (blast intro: done_all other)+)
qed

end

end
