(* ===== verification/Reference_Env.thy ===== *)
theory Reference_Env
  imports Controller_Schedules
begin

text \<open>
  An environment that meets the contracts of the development, to run the model on: a Kubernetes API
  server that keeps its resources in a map (beside the table of \<^verbatim>\<open>Cache_Stores\<close> and the Kong of
  \<^verbatim>\<open>File_Service\<close>), the interpretations of the controller's interfaces on it, and sample resources.
\<close>

section \<open>A lawful API server\<close>

text \<open>The first component of the state lists answers to come to status updates, \<^const>\<open>False\<close> for a conflict.\<close>

type_synonym mem_kube = "bool list \<times> (NamespacedName \<Rightarrow> KongFile option)"

definition kube_not_found :: error where
  "kube_not_found = External ''NotFound''"

definition mem_get :: "NamespacedName \<Rightarrow> KongFile \<Rightarrow> mem_kube \<Rightarrow> error option \<times> KongFile" where
  "mem_get req z k =
     (case snd k req of
        None \<Rightarrow> (Some kube_not_found, z)
      | Some f \<Rightarrow> if name_of f = req then (None, f) else (Some (External ''InternalError''), z))"

fun mem_status :: "KongFile \<Rightarrow> mem_kube \<Rightarrow> (error option \<times> KongFile) \<times> mem_kube" where
  "mem_status v (False # answers, m) = ((Some (External ''Conflict''), v), (answers, m))"
| "mem_status v (answers, m) =
     (case m (name_of v) of
        None \<Rightarrow> ((Some kube_not_found, v), (tl answers, m))
      | Some f \<Rightarrow>
          if name_of f = name_of v then
            (let f' = f\<lparr>kf_Status := kf_Status v\<rparr>
             in ((None, f'), (tl answers, m(name_of v \<mapsto> f'))))
          else ((Some (External ''InternalError''), v), (tl answers, m)))"

definition mem_kube_client :: "mem_kube k8s_Client" where
  "mem_kube_client =
     \<lparr>k_Get = mem_get, k_IsNotFound = (\<lambda>e. e = kube_not_found), k_StatusUpdate = mem_status\<rparr>"

lemma name_of_status [simp]: "name_of (f\<lparr>kf_Status := x\<rparr>) = name_of f"
  by (simp add: name_of_def)

lemma mem_status_cases:
  assumes "mem_status v k = ((e, v'), k')"
  shows "e \<noteq> None \<and> v' = v \<or>
    (\<exists>f. e = None \<and> snd k (name_of v) = Some f \<and> name_of f = name_of v \<and>
      v' = f\<lparr>kf_Status := kf_Status v\<rparr> \<and> snd k' = (snd k)(name_of v \<mapsto> v'))"
  using assms
  by (cases "(v, k)" rule: mem_status.cases) (auto simp: Let_def split: option.splits if_splits)

interpretation mem_api: kube_api mem_kube_client snd
proof
  fix req z k v e v' k' f
  show "k_Get mem_kube_client req z k = (None, v) \<Longrightarrow> name_of v = req"
    and "k_Get mem_kube_client req z k = (None, v) \<Longrightarrow> snd k req = Some v"
    and "k_Get mem_kube_client req z k = (Some e, v) \<Longrightarrow> k_IsNotFound mem_kube_client e \<Longrightarrow>
      snd k req = None"
    by (auto simp: mem_kube_client_def mem_get_def kube_not_found_def split: option.splits if_splits)
next
  fix v e v' k k'
  show "k_StatusUpdate mem_kube_client v k = ((e, v'), k') \<Longrightarrow> name_of v' = name_of v"
    using mem_status_cases [of v k e v' k'] by (auto simp: mem_kube_client_def)
next
  fix v v' f and k k' :: mem_kube
  show "k_StatusUpdate mem_kube_client v k = ((None, v'), k') \<Longrightarrow> snd k (name_of v) = Some f \<Longrightarrow>
      v' = f\<lparr>kf_Status := kf_Status v\<rparr> \<and> snd k' = (snd k)(name_of v \<mapsto> v')"
    using mem_status_cases [of v k None v' k'] by (auto simp: mem_kube_client_def)
next
  fix v e v' k k'
  show "k_StatusUpdate mem_kube_client v k = ((Some e, v'), k') \<Longrightarrow> v' = v"
    using mem_status_cases [of v k "Some e" v' k'] by (auto simp: mem_kube_client_def)
qed

interpretation model: portal_env table_store DAList.lookup mem_client snd mem_kube_client snd
  by unfold_locales

text \<open>Kong and the API server serve once no failure is scripted any more.\<close>

definition answers_all :: "mem_kong \<Rightarrow> bool" where
  "answers_all w \<longleftrightarrow> fst w = []"

definition names_right :: "mem_kube \<Rightarrow> bool" where
  "names_right k \<longleftrightarrow> fst k = [] \<and> (\<forall>req f. snd k req = Some f \<longrightarrow> name_of f = req)"

lemma mem_update_served:
  assumes "answers_all w" and "\<not> isEmptyString (file_Path g)"
  shows "\<exists>v w'. FileService_Update mem_client g w = ((v, None), w') \<and> answers_all w'"
  using assms
  by (cases w)
    (auto simp: answers_all_def FileService_Update_def request_response_def mem_client_requests
      dest!: not_isEmptyStringD)

lemma mem_status_served:
  assumes "names_right k" and "snd k (name_of v) = Some f"
  shows "\<exists>v' k'. k_StatusUpdate mem_kube_client v k = ((None, v'), k') \<and> names_right k'"
  using assms
  by (cases k) (auto simp: names_right_def mem_kube_client_def Let_def)

interpretation serving_model: serving_env table_store DAList.lookup mem_client snd mem_kube_client snd
    answers_all names_right
proof
  show "\<exists>v w'. FileService_Update mem_client g w = ((v, None), w') \<and> answers_all w'"
    if "answers_all w" "\<not> isEmptyString (file_Path g)" for w g
    by (rule mem_update_served [OF that])
  show "k_Get mem_kube_client req zero_KongFile k = (None, f)" if "names_right k" "snd k req = Some f" for k req f
    using that by (simp add: names_right_def mem_kube_client_def mem_get_def)
  show "\<exists>v' k'. k_StatusUpdate mem_kube_client v k = ((None, v'), k') \<and> names_right k'"
    if "names_right k" "snd k (name_of v) = Some f" for k v f
    by (rule mem_status_served [OF that])
qed

interpretation kong_controller: controller table_store DAList.lookup mem_client mem_kube_client
    DefaultControllerClass
  by unfold_locales

section \<open>Sample resources\<close>

definition sample_name :: NamespacedName where
  "sample_name = \<lparr>nn_Namespace = ''default'', nn_Name = ''my-kong-file''\<rparr>"

text \<open>The resource of \<^verbatim>\<open>cr-kongfile.yaml\<close>, with a one-line content.\<close>

definition sample_file :: KongFile where
  "sample_file =
     \<lparr>kf_TypeMeta = \<lparr>tm_Kind = ''KongFile'', tm_APIVersion = ''developer.konghq.com/v1''\<rparr>,
      kf_Meta = \<lparr>om_Name = ''my-kong-file'', om_Namespace = ''default'',
        om_Annotations = [ControllerClassKey \<mapsto> ''kong''], om_DeletionTimestamp = None\<rparr>,
      kf_Spec = \<lparr>Spec_Layout = ''data.html'', Spec_Path = ''products'', Spec_Title = ''test'',
        Spec_Name = ''test.txt'', Spec_Content = ''Yeah'', Spec_Kind = CONTENT\<rparr>,
      kf_Status = \<lparr>Validated = False\<rparr>\<rparr>"

text \<open>A second resource, of another kind.\<close>

definition other_name :: NamespacedName where
  "other_name = \<lparr>nn_Namespace = ''default'', nn_Name = ''logo''\<rparr>"

definition other_file :: KongFile where
  "other_file = sample_file
     \<lparr>kf_Meta := (kf_Meta sample_file)\<lparr>om_Name := ''logo''\<rparr>,
      kf_Spec := (kf_Spec sample_file)\<lparr>Spec_Name := ''logo.svg'', Spec_Kind := ASSET\<rparr>\<rparr>"

definition sample_resolver :: "((string, Object) alist, string) CachedProxyResolver" where
  "sample_resolver =
     \<lparr>configApplied = False,
      kongConfig = \<lparr>URL = ''http://localhost:8001'', InMemory = False, Version = ''2.8.0'', Concurrency = 10\<rparr>,
      enableReverseSync = False, dbmode = ''postgres'', version = ''2.8.0'',
      store = NewCacheStores table_store, promMetrics = Some controllerMetrics,
      controllerClassName = ''kong'', proxyRequestTimeout = 10\<rparr>"

type_synonym model_world =
  "(((string, Object) alist, string, mem_kong) resolver_state, mem_kube) world"

text \<open>The controller right after its start, given the answers to come of Kong and of the API server, the
  files Kong has, and the resources.\<close>

definition started :: "bool list \<Rightarrow> (string \<rightharpoonup> string) \<Rightarrow> bool list \<Rightarrow> (NamespacedName \<Rightarrow> KongFile option) \<Rightarrow>
    model_world" where
  "started kongAnswers kongFiles kubeAnswers res =
     \<lparr>objects = \<lparr>at_ref = (\<lambda>_. zero_KongFile), next_ref = 0\<rparr>,
      prox = (sample_resolver, (kongAnswers, kongFiles)),
      kube = (kubeAnswers, res)\<rparr>"

lemma sample_resolver_ok: "resolver_ok sample_resolver"
  by (simp add: resolver_ok_def sample_resolver_def in_memory_of_def)

lemma started_init: "ctrl_init table_store (started ka kf a res)"
  by (simp add: ctrl_init_def started_def sample_resolver_ok)
    (simp add: sample_resolver_def)

lemma started_inv: "ctrl_inv DAList.lookup (started ka kf a res)"
  by (rule kong_controller.system.inv_init) (rule started_init)

text \<open>A Kong that answers the root request with its database mode, a version parser that takes what it is
  given, and a registry of names.\<close>

definition root_of :: "string \<Rightarrow> string \<Rightarrow> dyn option" where
  "root_of mode =
     [''configuration'' \<mapsto> DMap [''database'' \<mapsto> DString mode], ''version'' \<mapsto> DString ''2.8.0'']"

definition sample_deps :: "string \<Rightarrow> ('w, string, string list) init_deps" where
  "sample_deps mode =
     \<lparr>id_Root = (\<lambda>timeout w. (Inr (root_of mode), w)),
      id_VersionFromInfo = (\<lambda>info. case dyn_index info ''version'' of DString v \<Rightarrow> v | _ \<Rightarrow> []),
      id_ParseSemanticVersion = Inr,
      id_MustRegister = names_register\<rparr>"

definition sample_kong :: "string Kong" where
  "sample_kong = \<lparr>URL = ''http://localhost:8001'', InMemory = False, Version = [], Concurrency = 10\<rparr>"

lemmas sample_init = NewCacheBasedProxyWithStagger_def sample_deps_def root_of_def sample_kong_def
  kongRootWithTimeout_def dyn_index_def in_memory_of_def NewCtrlFuncMetrics_def controllerMetrics_def
  metric_name_defs

section \<open>Running the model\<close>

lemma started_reach: "reach (ctrl_init table_store) (ctrl_step table_store mem_client mem_kube_client className)
    (started ka kf a res)"
  by (rule reach_init) (rule started_init)

lemma started_parts [simp]:
  "next_ref (objects (started ka kf a res)) = 0"
  "prox (started ka kf a res) = (sample_resolver, (ka, kf))"
  "kube (started ka kf a res) = (a, res)"
  by (simp_all add: started_def)

lemma started_fetch:
  "fetch_error mem_kube_client req (started ka kf a res) =
    (case res req of None \<Rightarrow> Some kube_not_found
     | Some f \<Rightarrow> if name_of f = req then None else Some (External ''InternalError''))"
  "fetched mem_kube_client req (started ka kf a res) =
    (case res req of None \<Rightarrow> zero_KongFile | Some f \<Rightarrow> if name_of f = req then f else zero_KongFile)"
  by (simp_all add: fetch_error_def fetched_def mem_kube_client_def mem_get_def split: option.split)

lemma sample_facts [simp]:
  "name_of sample_file = sample_name"
  "ours ''kong'' sample_file" "\<not> validated sample_file" "\<not> terminating now sample_file"
  "file_Path (Build sample_file) = Some ''content/products/test.txt''"
  by (simp_all add: sample_file_def sample_name_def name_of_def ours_def validated_def terminating_def
      MatchesControllerClassName_iff Build_def kind_defs zero_File_def)

lemma sample_plain: "plain_file (Build sample_file)"
  by (simp add: plain_file_def plain_path_def plain_char_def Let_def)

lemma other_facts [simp]:
  "name_of other_file = other_name" "other_name \<noteq> sample_name" "sample_name \<noteq> other_name" "\<not> validated other_file"
  "file_Path (Build other_file) = Some ''base/assets/products/logo.svg''"
  "file_Contents (Build other_file) = Some ''Yeah''"
  by (simp_all add: other_file_def other_name_def sample_name_def sample_file_def name_of_def validated_def
      Build_def kind_defs zero_File_def)

lemma samples_publishable [simp]:
  "publishable ''kong'' sample_file" "publishable ''kong'' other_file"
proof -
  show "publishable ''kong'' sample_file"
    using sample_plain by (simp add: publishable_def) (simp add: sample_file_def MatchesControllerClassName_iff)
  have "plain_file (Build other_file)"
    by (simp add: plain_file_def plain_path_def plain_char_def Let_def)
  then show "publishable ''kong'' other_file"
    by (simp add: publishable_def) (simp add: other_file_def sample_file_def MatchesControllerClassName_iff)
qed

lemma samples_served [simp]:
  "servable ''kong'' sample_file" "servable ''kong'' other_file"
  "awaits ''kong'' sample_file" "awaits ''kong'' other_file"
  using publishable_ours [OF samples_publishable(1)] publishable_ours [OF samples_publishable(2)]
  by (simp_all add: servable_def awaits_def)

text \<open>The first one in another namespace.\<close>

definition staging_name :: NamespacedName where
  "staging_name = sample_name\<lparr>nn_Namespace := ''staging''\<rparr>"

definition staging_file :: KongFile where
  "staging_file = sample_file\<lparr>kf_Meta := (kf_Meta sample_file)\<lparr>om_Namespace := ''staging''\<rparr>\<rparr>"

lemma staging_facts:
  "name_of staging_file = staging_name" "name_of (set_validated staging_file) = staging_name" "sample_name \<noteq> staging_name"
  "Validated (kf_Status (set_validated staging_file))"
  "time_IsZero (om_DeletionTimestamp (kf_Meta staging_file))"
  "file_Path (Build staging_file) = Some ''content/products/test.txt''"
  by (simp_all add: staging_file_def staging_name_def sample_name_def sample_file_def name_of_def set_validated_def
      Build_def kind_defs zero_File_def)

text \<open>The rules that evaluate a call on a concrete state.\<close>

lemmas model_run =
  Reconcile_def EnsureProxyDeleteObject_def Let_def resolver_Proxy_def mem_kube_client_def mem_get_def
  name_of_def MatchesControllerClassName_iff set_validated_def set_identity_def CacheStores_defs
  table_store_def FileService_defs Build_def kind_defs zero_File_def isEmptyString_Cons prefix_starts
  request_response_def mem_client_def mem_request_of_def file_of_def endpoint_def new_KongFile_def
  write_ref_def object_key_def kube_not_found_def target_def sample_name_def sample_file_def
  zero_KongFile_def DefaultControllerClass_def

text \<open>The state after the sample has been pushed and then removed from the API server, with the answers
  Kong is to give next.\<close>

definition pushed_then_removed :: "bool list \<Rightarrow> model_world" where
  "pushed_then_removed ka =
     \<lparr>objects = \<lparr>at_ref = (\<lambda>_. zero_KongFile)(0 := set_validated sample_file), next_ref = 1\<rparr>,
      prox = (sample_resolver\<lparr>store := DAList.update ''default/my-kong-file'' (KongFileObj 0)
          (NewCacheStores table_store)\<rparr>,
        (ka, publish (Build sample_file) Map.empty)),
      kube = ([], Map.empty)\<rparr>"

lemma pushed_then_removed_reach:
  "reach (ctrl_init table_store) (ctrl_step table_store mem_client mem_kube_client ''kong'')
    (pushed_then_removed ka)"
proof -
  let ?step = "ctrl_step table_store mem_client mem_kube_client ''kong''"
  define s where "s = (started [] Map.empty [] [sample_name \<mapsto> sample_file] :: model_world)"
  define t where "t = (pushed_then_removed ka)
    \<lparr>prox := (fst (prox (pushed_then_removed ka)), ([], publish (Build sample_file) Map.empty)),
     kube := ([], [sample_name \<mapsto> set_validated sample_file])\<rparr>"
  have "Reconcile (resolver_Proxy table_store mem_client) mem_kube_client ''kong'' 5 sample_name s =
      Return (idle, t)"
    by (simp add: model_run s_def t_def sample_resolver_def started_def pushed_then_removed_def publish_def
        fun_eq_iff)
  then have "?step s t" by (rule ctrl_step.reconciles)
  with started_reach have "reach (ctrl_init table_store) ?step t"
    unfolding s_def by (rule reach_step)
  then have "reach (ctrl_init table_store) ?step (t\<lparr>kube := ([], Map.empty)\<rparr>)"
    by (rule reach_step) (rule ctrl_step.kube_moves)
  then have "reach (ctrl_init table_store) ?step
      (t\<lparr>kube := ([], Map.empty)\<rparr>\<lparr>prox := (fst (prox (t\<lparr>kube := ([], Map.empty)\<rparr>)),
         (ka, publish (Build sample_file) Map.empty))\<rparr>)"
    by (rule reach_step) (rule ctrl_step.kong_moves)
  then show ?thesis
    by (simp add: t_def pushed_then_removed_def)
qed

lemma pushed_then_removed_tracks:
  "tracked (portal_of DAList.lookup snd (pushed_then_removed ka)) (key_of sample_name) = Some (Build sample_file)"
  "published (portal_of DAList.lookup snd (pushed_then_removed ka)) = publish (Build sample_file) Map.empty"
  "kube (pushed_then_removed ka) = ([], Map.empty)"
  "snd (prox (pushed_then_removed ka)) = (ka, publish (Build sample_file) Map.empty)"
proof -
  have "Build (set_validated sample_file) = Build sample_file"
    by (rule Build_spec) (simp add: set_validated_def)
  then show "tracked (portal_of DAList.lookup snd (pushed_then_removed ka)) (key_of sample_name) =
      Some (Build sample_file)"
    by (simp add: portal_of_def pushed_then_removed_def key_of_def sample_name_def object_file_def)
qed (simp_all add: portal_of_def pushed_then_removed_def)

text \<open>The state after the sample has been pushed from two namespaces and then removed from the first.\<close>

lemma staging_same_file: "Build staging_file = Build sample_file"
  by (rule Build_spec) (simp add: staging_file_def)

definition shared_then_removed :: model_world where
  "shared_then_removed =
     \<lparr>objects = \<lparr>at_ref = (\<lambda>_. zero_KongFile)(0 := set_validated sample_file, 1 := set_validated staging_file),
        next_ref = 2\<rparr>,
      prox = (sample_resolver\<lparr>store := DAList.update ''staging/my-kong-file'' (KongFileObj 1)
          (DAList.update ''default/my-kong-file'' (KongFileObj 0) (NewCacheStores table_store))\<rparr>,
        ([], publish (Build sample_file) Map.empty)),
      kube = ([], [staging_name \<mapsto> set_validated staging_file])\<rparr>"

lemma shared_then_removed_reach:
  "reach (ctrl_init table_store) (ctrl_step table_store mem_client mem_kube_client ''kong'') shared_then_removed"
proof -
  let ?step = "ctrl_step table_store mem_client mem_kube_client ''kong''"
  define s where "s = (pushed_then_removed [])
    \<lparr>kube := ([], [sample_name \<mapsto> set_validated sample_file, staging_name \<mapsto> staging_file])\<rparr>"
  define t where "t = shared_then_removed
    \<lparr>kube := ([], [sample_name \<mapsto> set_validated sample_file, staging_name \<mapsto> set_validated staging_file])\<rparr>"
  have s: "reach (ctrl_init table_store) ?step s"
    unfolding s_def by (rule reach_step [OF pushed_then_removed_reach]) (rule ctrl_step.kube_moves)
  have "Reconcile (resolver_Proxy table_store mem_client) mem_kube_client ''kong'' 5 staging_name s =
      Return (idle, t)"
    by (simp add: model_run s_def t_def sample_resolver_def pushed_then_removed_def shared_then_removed_def publish_def
        staging_name_def staging_file_def fun_eq_iff)
  then have "?step s t" by (rule ctrl_step.reconciles)
  with s have "reach (ctrl_init table_store) ?step t" by (rule reach_step)
  then have "reach (ctrl_init table_store) ?step (t\<lparr>kube := ([], [staging_name \<mapsto> set_validated staging_file])\<rparr>)"
    by (rule reach_step) (rule ctrl_step.kube_moves)
  then show ?thesis
    by (simp add: t_def shared_then_removed_def)
qed

lemma shared_then_removed_tracks:
  "tracked (portal_of DAList.lookup snd shared_then_removed) (key_of sample_name) = Some (Build sample_file)"
  "tracked (portal_of DAList.lookup snd shared_then_removed) (key_of staging_name) = Some (Build staging_file)"
  "published (portal_of DAList.lookup snd shared_then_removed) = publish (Build staging_file) Map.empty"
  "kube shared_then_removed = ([], [staging_name \<mapsto> set_validated staging_file])"
  by (simp_all add: portal_of_def shared_then_removed_def key_of_def sample_name_def staging_name_def object_file_def
      staging_same_file)

end
