(* ===== verification/Controller_Queue.thy ===== *)
theory Controller_Queue
  imports Reference_Env
begin

text \<open>
  The reconciler behind its event filter and its work queue: \<^verbatim>\<open>SetupWithManager\<close> gives
  controller-runtime the filter of \<^verbatim>\<open>utils.go\<close>, and from then on the reconciler is called for the names
  the queue hands out.

  controller-runtime is outside the repository, and only its documented behaviour is used: every change
  of a resource is an event, and so is every resource that exists at the start; an event that passes
  the filter files the name of its resource in the queue; a call that fails or asks for it files its name
  again. The queue itself is a parameter with its contract, the locale \<open>work_queue\<close>. Delivery is idealised:
  an event is filed together with the change it reports, and a call reads the API server as it is. The watches
  of a cluster are asynchronous, and the manager's client may read from a cache that lags behind.

  The theory shows that no pending resource is ever forgotten, and what the filter costs: the file of a
  resource that lost its class before it was deleted stays.
\<close>

section \<open>Queue and events\<close>

record 'q WorkQueue =
  q_add :: "NamespacedName \<Rightarrow> 'q \<Rightarrow> 'q"
  q_get :: "'q \<Rightarrow> (NamespacedName \<times> 'q) option"

locale work_queue =
  fixes Q :: "'q WorkQueue" and pending :: "'q \<Rightarrow> NamespacedName set"
  assumes pending_add: "pending (q_add Q req q) = insert req (pending q)"
    and pending_get: "q_get Q q = Some (req, q') \<Longrightarrow> req \<in> pending q \<and> pending q' = pending q - {req}"
    and get_empty: "q_get Q q = None \<longleftrightarrow> pending q = {}"
    and pending_finite: "finite (pending q)"

datatype watch_event =
    Created KongFile
  | Updated KongFile KongFile
  | Deleted KongFile

text \<open>The event for one resource between two states of the API server.\<close>

fun event_of :: "KongFile option \<Rightarrow> KongFile option \<Rightarrow> watch_event option" where
  "event_of None None = None"
| "event_of None (Some new) = Some (Created new)"
| "event_of (Some old) (Some new) = Some (Updated old new)"
| "event_of (Some old) None = Some (Deleted old)"

fun passes :: "Funcs \<Rightarrow> watch_event \<Rightarrow> bool" where
  "passes preds (Created f) = CreateFunc preds (kf_Meta f)"
| "passes preds (Updated old new) = UpdateFunc preds (kf_Meta old) (kf_Meta new)"
| "passes preds (Deleted f) = DeleteFunc preds (kf_Meta f)"

declare passes.simps [simp del]

definition offer :: "'q WorkQueue \<Rightarrow> Funcs \<Rightarrow> NamespacedName \<Rightarrow> watch_event option \<Rightarrow> 'q \<Rightarrow> 'q" where
  "offer Q preds req ev q =
     (case ev of None \<Rightarrow> q | Some e \<Rightarrow> if passes preds e then q_add Q req q else q)"

fun notify :: "'q WorkQueue \<Rightarrow> Funcs \<Rightarrow> (NamespacedName \<Rightarrow> KongFile option) \<Rightarrow>
    (NamespacedName \<Rightarrow> KongFile option) \<Rightarrow> NamespacedName list \<Rightarrow> 'q \<Rightarrow> 'q" where
  "notify Q preds res res' [] q = q"
| "notify Q preds res res' (req # reqs) q =
     notify Q preds res res' reqs (offer Q preds req (event_of (res req) (res' req)) q)"

text \<open>The filter the controller is set up with.\<close>

definition class_preds :: "((ObjectMeta \<Rightarrow> bool) \<Rightarrow> Funcs) \<Rightarrow> string \<Rightarrow> Funcs" where
  "class_preds newPredicateFuncs className =
     GeneratePredicateFuncsForControllerClassFilter newPredicateFuncs className False True"

lemma SetupWithManager_preds:
  "SetupWithManager newPredicateFuncs build className w = build (class_preds newPredicateFuncs className) w"
  by (simp add: SetupWithManager_def class_preds_def)

section \<open>The managed controller\<close>

record ('p, 'k, 'q) managed =
  mg_world :: "('p, 'k) world"
  mg_queue :: 'q

text \<open>The resources in a state.\<close>

definition stored :: "('k \<Rightarrow> NamespacedName \<Rightarrow> KongFile option) \<Rightarrow> ('p, 'k, 'q) managed \<Rightarrow>
    NamespacedName \<Rightarrow> KongFile option" where
  "stored resources m = resources (kube (mg_world m))"

lemma stored_simps [simp]:
  "stored resources \<lparr>mg_world = s, mg_queue = q\<rparr> = resources (kube s)"
  "stored resources (m\<lparr>mg_world := s\<rparr>) = resources (kube s)"
  by (simp_all add: stored_def)

text \<open>One worker takes a name, calls the reconciler and files the name again if it has to; the changes the
  call made to the API server come back as events.\<close>

inductive work_step :: "'p Proxy \<Rightarrow> 'k k8s_Client \<Rightarrow> ('k \<Rightarrow> NamespacedName \<Rightarrow> KongFile option) \<Rightarrow>
    'q WorkQueue \<Rightarrow> (Result \<times> error option \<Rightarrow> bool) \<Rightarrow> Funcs \<Rightarrow> string \<Rightarrow>
    ('p, 'k, 'q) managed \<Rightarrow> ('p, 'k, 'q) managed \<Rightarrow> bool"
  for P :: "'p Proxy" and K :: "'k k8s_Client" and resources :: "'k \<Rightarrow> NamespacedName \<Rightarrow> KongFile option"
    and Q :: "'q WorkQueue" and again :: "Result \<times> error option \<Rightarrow> bool" and preds :: Funcs
    and className :: string where
  works: "q_get Q (mg_queue m) = Some (req, q) \<Longrightarrow>
    Reconcile P K className now req (mg_world m) = Return (out, t) \<Longrightarrow>
    (\<forall>r. r \<in> set reqs \<longleftrightarrow> stored resources m r \<noteq> resources (kube t) r) \<Longrightarrow>
    work_step P K resources Q again preds className m
      \<lparr>mg_world = t, mg_queue = notify Q preds (stored resources m) (resources (kube t)) reqs
         (if again out then q_add Q req q else q)\<rparr>"

text \<open>The API server moves by other hands. Events for more than what changed are resyncs.\<close>

inductive api_step :: "('k \<Rightarrow> NamespacedName \<Rightarrow> KongFile option) \<Rightarrow> 'q WorkQueue \<Rightarrow> Funcs \<Rightarrow>
    ('p, 'k, 'q) managed \<Rightarrow> ('p, 'k, 'q) managed \<Rightarrow> bool"
  for resources :: "'k \<Rightarrow> NamespacedName \<Rightarrow> KongFile option" and Q :: "'q WorkQueue" and preds :: Funcs where
  api_changes: "(\<forall>r. stored resources m r \<noteq> resources k r \<longrightarrow> r \<in> set reqs) \<Longrightarrow>
    api_step resources Q preds m
      \<lparr>mg_world = (mg_world m)\<lparr>kube := k\<rparr>,
       mg_queue = notify Q preds (stored resources m) (resources k) reqs (mg_queue m)\<rparr>"

inductive managed_step :: "'c cache_Store \<Rightarrow> ('w, 'r) kong_Client \<Rightarrow> 'k k8s_Client \<Rightarrow>
    ('k \<Rightarrow> NamespacedName \<Rightarrow> KongFile option) \<Rightarrow> 'q WorkQueue \<Rightarrow> (Result \<times> error option \<Rightarrow> bool) \<Rightarrow> Funcs \<Rightarrow>
    string \<Rightarrow> (('c, 'v, 'w) resolver_state, 'k, 'q) managed \<Rightarrow> (('c, 'v, 'w) resolver_state, 'k, 'q) managed \<Rightarrow> bool"
  for S :: "'c cache_Store" and kc :: "('w, 'r) kong_Client" and K :: "'k k8s_Client"
    and resources :: "'k \<Rightarrow> NamespacedName \<Rightarrow> KongFile option" and Q :: "'q WorkQueue"
    and again :: "Result \<times> error option \<Rightarrow> bool" and preds :: Funcs and className :: string where
  worker: "work_step (resolver_Proxy S kc) K resources Q again preds className m m' \<Longrightarrow>
    managed_step S kc K resources Q again preds className m m'"
| api_server: "api_step resources Q preds m m' \<Longrightarrow> managed_step S kc K resources Q again preds className m m'"
| kong: "managed_step S kc K resources Q again preds className m
    (m\<lparr>mg_world := (mg_world m)\<lparr>prox := (fst (prox (mg_world m)), w)\<rparr>\<rparr>)"

inductive_cases work_stepE: "work_step P K resources Q again preds className m m'"
inductive_cases api_stepE: "api_step resources Q preds m m'"
inductive_cases managed_stepE: "managed_step S kc K resources Q again preds className m m'"

text \<open>A controller that has just been constructed, with an event for every resource there is.\<close>

definition managed_init :: "'c cache_Store \<Rightarrow> ('k \<Rightarrow> NamespacedName \<Rightarrow> KongFile option) \<Rightarrow> 'q WorkQueue \<Rightarrow>
    Funcs \<Rightarrow> (('c, 'v, 'w) resolver_state, 'k, 'q) managed \<Rightarrow> bool" where
  "managed_init S resources Q preds m \<longleftrightarrow>
     ctrl_init S (mg_world m) \<and>
     (\<exists>reqs q. q_get Q q = None \<and> (\<forall>r. stored resources m r \<noteq> None \<longrightarrow> r \<in> set reqs) \<and>
       mg_queue m = notify Q preds (\<lambda>_. None) (stored resources m) reqs q)"

section \<open>Events and the queue\<close>

locale managed_controller = portal_env S contents kc files K resources + work_queue Q pending
  for S :: "'c cache_Store" and contents :: "'c \<Rightarrow> string \<Rightarrow> Object option"
    and kc :: "('w, 'r) kong_Client" and files :: "'w \<Rightarrow> string \<Rightarrow> string option"
    and K :: "'k k8s_Client" and resources :: "'k \<Rightarrow> NamespacedName \<Rightarrow> KongFile option"
    and Q :: "'q WorkQueue" and pending :: "'q \<Rightarrow> NamespacedName set" +
  fixes again :: "Result \<times> error option \<Rightarrow> bool" and newPredicateFuncs :: "(ObjectMeta \<Rightarrow> bool) \<Rightarrow> Funcs"
  assumes again_iff: "again (r, e) \<longleftrightarrow> e \<noteq> None \<or> Requeue r"
    and by_object: "filters_by_object newPredicateFuncs"
begin

abbreviation the_preds :: "string \<Rightarrow> Funcs" where
  "the_preds \<equiv> class_preds newPredicateFuncs"

lemma passes_class [simp]:
  "passes (the_preds c) (Created f) = ours c f"
  "passes (the_preds c) (Updated f g)"
  "passes (the_preds c) (Deleted f) = ours c f"
  using class_filter_events [OF by_object refl, of c False True]
  by (simp_all add: passes.simps class_preds_def ours_def)

lemma pending_offer:
  "r \<in> pending (offer Q preds req ev q) \<longleftrightarrow> r \<in> pending q \<or> r = req \<and> (\<exists>e. ev = Some e \<and> passes preds e)"
  by (cases ev) (auto simp: offer_def pending_add)

lemma pending_notify:
  "r \<in> pending (notify Q preds res res' reqs q) \<longleftrightarrow>
    r \<in> pending q \<or> r \<in> set reqs \<and> (\<exists>e. event_of (res r) (res' r) = Some e \<and> passes preds e)"
proof (induction reqs arbitrary: q)
  case (Cons a reqs)
  show ?case unfolding notify.simps Cons.IH pending_offer by auto
qed simp

text \<open>Every resource of our class that appears or changes is filed.\<close>

lemma notified:
  assumes "\<forall>r. res r \<noteq> res' r \<longrightarrow> r \<in> set reqs" and "res r \<noteq> res' r" and "res' r = Some f" and "ours c f"
  shows "r \<in> pending (notify Q (the_preds c) res res' reqs q)"
  using assms by (cases "res r") (auto simp: pending_notify)

end

section \<open>Nothing pending is forgotten\<close>

definition undeleted :: "KongFile \<Rightarrow> bool" where
  "undeleted f \<longleftrightarrow> time_IsZero (om_DeletionTimestamp (kf_Meta f))"

definition none_lost :: "('k \<Rightarrow> NamespacedName \<Rightarrow> KongFile option) \<Rightarrow> ('q \<Rightarrow> NamespacedName set) \<Rightarrow>
    string \<Rightarrow> ('p, 'k, 'q) managed \<Rightarrow> bool" where
  "none_lost resources pending className m \<longleftrightarrow>
     (\<forall>req f. stored resources m req = Some f \<longrightarrow> awaits className f \<longrightarrow> undeleted f \<longrightarrow>
       req \<in> pending (mg_queue m))"

lemma none_lostI:
  "(\<And>req f. stored resources m req = Some f \<Longrightarrow> awaits c f \<Longrightarrow> undeleted f \<Longrightarrow> req \<in> pending (mg_queue m)) \<Longrightarrow>
    none_lost resources pending c m"
  by (simp add: none_lost_def)

lemma undeleted_alive: "undeleted f \<Longrightarrow> \<not> terminating now f"
  by (simp add: undeleted_def terminating_def)

context managed_controller
begin

text \<open>A call that leaves its resource awaiting its push is made again.\<close>

lemma work_unfinished:
  assumes ret: "Reconcile (resolver_Proxy S kc) K className now req s = Return (out, t)"
    and f: "resources (kube s) req = Some f" "awaits className f" "undeleted f"
    and same: "resources (kube t) req = Some f"
  shows "again out"
proof (rule ccontr)
  assume "\<not> again out"
  then have out: "snd out = None" by (cases out) (simp add: again_iff)
  show False
  proof (cases "fetch_error K req s")
    case (Some err)
    then have "k_IsNotFound K err"
      using ret out Reconcile_unreadable [OF Some, of "resolver_Proxy S kc" className now]
      by (cases "k_IsNotFound K err") auto
    from fetched_missing [OF Some this] f(1) show False by simp
  next
    case None
    have v: "fetched K req s = f" using fetched_resource [OF None] f(1) by simp
    have pend: "\<not> terminating now (fetched K req s)" "ours className (fetched K req s)"
      "\<not> validated (fetched K req s)"
      using f(2) undeleted_alive [OF f(3)] by (simp_all add: v awaits_def)
    from ret out obtain g k where "k_StatusUpdate K (set_validated (fetched K req s)) (kube s) = ((None, g), k)"
      and t: "kube t = k"
      unfolding Reconcile_pending [OF None pend]
      by (auto simp: Let_def split: outcome.splits option.splits prod.splits)
    from status_of_fetched [OF None this(1)] have "resources (kube t) req = Some (set_validated f)"
      by (simp add: t v)
    with same f(2) show False
      using validated_set_validated [of f] by (simp add: awaits_def)
  qed
qed

lemma none_lost_init:
  "managed_init S resources Q (the_preds className) m \<Longrightarrow> none_lost resources pending className m"
proof (rule none_lostI)
  fix r f
  assume init: "managed_init S resources Q (the_preds className) m"
    and f: "stored resources m r = Some f" "awaits className f"
  from init obtain reqs q where "\<forall>r. None \<noteq> stored resources m r \<longrightarrow> r \<in> set reqs"
    and q: "mg_queue m = notify Q (the_preds className) (\<lambda>_. None) (stored resources m) reqs q"
    unfolding managed_init_def by metis
  from notified [OF this(1) _ f(1)] f show "r \<in> pending (mg_queue m)" by (simp add: q awaits_def)
qed

lemma none_lost_notify:
  assumes lost: "none_lost resources pending className m"
    and reqs: "\<forall>r. stored resources m r \<noteq> resources k r \<longrightarrow> r \<in> set reqs"
    and f: "resources k r = Some f" "awaits className f" "undeleted f"
    and kept: "stored resources m r = Some f \<Longrightarrow> r \<in> pending (mg_queue m) \<Longrightarrow> r \<in> pending q"
  shows "r \<in> pending (notify Q (the_preds className) (stored resources m) (resources k) reqs q)"
proof (cases "stored resources m r = Some f")
  case True
  with lost f have "r \<in> pending (mg_queue m)" by (simp add: none_lost_def)
  with kept [OF True] show ?thesis by (simp add: pending_notify)
next
  case False
  then show ?thesis by (intro notified [OF reqs _ f(1)]) (use f in \<open>simp_all add: awaits_def\<close>)
qed

lemma none_lost_work:
  assumes lost: "none_lost resources pending className m"
    and "work_step (resolver_Proxy S kc) K resources Q again (the_preds className) className m m'"
  shows "none_lost resources pending className m'"
  using assms(2)
proof (rule work_stepE)
  fix req q now out t reqs
  assume m': "m' = \<lparr>mg_world = t, mg_queue = notify Q (the_preds className) (stored resources m) (resources (kube t)) reqs
      (if again out then q_add Q req q else q)\<rparr>"
    and get: "q_get Q (mg_queue m) = Some (req, q)"
    and ret: "Reconcile (resolver_Proxy S kc) K className now req (mg_world m) = Return (out, t)"
    and reqs: "\<forall>r. r \<in> set reqs \<longleftrightarrow> stored resources m r \<noteq> resources (kube t) r"
  show "none_lost resources pending className m'"
  proof (rule none_lostI)
    fix r f
    assume "stored resources m' r = Some f" and f': "awaits className f" "undeleted f"
    then have f: "resources (kube t) r = Some f" "awaits className f" "undeleted f" by (simp_all add: m')
    have "r \<in> pending (notify Q (the_preds className) (stored resources m) (resources (kube t)) reqs
        (if again out then q_add Q req q else q))"
    proof (rule none_lost_notify [OF lost _ f])
      assume old: "stored resources m r = Some f" and p: "r \<in> pending (mg_queue m)"
      have "again out" if "r = req"
        using work_unfinished [OF ret _ f(2,3)] old f(1) that by (simp add: stored_def)
      with p pending_get [OF get] show "r \<in> pending (if again out then q_add Q req q else q)"
        by (cases "r = req") (simp_all add: pending_add)
    qed (simp add: reqs)
    then show "r \<in> pending (mg_queue m')" by (simp add: m')
  qed
qed

lemma none_lost_api:
  assumes lost: "none_lost resources pending className m"
    and "api_step resources Q (the_preds className) m m'"
  shows "none_lost resources pending className m'"
  using assms(2)
proof (rule api_stepE)
  fix k reqs
  assume m': "m' = \<lparr>mg_world = (mg_world m)\<lparr>kube := k\<rparr>,
      mg_queue = notify Q (the_preds className) (stored resources m) (resources k) reqs (mg_queue m)\<rparr>"
    and reqs: "\<forall>r. stored resources m r \<noteq> resources k r \<longrightarrow> r \<in> set reqs"
  show "none_lost resources pending className m'"
  proof (rule none_lostI)
    fix r f
    assume "stored resources m' r = Some f" and "awaits className f" "undeleted f"
    with none_lost_notify [OF lost reqs] show "r \<in> pending (mg_queue m')" by (simp add: m')
  qed
qed

lemma none_lost_step:
  assumes "none_lost resources pending className m"
    and "managed_step S kc K resources Q again (the_preds className) className m m'"
  shows "none_lost resources pending className m'"
  using assms(2)
proof (rule managed_stepE)
  fix w
  assume "m' = m\<lparr>mg_world := (mg_world m)\<lparr>prox := (fst (prox (mg_world m)), w)\<rparr>\<rparr>"
  with assms(1) show ?thesis by (simp add: none_lost_def stored_def)
qed (rule none_lost_work [OF assms(1)] none_lost_api [OF assms(1)]; assumption)+

end

section \<open>What the filter leaves behind\<close>

text \<open>No name in the queue has anything to do with the tracked file of \<open>req\<close> or with the path \<open>p\<close>.\<close>

definition spares :: "('c \<Rightarrow> string \<Rightarrow> Object option) \<Rightarrow> ('w \<Rightarrow> string \<Rightarrow> string option) \<Rightarrow>
    ('k \<Rightarrow> NamespacedName \<Rightarrow> KongFile option) \<Rightarrow> ('q \<Rightarrow> NamespacedName set) \<Rightarrow> NamespacedName \<Rightarrow> string \<Rightarrow>
    (('c, 'v, 'w) resolver_state, 'k, 'q) managed \<Rightarrow> bool" where
  "spares contents files resources pending req p m \<longleftrightarrow>
     (\<forall>r \<in> pending (mg_queue m). key_of r \<noteq> key_of req \<and>
       (\<forall>f. tracked (portal_of contents files (mg_world m)) (key_of r) = Some f \<longrightarrow> plain_file f \<and> file_Path f \<noteq> Some p) \<and>
       (\<forall>f. stored resources m r = Some f \<longrightarrow> plain_file (Build f) \<and> file_Path (Build f) \<noteq> Some p))"

text \<open>The managed controller is the controller of \<^verbatim>\<open>Controller_System\<close>, with fewer calls.\<close>

lemma managed_step_ctrl:
  assumes "managed_step S kc K resources Q again preds className m m'"
  shows "ctrl_step S kc K className (mg_world m) (mg_world m')"
  using assms
proof (rule managed_stepE)
  assume "work_step (resolver_Proxy S kc) K resources Q again preds className m m'"
  then show ?thesis by (rule work_stepE) (auto intro: ctrl_step.reconciles)
next
  assume "api_step resources Q preds m m'"
  then show ?thesis by (rule api_stepE) (auto intro: ctrl_step.kube_moves)
next
  fix w
  assume "m' = m\<lparr>mg_world := (mg_world m)\<lparr>prox := (fst (prox (mg_world m)), w)\<rparr>\<rparr>"
  then show ?thesis by (auto intro: ctrl_step.kong_moves)
qed

lemma managed_reach_ctrl:
  assumes "reach (managed_init S resources Q preds) (managed_step S kc K resources Q again preds className) m"
  shows "reach (ctrl_init S) (ctrl_step S kc K className) (mg_world m)"
  using assms
proof (induction rule: reach.induct)
  case (reach_init m)
  then show ?case by (intro reach.reach_init) (simp add: managed_init_def)
next
  case (reach_step m m')
  from reach.reach_step [OF reach_step.IH managed_step_ctrl [OF reach_step.hyps(2)]] show ?case .
qed

context managed_controller
begin

abbreviation spared :: "NamespacedName \<Rightarrow> string \<Rightarrow> (('c, 'v, 'w) resolver_state, 'k, 'q) managed \<Rightarrow> bool" where
  "spared \<equiv> spares contents files resources pending"

text \<open>What stays true of a resource that is gone and not in the queue.\<close>

definition forgotten :: "NamespacedName \<Rightarrow> string \<Rightarrow> File option \<Rightarrow> string option \<Rightarrow>
    (('c, 'v, 'w) resolver_state, 'k, 'q) managed \<Rightarrow> bool" where
  "forgotten req p file text m \<longleftrightarrow>
     cache_wf cached_in (mg_world m) \<and> stored resources m req = None \<and> req \<notin> pending (mg_queue m) \<and>
     tracked (portal_view (mg_world m)) (key_of req) = file \<and> published (portal_view (mg_world m)) p = text"

lemma forgotten_work:
  assumes m: "forgotten req p file text m" "spared req p m"
    and step: "work_step (resolver_Proxy S kc) K resources Q again (the_preds className) className m m'"
    and gone: "stored resources m' req = None"
  shows "forgotten req p file text m'"
  using step
proof (rule work_stepE)
  fix r q now out t reqs
  assume m': "m' = \<lparr>mg_world = t, mg_queue = notify Q (the_preds className) (stored resources m) (resources (kube t)) reqs
      (if again out then q_add Q r q else q)\<rparr>"
    and get: "q_get Q (mg_queue m) = Some (r, q)"
    and ret: "Reconcile (resolver_Proxy S kc) K className now r (mg_world m) = Return (out, t)"
  have r: "r \<in> pending (mg_queue m)" "pending q = pending (mg_queue m) - {r}" using pending_get [OF get] by simp_all
  have wf: "cache_wf cached_in (mg_world m)" using m(1) by (simp add: forgotten_def)
  have own: "key_of r \<noteq> key_of req"
    "\<And>f. tracked (portal_view (mg_world m)) (key_of r) = Some f \<Longrightarrow> plain_file f \<and> file_Path f \<noteq> Some p"
    "\<And>f. resources (kube (mg_world m)) r = Some f \<Longrightarrow> plain_file (Build f) \<and> file_Path (Build f) \<noteq> Some p"
    using m(2) r(1) by (auto simp: spares_def stored_def)
  from Reconcile_frame [OF wf own(2,3) ret] own(1)
  have same: "published (portal_view t) p = published (portal_view (mg_world m)) p"
    "tracked (portal_view t) (key_of req) = tracked (portal_view (mg_world m)) (key_of req)" by simp_all
  have "cache_wf cached_in t"
    using Reconcile_wf [OF wf, of className now r] ret by auto
  moreover have "req \<notin> pending (mg_queue m')"
    using m(1) gone own(1) r by (auto simp: m' pending_notify pending_add forgotten_def)
  ultimately show ?thesis
    using m(1) gone same by (simp add: forgotten_def m')
qed

lemma forgotten_api:
  assumes m: "forgotten req p file text m" and step: "api_step resources Q (the_preds className) m m'"
    and gone: "stored resources m' req = None"
  shows "forgotten req p file text m'"
  using step
proof (rule api_stepE)
  fix k reqs
  assume m': "m' = \<lparr>mg_world = (mg_world m)\<lparr>kube := k\<rparr>,
      mg_queue = notify Q (the_preds className) (stored resources m) (resources k) reqs (mg_queue m)\<rparr>"
  have "req \<notin> pending (mg_queue m')"
    using m gone by (auto simp: m' pending_notify forgotten_def)
  with m gone show ?thesis by (simp add: forgotten_def m')
qed

lemma forgotten_run:
  assumes "(\<lambda>a b. (work_step (resolver_Proxy S kc) K resources Q again (the_preds className) className a b \<or>
        api_step resources Q (the_preds className) a b) \<and> spared req p a \<and> stored resources b req = None)\<^sup>*\<^sup>* m m'"
    and "forgotten req p file text m"
  shows "forgotten req p file text m'"
  using assms by (induction rule: rtranclp_induct) (blast intro: forgotten_work forgotten_api)+

text \<open>The deletion of a resource without our class is an event the filter drops.\<close>

lemma forgotten_delete:
  assumes wf: "cache_wf cached_in (mg_world m)" and f: "stored resources m req = Some f" "\<not> ours className f"
    and idle_queue: "req \<notin> pending (mg_queue m)"
    and step: "api_step resources Q (the_preds className) m m1" and gone: "stored resources m1 req = None"
  shows "forgotten req p (tracked (portal_view (mg_world m)) (key_of req)) (published (portal_view (mg_world m)) p) m1"
  using step
proof (rule api_stepE)
  fix k reqs
  assume m1: "m1 = \<lparr>mg_world = (mg_world m)\<lparr>kube := k\<rparr>,
      mg_queue = notify Q (the_preds className) (stored resources m) (resources k) reqs (mg_queue m)\<rparr>"
  have "req \<notin> pending (mg_queue m1)"
    using idle_queue gone f by (auto simp: m1 pending_notify)
  with wf gone show ?thesis by (simp add: forgotten_def m1)
qed

end

section \<open>A queue\<close>

text \<open>client-go's queue without its delays: first in, first out, a name at most once.\<close>

definition fifo :: "NamespacedName list WorkQueue" where
  "fifo =
     \<lparr>q_add = (\<lambda>req q. if req \<in> set q then q else q @ [req]),
      q_get = (\<lambda>q. case q of [] \<Rightarrow> None | req # rest \<Rightarrow> Some (req, removeAll req rest))\<rparr>"

definition asks_again :: "Result \<times> error option \<Rightarrow> bool" where
  "asks_again out \<longleftrightarrow> snd out \<noteq> None \<or> Requeue (fst out)"

interpretation fifo_queue: work_queue fifo set
  by unfold_locales (auto simp: fifo_def split: list.splits)

interpretation managed_model: managed_controller table_store DAList.lookup mem_client snd mem_kube_client snd
    fifo set asks_again object_predicate
  by unfold_locales (simp_all add: asks_again_def filters_by_object_predicate)

section \<open>Properties\<close>

context managed_controller
begin

lemma none_lost_system:
  "invariant_system (managed_init S resources Q (the_preds className))
     (managed_step S kc K resources Q again (the_preds className) className)
     (none_lost resources pending className)"
  by unfold_locales (blast intro: none_lost_init none_lost_step)+

lemma reach_none_lost:
  "reach (managed_init S resources Q (the_preds className))
     (managed_step S kc K resources Q again (the_preds className) className) m \<Longrightarrow>
   none_lost resources pending className m"
  by (rule invariant_system.reach_inv [OF none_lost_system])

end

text \<open>C5. The reconciler behind its event filter and a work queue: in every reachable state,
  whatever the API server, Kong and the worker have done in whatever order, failures included, a
  resource of our class that is not being deleted and not yet validated has its name in the queue.\<close>
theorem pending_work_is_never_forgotten:
  assumes mc: "managed_controller S contents kc files K resources Q pending again newPredicateFuncs"
    and reachable: "reach (managed_init S resources Q (class_preds newPredicateFuncs className))
      (managed_step S kc K resources Q again (class_preds newPredicateFuncs className) className) m"
    and found: "resources (kube (mg_world m)) req = Some f"
    and ours: "MatchesControllerClassName (kf_Meta f) className"
    and alive: "time_IsZero (om_DeletionTimestamp (kf_Meta f))" and todo: "\<not> Validated (kf_Status f)"
  shows "req \<in> pending (mg_queue m)"
  using managed_controller.reach_none_lost [OF mc reachable] found ours alive todo
  by (simp add: none_lost_def stored_def awaits_def ours_def validated_def undeleted_def)

text \<open>The controller right after its start, with the events for what is there.\<close>

definition managed_start :: "(NamespacedName \<Rightarrow> KongFile option) \<Rightarrow> NamespacedName list \<Rightarrow> bool list \<Rightarrow> (string \<rightharpoonup> string) \<Rightarrow>
    ((((string, Object) alist, string, mem_kong) resolver_state), mem_kube, NamespacedName list) managed" where
  "managed_start res reqs ka kf =
     \<lparr>mg_world = started ka kf [] res,
      mg_queue = notify fifo (class_preds object_predicate ''kong'') (\<lambda>_. None) res reqs []\<rparr>"

lemma managed_start_init:
  "\<forall>r. res r \<noteq> None \<longrightarrow> r \<in> set reqs \<Longrightarrow>
    managed_init table_store snd fifo (class_preds object_predicate ''kong'') (managed_start res reqs ka kf)"
  unfolding managed_init_def
  by (intro conjI exI [of _ reqs] exI [of _ "[]"])
    (simp_all add: managed_start_def started_init stored_def fifo_def)

lemma managed_start_sel [simp]:
  "mg_world (managed_start res reqs ka kf) = started ka kf [] res"
  "stored snd (managed_start res reqs ka kf) = res"
  by (simp_all add: managed_start_def stored_def)

lemma managed_start_queue:
  "set (mg_queue (managed_start res reqs ka kf)) = {r \<in> set reqs. \<exists>f. res r = Some f \<and> ours ''kong'' f}"
proof -
  have ex: "(\<exists>e. event_of None (res r) = Some e \<and> passes (class_preds object_predicate ''kong'') e) \<longleftrightarrow>
      (\<exists>f. res r = Some f \<and> ours ''kong'' f)" for r
    by (cases "res r") auto
  show ?thesis
    by (intro set_eqI) (simp add: managed_start_def managed_model.pending_notify ex)
qed

lemma samples_ours [simp]: "ours ''kong'' sample_file" "ours ''kong'' other_file"
  using publishable_ours [OF samples_publishable(1)] publishable_ours [OF samples_publishable(2)] by simp_all

text \<open>Kong refuses the push of the resource.\<close>

theorem pending_work_is_never_forgotten_witness:
  "\<exists>m'. managed_step table_store mem_client mem_kube_client snd fifo asks_again (class_preds object_predicate ''kong'') ''kong''
      (managed_start [sample_name \<mapsto> sample_file] [sample_name] [False] Map.empty) m' \<and>
    stored snd m' sample_name = Some sample_file \<and> sample_name \<in> set (mg_queue m')"
proof -
  let ?preds = "class_preds object_predicate ''kong''" and ?m = "managed_start [sample_name \<mapsto> sample_file] [sample_name] [False] Map.empty"
  have "\<exists>q. q_get fifo (mg_queue ?m) = Some (sample_name, q)"
    by (simp add: managed_start_def offer_def) (simp add: fifo_def)
  then obtain q where get: "q_get fifo (mg_queue ?m) = Some (sample_name, q)" ..
  have "\<exists>e t. Reconcile (resolver_Proxy table_store mem_client) mem_kube_client ''kong'' 1 sample_name (mg_world ?m) =
      Return ((\<lparr>Requeue = False\<rparr>, Some e), t) \<and> kube t = ([], [sample_name \<mapsto> sample_file])"
    by (simp add: model_run sample_resolver_def)
  then obtain e t where ret: "Reconcile (resolver_Proxy table_store mem_client) mem_kube_client ''kong'' 1 sample_name
      (mg_world ?m) = Return ((\<lparr>Requeue = False\<rparr>, Some e), t)" and kube: "kube t = ([], [sample_name \<mapsto> sample_file])" by blast
  have "\<forall>r. r \<in> set [] \<longleftrightarrow> stored snd ?m r \<noteq> snd (kube t) r" by (simp add: kube)
  from managed_step.worker [OF work_step.works [OF get ret this]] obtain m' where
    step: "managed_step table_store mem_client mem_kube_client snd fifo asks_again ?preds ''kong'' ?m m'"
    and world: "mg_world m' = t" by force
  have "reach (managed_init table_store snd fifo ?preds)
      (managed_step table_store mem_client mem_kube_client snd fifo asks_again ?preds ''kong'') ?m"
    by (rule reach_init) (rule managed_start_init, simp)
  then have "reach (managed_init table_store snd fifo ?preds)
      (managed_step table_store mem_client mem_kube_client snd fifo asks_again ?preds ''kong'') m'"
    using step by (rule reach_step)
  moreover have st: "snd (kube (mg_world m')) sample_name = Some sample_file" by (simp add: world kube)
  ultimately have "sample_name \<in> set (mg_queue m')"
    by (rule pending_work_is_never_forgotten [OF managed_model.managed_controller_axioms])
      (simp_all add: sample_file_def MatchesControllerClassName_iff)
  with step st show ?thesis by (auto simp: stored_def)
qed

text \<open>C7. What the filter costs: take a resource that has lost the class annotation and whose
  name is not in the queue any more, the update that took the annotation off having been worked on.
  When it is then deleted, the deletion does not pass the filter, and as long as the resource is not
  created anew and no queued name has its key or a file at the path in question (and all their paths
  are plain), no sequence of calls and of changes of the API server puts its name back into the queue
  or removes its file from Kong or from the cache.\<close>
theorem declassed_file_stays:
  assumes mc: "managed_controller S contents kc files K resources Q pending again newPredicateFuncs"
    and reachable: "reach (managed_init S resources Q (class_preds newPredicateFuncs className))
      (managed_step S kc K resources Q again (class_preds newPredicateFuncs className) className) m"
    and declassed: "stored resources m req = Some f" "\<not> ours className f" and settled: "req \<notin> pending (mg_queue m)"
    and deleted: "api_step resources Q (class_preds newPredicateFuncs className) m m1" "stored resources m1 req = None"
    and run: "(\<lambda>a b. (work_step (resolver_Proxy S kc) K resources Q again (class_preds newPredicateFuncs className) className a b \<or>
        api_step resources Q (class_preds newPredicateFuncs className) a b) \<and>
      spares contents files resources pending req p a \<and> stored resources b req = None)\<^sup>*\<^sup>* m1 m2"
  shows "req \<notin> pending (mg_queue m2) \<and>
    tracked (portal_of contents files (mg_world m2)) (key_of req) =
      tracked (portal_of contents files (mg_world m)) (key_of req) \<and>
    published (portal_of contents files (mg_world m2)) p = published (portal_of contents files (mg_world m)) p"
proof -
  note env = managed_controller.axioms(1) [OF mc]
  have wf: "cache_wf (\<lambda>st. contents (store (fst st))) (mg_world m)"
    by (rule reachable_wf [OF env managed_reach_ctrl [OF reachable]])
  from managed_controller.forgotten_run [OF mc run
      managed_controller.forgotten_delete [OF mc wf declassed settled deleted]]
  show ?thesis by (simp add: managed_controller.forgotten_def [OF mc])
qed

text \<open>A resource published before the start, whose class has been taken off since: it is deleted, and another
  one is created.\<close>

definition declassed_file :: KongFile where
  "declassed_file = sample_file\<lparr>kf_Meta := (kf_Meta sample_file)\<lparr>om_Annotations := Map.empty\<rparr>\<rparr>"

lemma declassed_not_ours: "\<not> ours ''kong'' declassed_file"
  by (simp add: ours_def declassed_file_def MatchesControllerClassName_iff)

theorem declassed_file_stays_witness:
  "\<exists>m1 m2. api_step snd fifo (class_preds object_predicate ''kong'')
      (managed_start [sample_name \<mapsto> declassed_file] [sample_name] [] [''content/products/test.txt'' \<mapsto> ''Yeah'']) m1 \<and>
    api_step snd fifo (class_preds object_predicate ''kong'') m1 m2 \<and>
    stored snd m2 = [other_name \<mapsto> other_file] \<and> sample_name \<notin> set (mg_queue m2) \<and>
    published (portal_of DAList.lookup snd (mg_world m2)) ''content/products/test.txt'' = Some ''Yeah''"
proof -
  let ?preds = "class_preds object_predicate ''kong''"
  define m where "m = managed_start [sample_name \<mapsto> declassed_file] [sample_name] [] [''content/products/test.txt'' \<mapsto> ''Yeah'']"
  have reach: "reach (managed_init table_store snd fifo ?preds)
      (managed_step table_store mem_client mem_kube_client snd fifo asks_again ?preds ''kong'') m"
    unfolding m_def by (rule reach_init) (rule managed_start_init, auto)
  have st: "stored snd m sample_name = Some declassed_file" by (simp add: m_def)
  have queue: "set (mg_queue m) = {}" using declassed_not_ours by (auto simp: m_def managed_start_queue)
  define m1 where "m1 = \<lparr>mg_world = (mg_world m)\<lparr>kube := ([], Map.empty)\<rparr>,
      mg_queue = notify fifo ?preds (stored snd m) (snd (([], Map.empty) :: mem_kube)) [sample_name] (mg_queue m)\<rparr>"
  have d: "api_step snd fifo ?preds m m1"
    unfolding m1_def by (rule api_step.api_changes) (simp add: m_def)
  have gone: "stored snd m1 = Map.empty" by (simp add: m1_def)
  have queue1: "set (mg_queue m1) = {}"
  proof (rule equals0I)
    fix r
    assume "r \<in> set (mg_queue m1)"
    with declassed_not_ours queue st show False
      by (cases "r = sample_name") (simp_all add: m1_def managed_model.pending_notify del: notify.simps)
  qed
  define m2 where "m2 = \<lparr>mg_world = (mg_world m1)\<lparr>kube := ([], [other_name \<mapsto> other_file])\<rparr>,
      mg_queue = notify fifo ?preds (stored snd m1) (snd (([], [other_name \<mapsto> other_file]) :: mem_kube)) [other_name] (mg_queue m1)\<rparr>"
  have c: "api_step snd fifo ?preds m1 m2"
    unfolding m2_def by (rule api_step.api_changes) (simp add: gone)
  have st2: "stored snd m2 = [other_name \<mapsto> other_file]" by (simp add: m2_def fun_eq_iff)
  have "spares DAList.lookup snd snd set sample_name ''content/products/test.txt'' m1"
    by (simp add: spares_def queue1)
  with c st2 have run: "(\<lambda>a b. (work_step (resolver_Proxy table_store mem_client) mem_kube_client snd fifo asks_again ?preds ''kong'' a b \<or>
        api_step snd fifo ?preds a b) \<and> spares DAList.lookup snd snd set sample_name ''content/products/test.txt'' a \<and>
      stored snd b sample_name = None)\<^sup>*\<^sup>* m1 m2"
    by (intro r_into_rtranclp) simp
  have nq: "sample_name \<notin> set (mg_queue m)" and gone1: "stored snd m1 sample_name = None" by (simp_all add: queue gone)
  from declassed_file_stays [OF managed_model.managed_controller_axioms reach st declassed_not_ours nq d gone1 run]
  have "sample_name \<notin> set (mg_queue m2)" and "published (portal_of DAList.lookup snd (mg_world m2)) ''content/products/test.txt'' =
      published (portal_of DAList.lookup snd (mg_world m)) ''content/products/test.txt''" by simp_all
  moreover have "published (portal_of DAList.lookup snd (mg_world m)) ''content/products/test.txt'' = Some ''Yeah''"
    by (simp add: portal_of_def m_def)
  ultimately show ?thesis using d c st2 unfolding m_def [symmetric] by auto
qed

end
