(* ===== verification/Controller_Draining.thy ===== *)
theory Controller_Draining
  imports Controller_Queue
begin

text \<open>
  The queue drains: against a Kong and an API server that serve, and with nobody else changing anything,
  the worker of \<^verbatim>\<open>Controller_Queue\<close> publishes the new resources, removes the files of the deleted ones and
  stops, within two calls for each name.
\<close>

section \<open>What the next call sends\<close>

text \<open>The file the next call for a resource sends to Kong: the one it pushes, or the tracked one it
  removes.\<close>

definition due :: "string \<Rightarrow> (NamespacedName \<Rightarrow> KongFile option) \<Rightarrow> portal \<Rightarrow> NamespacedName \<Rightarrow> File option" where
  "due className res a req =
     (case res req of
        None \<Rightarrow> tracked a (key_of req)
      | Some f \<Rightarrow> if awaits className f then Some (Build f) else None)"

text \<open>The portal once it has been sent.\<close>

definition sent :: "string \<Rightarrow> (NamespacedName \<Rightarrow> KongFile option) \<Rightarrow> NamespacedName \<Rightarrow> portal \<Rightarrow> portal" where
  "sent className res req a =
     (case due className res a req of
        None \<Rightarrow> a
      | Some g \<Rightarrow>
          \<lparr>tracked = (tracked a)(key_of req := if res req = None then None else Some g),
           published = (if res req = None then unpublish g else publish g) (published a)\<rparr>)"

text \<open>The resources whose next call goes through when Kong and the API server serve.\<close>

definition calm :: "string \<Rightarrow> (NamespacedName \<Rightarrow> KongFile option) \<Rightarrow> portal \<Rightarrow> NamespacedName \<Rightarrow> bool" where
  "calm className res a req \<longleftrightarrow>
     (case res req of
        None \<Rightarrow> \<forall>g. tracked a (key_of req) = Some g \<longrightarrow> plain_file g \<and> \<not> isEmptyString (file_Path g)
      | Some f \<Rightarrow> servable className f)"

text \<open>Different names have different keys, and no two have files due at the same path.\<close>

definition dues_apart :: "string \<Rightarrow> (NamespacedName \<Rightarrow> KongFile option) \<Rightarrow> portal \<Rightarrow> NamespacedName set \<Rightarrow> bool" where
  "dues_apart className res a R \<longleftrightarrow> inj_on key_of R \<and>
     (\<forall>req \<in> R. \<forall>req' \<in> R. \<forall>g g'. req \<noteq> req' \<longrightarrow> due className res a req = Some g \<longrightarrow>
       due className res a req' = Some g' \<longrightarrow> file_Path g \<noteq> file_Path g')"

lemma servable_alive: "servable c f \<Longrightarrow> \<not> terminating now f"
  by (auto simp: servable_def publishable_def foreign_def terminating_def)

lemma servable_awaits: "servable c f \<Longrightarrow> awaits c f \<Longrightarrow> publishable c f"
  by (auto simp: servable_def foreign_def awaits_def)

lemma portal_sync_sent:
  "calm c res a req \<Longrightarrow> portal_sync c now req (res req) a = sent c res req a"
  by (auto simp: portal_sync_def sent_def due_def calm_def awaits_def servable_alive split: option.splits)

text \<open>What is due after a call, for its own resource and for one with another key.\<close>

lemma due_own:
  "due c (res(req := map_option (synced c) (res req))) (sent c res req a) req = None"
  by (auto simp: due_def sent_def split: option.splits)

lemma sent_other:
  "key_of r \<noteq> key_of req \<Longrightarrow> tracked (sent c res req a) (key_of r) = tracked a (key_of r)"
  by (simp add: sent_def split: option.split)

lemma due_other:
  "key_of r \<noteq> key_of req \<Longrightarrow> due c (res(req := x)) (sent c res req a) r = due c res a r"
  by (auto simp: due_def sent_other split: option.split)

lemma calm_other:
  "key_of r \<noteq> key_of req \<Longrightarrow> calm c (res(req := x)) (sent c res req a) r = calm c res a r"
  by (auto simp: calm_def sent_other split: option.splits)

lemma calm_own:
  "calm c res a req \<Longrightarrow> calm c (res(req := map_option (synced c) (res req))) (sent c res req a) req"
  by (auto simp: calm_def sent_def due_def split: option.splits)

lemma sent_published:
  assumes "\<And>g. due c res a req = Some g \<Longrightarrow> file_Path g \<noteq> Some p"
  shows "published (sent c res req a) p = published a p"
  using assms by (auto simp: sent_def publish_def unpublish_def split: option.splits)

lemma sent_own_published:
  assumes "due c res a req = Some g" and "file_Path g = Some p"
  shows "published (sent c res req a) p = (if res req = None then None else file_Contents g)"
  using assms by (simp add: sent_def publish_def unpublish_def)

lemma sent_own_tracked:
  assumes "due c res a req = Some g"
  shows "tracked (sent c res req a) (key_of req) = (if res req = None then None else Some g)"
  using assms by (simp add: sent_def)

text \<open>A call for a name drops what is due for it, or the name.\<close>

lemma effort_drop:
  assumes fin: "finite P" and q: "q \<in> P" and P': "P' = (if d q = None then P - {q} else P)"
    and d': "d' q = None" and same: "\<And>r. r \<in> P \<Longrightarrow> r \<noteq> q \<Longrightarrow> d' r = d r"
  shows "card P + card {r \<in> P. d r \<noteq> None} = Suc (card P' + card {r \<in> P'. d' r \<noteq> None})"
proof -
  have due: "{r \<in> P'. d' r \<noteq> None} = {r \<in> P. d r \<noteq> None} - {q}"
  proof (rule set_eqI)
    fix r
    show "r \<in> {r \<in> P'. d' r \<noteq> None} \<longleftrightarrow> r \<in> {r \<in> P. d r \<noteq> None} - {q}"
      by (cases "r = q"; cases "r \<in> P") (simp_all add: P' d' same)
  qed
  show ?thesis
  proof (cases "d q = None")
    case True
    then have "{r \<in> P'. d' r \<noteq> None} = {r \<in> P. d r \<noteq> None}" using due by auto
    with True card.remove [OF fin q] show ?thesis by (simp add: P')
  next
    case False
    have "P' = P" using P' False by auto
    moreover have "card {r \<in> P. d r \<noteq> None} = Suc (card ({r \<in> P. d r \<noteq> None} - {q}))"
      by (rule card.remove) (use fin q False in simp_all)
    ultimately show ?thesis unfolding due by simp
  qed
qed

section \<open>Environments that serve deletions too\<close>

locale draining_env = serving_env S contents kc files K resources up ready
  for S :: "'c cache_Store" and contents :: "'c \<Rightarrow> string \<Rightarrow> Object option"
    and kc :: "('w, 'r) kong_Client" and files :: "'w \<Rightarrow> string \<Rightarrow> string option"
    and K :: "'k k8s_Client" and resources :: "'k \<Rightarrow> NamespacedName \<Rightarrow> KongFile option"
    and up :: "'w \<Rightarrow> bool" and ready :: "'k \<Rightarrow> bool" +
  assumes delete_serves: "up w \<Longrightarrow> plain_file g \<Longrightarrow> \<not> isEmptyString (file_Path g) \<Longrightarrow>
      \<exists>v w'. FileService_Delete kc g w = ((v, None), w') \<and> up w'"
    and missing_serves: "ready k \<Longrightarrow> resources k req = None \<Longrightarrow>
      \<exists>e v. k_Get K req zero_KongFile k = (Some e, v) \<and> k_IsNotFound K e"
begin

lemma serve_missing:
  assumes wf: "cache_wf cached_in s" and env: "up (snd (prox s))" "ready (kube s)"
    and gone: "resources (kube s) req = None" and calm: "calm className (resources (kube s)) (portal_view s) req"
  shows "\<exists>t. Reconcile (resolver_Proxy S kc) K className now req s =
      Return ((\<lparr>Requeue = (due className (resources (kube s)) (portal_view s) req \<noteq> None)\<rparr>, None), t) \<and>
    up (snd (prox t)) \<and> kube t = kube s"
proof -
  from missing_serves [OF env(2) gone] obtain e where miss: "fetch_error K req s = Some e" "k_IsNotFound K e"
    by (auto simp: fetch_error_def)
  show ?thesis
  proof (cases "tracked (portal_view s) (key_of req)")
    case None
    have "cached_in (prox s) (key_of req) = None"
    proof (rule ccontr)
      assume "cached_in (prox s) (key_of req) \<noteq> None"
      then obtain r where "cached_in (prox s) (key_of req) = Some (KongFileObj r)"
        using wf by (metis cache_wfE not_None_eq)
      with None show False by (simp add: portal_of_def object_file_def)
    qed
    with Reconcile_missing_uncached [OF miss] None gone env show ?thesis by (simp add: due_def)
  next
    case (Some g)
    with calm gone have g: "plain_file g" "\<not> isEmptyString (file_Path g)" by (simp_all add: calm_def)
    from delete_serves [OF env(1) g] obtain v w where w: "FileService_Delete kc g (snd (prox s)) = ((v, None), w)" "up w"
      by blast
    show ?thesis
      by (rule missing_resolver [OF wf miss Some w(1), of className now])
        (use Some gone w(2) in \<open>simp add: due_def\<close>)
  qed
qed

text \<open>Every call for a calm resource goes through, does what was due and asks for another call only after
  a removal.\<close>

lemma serve_calm:
  assumes wf: "cache_wf cached_in s" and env: "up (snd (prox s))" "ready (kube s)"
    and calm: "calm className (resources (kube s)) (portal_view s) req"
  shows "\<exists>t. Reconcile (resolver_Proxy S kc) K className now req s =
      Return ((\<lparr>Requeue = (resources (kube s) req = None \<and>
        due className (resources (kube s)) (portal_view s) req \<noteq> None)\<rparr>, None), t) \<and>
    cache_wf cached_in t \<and> up (snd (prox t)) \<and> ready (kube t) \<and>
    resources (kube t) = (resources (kube s))(req := map_option (synced className) (resources (kube s) req)) \<and>
    portal_view t = sent className (resources (kube s)) req (portal_view s)"
proof -
  have "\<exists>t. Reconcile (resolver_Proxy S kc) K className now req s =
      Return ((\<lparr>Requeue = (resources (kube s) req = None \<and>
        due className (resources (kube s)) (portal_view s) req \<noteq> None)\<rparr>, None), t) \<and>
    up (snd (prox t)) \<and> ready (kube t) \<and>
    resources (kube t) = (resources (kube s))(req := map_option (synced className) (resources (kube s) req))"
  proof (cases "resources (kube s) req")
    case None
    from serve_missing [OF wf env None calm, of now] None env(2) show ?thesis by (auto simp: fun_upd_idem)
  next
    case (Some f)
    with calm have "servable className f" by (simp add: calm_def)
    from serve_one [OF env Some this, of now] Some show ?thesis by auto
  qed
  then obtain t where ret: "Reconcile (resolver_Proxy S kc) K className now req s =
      Return ((\<lparr>Requeue = (resources (kube s) req = None \<and>
        due className (resources (kube s)) (portal_view s) req \<noteq> None)\<rparr>, None), t)"
    and t: "up (snd (prox t))" "ready (kube t)"
      "resources (kube t) = (resources (kube s))(req := map_option (synced className) (resources (kube s) req))"
    by blast
  note sync = portal_sync_sent [OF calm, of now]
  have "cache_wf cached_in t"
    using Reconcile_wf [OF wf, of className now req] ret by auto
  moreover have "portal_view t = sent className (resources (kube s)) req (portal_view s)"
  proof (cases "resources (kube s) req")
    case None
    with calm have "plain_file g" if "tracked (portal_view s) (key_of req) = Some g" for g
      using that by (simp add: calm_def)
    moreover have "plain_file (Build f)" if "resources (kube s) req = Some f" for f using that None by simp
    ultimately show ?thesis using Reconcile_simulates [OF wf _ _ ret] by (simp only: sync)
  next
    case (Some f)
    with calm have f: "servable className f" by (simp add: calm_def)
    have found: "fetch_error K req s = None" "fetched K req s = f"
      using get_serves [OF env(2) Some] by (simp_all add: fetch_error_def fetched_def)
    show ?thesis
    proof (cases "awaits className f")
      case True
      with servable_awaits [OF f] have "plain_file (Build (fetched K req s))" by (simp add: found publishable_def)
      from sync_pending(1) [OF wf found(1) _ _ _ this ret] True servable_alive [OF f] show ?thesis
        by (simp add: found sync awaits_def)
    next
      case False
      with sync_settled [OF wf found(1) _ _ ret] servable_alive [OF f] show ?thesis
        by (auto simp: found sync awaits_def)
    qed
  qed
  ultimately show ?thesis using ret t by blast
qed

end

section \<open>A worker that drains its queue\<close>

locale draining_controller =
  managed_controller S contents kc files K resources Q pending again newPredicateFuncs +
  draining_env S contents kc files K resources up ready
  for S :: "'c cache_Store" and contents :: "'c \<Rightarrow> string \<Rightarrow> Object option"
    and kc :: "('w, 'r) kong_Client" and files :: "'w \<Rightarrow> string \<Rightarrow> string option"
    and K :: "'k k8s_Client" and resources :: "'k \<Rightarrow> NamespacedName \<Rightarrow> KongFile option"
    and Q :: "'q WorkQueue" and pending :: "'q \<Rightarrow> NamespacedName set"
    and again :: "Result \<times> error option \<Rightarrow> bool" and newPredicateFuncs :: "(ObjectMeta \<Rightarrow> bool) \<Rightarrow> Funcs"
    and up :: "'w \<Rightarrow> bool" and ready :: "'k \<Rightarrow> bool" +
  fixes className :: string
begin

abbreviation works_once :: "(('c, 'v, 'w) resolver_state, 'k, 'q) managed \<Rightarrow>
    (('c, 'v, 'w) resolver_state, 'k, 'q) managed \<Rightarrow> bool" where
  "works_once \<equiv> work_step (resolver_Proxy S kc) K resources Q again (the_preds className) className"

abbreviation view :: "(('c, 'v, 'w) resolver_state, 'k, 'q) managed \<Rightarrow> portal" where
  "view m \<equiv> portal_view (mg_world m)"

abbreviation due_in :: "(('c, 'v, 'w) resolver_state, 'k, 'q) managed \<Rightarrow> NamespacedName \<Rightarrow> File option" where
  "due_in m \<equiv> due className (stored resources m) (view m)"

definition served :: "(('c, 'v, 'w) resolver_state, 'k, 'q) managed \<Rightarrow> bool" where
  "served m \<longleftrightarrow> cache_wf cached_in (mg_world m) \<and> up (snd (prox (mg_world m))) \<and> ready (kube (mg_world m)) \<and>
     inj_on key_of (pending (mg_queue m)) \<and>
     (\<forall>req \<in> pending (mg_queue m). calm className (stored resources m) (view m) req)"

text \<open>Two calls for a resource whose first call sends a file, the second for the event of its own status
  update or for the requeue after a removal, and one for every other name.\<close>

definition effort :: "(('c, 'v, 'w) resolver_state, 'k, 'q) managed \<Rightarrow> nat" where
  "effort m = card (pending (mg_queue m)) + card {req \<in> pending (mg_queue m). due_in m req \<noteq> None}"

lemma effort_bound: "effort m \<le> 2 * card (pending (mg_queue m))"
  using card_mono [OF pending_finite, of "{req \<in> pending (mg_queue m). due_in m req \<noteq> None}" "mg_queue m"]
  by (auto simp: effort_def)

lemma served_call:
  assumes m: "served m" and get: "q_get Q (mg_queue m) = Some (req, q)"
  obtains t where "req \<in> pending (mg_queue m)"
    and "Reconcile (resolver_Proxy S kc) K className now req (mg_world m) =
      Return ((\<lparr>Requeue = (stored resources m req = None \<and> due_in m req \<noteq> None)\<rparr>, None), t)"
    and "cache_wf cached_in t" and "up (snd (prox t))" and "ready (kube t)"
    and "resources (kube t) = (stored resources m)(req := map_option (synced className) (stored resources m req))"
    and "portal_view t = sent className (stored resources m) req (view m)"
proof -
  from pending_get [OF get] have req: "req \<in> pending (mg_queue m)" by simp
  with m serve_calm [of "mg_world m" className req now] that [OF req] show ?thesis
    by (auto simp: served_def stored_def)
qed

text \<open>What one step of the worker does.\<close>

lemma work_served:
  assumes m: "served m" and step: "works_once m m'"
  obtains req where "req \<in> pending (mg_queue m)"
    and "stored resources m' = (stored resources m)(req := map_option (synced className) (stored resources m req))"
    and "view m' = sent className (stored resources m) req (view m)"
    and "pending (mg_queue m') = (if due_in m req = None then pending (mg_queue m) - {req} else pending (mg_queue m))"
    and "served m'"
  using step
proof (rule work_stepE)
  fix req q now out t reqs
  assume m': "m' = \<lparr>mg_world = t, mg_queue = notify Q (the_preds className) (stored resources m) (resources (kube t)) reqs
      (if again out then q_add Q req q else q)\<rparr>"
    and get: "q_get Q (mg_queue m) = Some (req, q)"
    and ret: "Reconcile (resolver_Proxy S kc) K className now req (mg_world m) = Return (out, t)"
    and reqs: "\<forall>r. r \<in> set reqs \<longleftrightarrow> stored resources m r \<noteq> resources (kube t) r"
  obtain t' where req: "req \<in> pending (mg_queue m)"
    and ret': "Reconcile (resolver_Proxy S kc) K className now req (mg_world m) =
      Return ((\<lparr>Requeue = (stored resources m req = None \<and> due_in m req \<noteq> None)\<rparr>, None), t')"
    and env: "cache_wf cached_in t'" "up (snd (prox t'))" "ready (kube t')"
    and res: "resources (kube t') = (stored resources m)(req := map_option (synced className) (stored resources m req))"
    and sent: "portal_view t' = sent className (stored resources m) req (view m)"
    by (rule served_call [OF m get, of now])
  from ret ret' have t: "t' = t" and again: "again out \<longleftrightarrow> stored resources m req = None \<and> due_in m req \<noteq> None"
    by (auto simp: again_iff)
  have changed: "r \<in> set reqs \<longleftrightarrow> r = req \<and> (\<exists>f. stored resources m req = Some f \<and> awaits className f)" for r
    using reqs res t by (cases "stored resources m req") auto
  have "r \<in> pending (mg_queue m') \<longleftrightarrow> r \<in> pending q \<or> r = req \<and> due_in m req \<noteq> None" for r
  proof (cases "stored resources m req")
    case None
    then show ?thesis by (simp add: m' pending_notify pending_add changed again) blast
  next
    case (Some f)
    then have "r \<in> pending (mg_queue m') \<longleftrightarrow> r \<in> pending q \<or> r = req \<and> awaits className f \<and>
        (\<exists>e. event_of (stored resources m r) (resources (kube t) r) = Some e \<and> passes (the_preds className) e)"
      by (simp add: m' pending_notify changed again)
    moreover have "resources (kube t) req = Some (synced className f)" using res t Some by simp
    ultimately show ?thesis using Some by (cases "r = req") (simp_all add: due_def)
  qed
  note member = this
  have pend: "pending (mg_queue m') = (if due_in m req = None then pending (mg_queue m) - {req} else pending (mg_queue m))"
  proof (rule set_eqI)
    fix r
    show "r \<in> pending (mg_queue m') \<longleftrightarrow>
        r \<in> (if due_in m req = None then pending (mg_queue m) - {req} else pending (mg_queue m))"
      using pending_get [OF get] by (cases "r = req") (simp_all add: member)
  qed
  have st: "stored resources m' = (stored resources m)(req := map_option (synced className) (stored resources m req))"
    unfolding m' stored_simps using res t by simp
  have view: "view m' = sent className (stored resources m) req (view m)"
    using sent t by (simp add: m')
  have sub: "pending (mg_queue m') \<subseteq> pending (mg_queue m)" by (simp add: pend)
  have "calm className (stored resources m') (view m') r" if r: "r \<in> pending (mg_queue m')" for r
  proof (cases "r = req")
    case True
    with calm_own [of className "stored resources m" "view m" req] m req show ?thesis
      unfolding st view by (simp add: served_def)
  next
    case False
    with r sub req m have "key_of r \<noteq> key_of req" by (auto simp: served_def dest: inj_onD)
    from calm_other [OF this, of className "stored resources m"] m r sub show ?thesis
      unfolding st view by (auto simp: served_def)
  qed
  moreover have "inj_on key_of (pending (mg_queue m'))"
    using m sub by (auto simp: served_def intro: inj_on_subset)
  ultimately have "served m'" using env t by (simp add: served_def m')
  then show ?thesis by (rule that [OF req st view pend])
qed

text \<open>What is due for the names of a set with distinct keys, after a call for one of them.\<close>

lemma work_due:
  assumes m: "served m" and step: "works_once m m'" and R: "pending (mg_queue m) \<subseteq> R" "inj_on key_of R"
  obtains req where "req \<in> pending (mg_queue m)"
    and "pending (mg_queue m') = (if due_in m req = None then pending (mg_queue m) - {req} else pending (mg_queue m))"
    and "due_in m' req = None" and "\<And>r. r \<in> R \<Longrightarrow> r \<noteq> req \<Longrightarrow> due_in m' r = due_in m r"
    and "\<And>r. stored resources m' r = None \<longleftrightarrow> stored resources m r = None"
    and "view m' = sent className (stored resources m) req (view m)" and "served m'"
proof (rule work_served [OF m step])
  fix req
  assume req: "req \<in> pending (mg_queue m)"
    and st: "stored resources m' = (stored resources m)(req := map_option (synced className) (stored resources m req))"
    and view: "view m' = sent className (stored resources m) req (view m)"
    and pend: "pending (mg_queue m') = (if due_in m req = None then pending (mg_queue m) - {req} else pending (mg_queue m))"
    and m': "served m'"
  have own: "due_in m' req = None" unfolding st view by (rule due_own)
  have other: "due_in m' r = due_in m r" if "r \<in> R" "r \<noteq> req" for r
  proof -
    from that R req have "key_of r \<noteq> key_of req" by (auto dest: inj_onD)
    then show ?thesis unfolding st view by (rule due_other)
  qed
  have "stored resources m' r = None \<longleftrightarrow> stored resources m r = None" for r by (simp add: st)
  with own other show thesis by (intro that [OF req pend _ _ _ view m'])
qed

lemma effort_step:
  assumes m: "served m" and step: "works_once m m'"
  shows "effort m = Suc (effort m')"
proof (rule work_due [OF m step order_refl])
  show "inj_on key_of (pending (mg_queue m))" using m by (simp add: served_def)
qed (unfold effort_def, rule effort_drop [OF pending_finite])

lemma none_lost_run:
  assumes lost: "none_lost resources pending className m" and run: "(works_once ^^ n) m m'"
  shows "none_lost resources pending className m'"
  using run
proof (induction n arbitrary: m')
  case (Suc n)
  then show ?case by (auto intro: none_lost_work)
qed (use lost in simp)

lemma worker_goes_on:
  assumes m: "served m" and "pending (mg_queue m) \<noteq> {}"
  shows "\<exists>m'. works_once m m'"
proof -
  obtain req q where get: "q_get Q (mg_queue m) = Some (req, q)"
    using assms(2) get_empty [of "mg_queue m"] by (cases "q_get Q (mg_queue m)") auto
  from served_call [OF m get, of 0] obtain t where
    ret: "Reconcile (resolver_Proxy S kc) K className 0 req (mg_world m) =
      Return ((\<lparr>Requeue = (stored resources m req = None \<and> due_in m req \<noteq> None)\<rparr>, None), t)"
    and res: "resources (kube t) = (stored resources m)(req := map_option (synced className) (stored resources m req))"
    by metis
  have "\<forall>r. r \<in> set (if stored resources m req = resources (kube t) req then [] else [req]) \<longleftrightarrow>
      stored resources m r \<noteq> resources (kube t) r"
    by (simp add: res)
  from work_step.works [OF get ret this] show ?thesis by blast
qed

lemma stuck_empty:
  "served m \<Longrightarrow> (\<nexists>m'. works_once m m') \<longleftrightarrow> pending (mg_queue m) = {}"
proof
  assume "served m" and "\<nexists>m'. works_once m m'"
  with worker_goes_on show "pending (mg_queue m) = {}" by metis
next
  assume "pending (mg_queue m) = {}"
  then have "q_get Q (mg_queue m) = None" by (simp add: get_empty)
  then show "\<nexists>m'. works_once m m'" by (metis work_stepE option.distinct(1))
qed

lemma drains_somehow:
  assumes "served m"
  shows "\<exists>n m'. (works_once ^^ n) m m' \<and> pending (mg_queue m') = {}"
  using assms
proof (induction "effort m" arbitrary: m rule: less_induct)
  case less
  show ?case
  proof (cases "pending (mg_queue m) = {}")
    case True
    then show ?thesis by (intro exI [of _ 0] exI [of _ m]) simp
  next
    case False
    from worker_goes_on [OF less.prems False] obtain m1 where m1: "works_once m m1" ..
    have "served m1" using work_served [OF less.prems m1] by metis
    from less.hyps [OF _ this] effort_step [OF less.prems m1] obtain n m' where
      "(works_once ^^ n) m1 m'" "pending (mg_queue m') = {}" by auto
    with relpowp_Suc_I2 [of works_once, OF m1] show ?thesis by blast
  qed
qed

text \<open>What has become of a name of the queue: nothing is due for it any more, and what was due has been
  done.\<close>

definition delivered :: "(('c, 'v, 'w) resolver_state, 'k, 'q) managed \<Rightarrow>
    (('c, 'v, 'w) resolver_state, 'k, 'q) managed \<Rightarrow> NamespacedName \<Rightarrow> bool" where
  "delivered m m' r \<longleftrightarrow> due_in m' r = None \<and>
     (\<forall>g. due_in m r = Some g \<longrightarrow>
       tracked (view m') (key_of r) = (if stored resources m r = None then None else Some g) \<and>
       (\<forall>p. file_Path g = Some p \<longrightarrow>
         published (view m') p = (if stored resources m r = None then None else file_Contents g)))"

text \<open>A call delivers what is due for its own name and leaves the others as they are.\<close>

lemma delivered_step:
  assumes "due_in m1 req = due_in m req \<or> delivered m m1 req"
    and "stored resources m1 req = None \<longleftrightarrow> stored resources m req = None"
    and "due_in m' req = None" and "view m' = sent className (stored resources m1) req (view m1)"
  shows "delivered m m' req"
proof (cases "due_in m1 req")
  case None
  then have "view m' = view m1" using assms(4) by (simp add: sent_def)
  with assms(1,3) None show ?thesis by (auto simp: delivered_def)
next
  case (Some g)
  with assms(1) have "due_in m req = Some g" by (auto simp: delivered_def)
  with sent_own_tracked [OF Some] sent_own_published [OF Some] assms(2-4) show ?thesis
    by (simp add: delivered_def)
qed

lemma delivered_frame:
  assumes "delivered m m1 r" and "due_in m' r = due_in m1 r" and "key_of r \<noteq> key_of req"
    and "\<And>g g'. due_in m r = Some g \<Longrightarrow> due_in m1 req = Some g' \<Longrightarrow> file_Path g' \<noteq> file_Path g"
    and "view m' = sent className (stored resources m1) req (view m1)"
  shows "delivered m m' r"
  unfolding delivered_def
proof (intro conjI allI impI)
  fix g
  assume g: "due_in m r = Some g"
  with assms(1,3,5) show "tracked (view m') (key_of r) = (if stored resources m r = None then None else Some g)"
    by (simp add: delivered_def sent_other)
  fix p
  assume p: "file_Path g = Some p"
  have "published (view m') p = published (view m1) p"
    unfolding assms(5) by (rule sent_published) (use assms(4) [OF g] p in simp)
  with assms(1) g p show "published (view m') p = (if stored resources m r = None then None else file_Contents g)"
    by (simp add: delivered_def)
qed (use assms(1,2) in \<open>simp add: delivered_def\<close>)

lemma drain_run:
  assumes m: "served m" and apart: "dues_apart className (stored resources m) (view m) (pending (mg_queue m))"
    and run: "(works_once ^^ n) m m'"
  shows "served m' \<and> effort m = n + effort m' \<and> pending (mg_queue m') \<subseteq> pending (mg_queue m) \<and>
    (\<forall>r \<in> pending (mg_queue m). (stored resources m' r = None \<longleftrightarrow> stored resources m r = None) \<and>
      (delivered m m' r \<or> r \<in> pending (mg_queue m') \<and> due_in m' r = due_in m r))"
  using run
proof (induction n arbitrary: m')
  case 0
  with m show ?case by auto
next
  case (Suc n)
  from Suc.prems obtain m1 where m1: "(works_once ^^ n) m m1" "works_once m1 m'" by auto
  from Suc.IH [OF m1(1)] have s1: "served m1" and e1: "effort m = n + effort m1"
    and sub: "pending (mg_queue m1) \<subseteq> pending (mg_queue m)"
    and kept: "\<And>r. r \<in> pending (mg_queue m) \<Longrightarrow> stored resources m1 r = None \<longleftrightarrow> stored resources m r = None"
    and ih: "\<And>r. r \<in> pending (mg_queue m) \<Longrightarrow>
      delivered m m1 r \<or> r \<in> pending (mg_queue m1) \<and> due_in m1 r = due_in m r" by blast+
  have inj: "inj_on key_of (pending (mg_queue m))" using m by (simp add: served_def)
  obtain req where req: "req \<in> pending (mg_queue m1)"
    and pend: "pending (mg_queue m') = (if due_in m1 req = None then pending (mg_queue m1) - {req} else pending (mg_queue m1))"
    and own: "due_in m' req = None"
    and other: "\<And>r. r \<in> pending (mg_queue m) \<Longrightarrow> r \<noteq> req \<Longrightarrow> due_in m' r = due_in m1 r"
    and st: "\<And>r. stored resources m' r = None \<longleftrightarrow> stored resources m1 r = None"
    and view: "view m' = sent className (stored resources m1) req (view m1)" and s': "served m'"
    by (rule work_due [OF s1 m1(2) sub inj]) blast
  have reqm: "req \<in> pending (mg_queue m)" using req sub by blast
  have each: "delivered m m' r \<or> r \<in> pending (mg_queue m') \<and> due_in m' r = due_in m r"
    if r: "r \<in> pending (mg_queue m)" for r
  proof (cases "r = req")
    case True
    have "due_in m1 req = due_in m req \<or> delivered m m1 req" using ih [OF reqm] by blast
    from delivered_step [OF this kept [OF reqm] own view] True show ?thesis by simp
  next
    case False
    from ih [OF r] show ?thesis
    proof
      assume d: "delivered m m1 r"
      have "key_of r \<noteq> key_of req" using inj_onD [OF inj _ r reqm] False by blast
      moreover have "file_Path g' \<noteq> file_Path g" if "due_in m r = Some g" "due_in m1 req = Some g'" for g g'
      proof -
        have "due_in m req = Some g'" using ih [OF reqm] that(2) by (auto simp: delivered_def)
        with apart reqm r False that(1) show ?thesis by (auto simp: dues_apart_def)
      qed
      ultimately show ?thesis using delivered_frame [OF d other [OF r False] _ _ view] by blast
    next
      assume "r \<in> pending (mg_queue m1) \<and> due_in m1 r = due_in m r"
      with False other [OF r False] show ?thesis by (simp add: pend)
    qed
  qed
  have "effort m = Suc n + effort m'" using e1 effort_step [OF s1 m1(2)] by simp
  moreover have "pending (mg_queue m') \<subseteq> pending (mg_queue m)" using sub by (auto simp: pend)
  ultimately show ?case using s' each kept st by blast
qed

end

section \<open>Properties\<close>

interpretation draining_model: draining_controller table_store DAList.lookup mem_client snd mem_kube_client snd
    fifo set asks_again object_predicate answers_all names_right "''kong''"
proof
  show "\<exists>v w'. FileService_Delete mem_client g w = ((v, None), w') \<and> answers_all w'"
    if "answers_all w" "\<not> isEmptyString (file_Path g)" for w g
    using that
    by (cases w)
      (auto simp: answers_all_def FileService_Delete_def mem_client_requests dest!: not_isEmptyStringD)
  show "\<exists>e v. k_Get mem_kube_client req zero_KongFile k = (Some e, v) \<and> k_IsNotFound mem_kube_client e"
    if "snd k req = None" for k req
    using that by (simp add: mem_kube_client_def mem_get_def)
qed

text \<open>C6. When Kong and the API server serve and nobody else changes anything, the worker is
  done after at most two calls for each name in the queue (the second for the event of its own status
  update, or for the requeue after a removal), it stops only with an empty queue, and then every
  resource of our class in the API server that is not being deleted is validated, the files of all
  such that were not validated are tracked and published, and the tracked files of all queued names
  without a resource are gone from Kong and from the cache. It is stated for queues in which every
  name is either that of a resource without a deletion timestamp, of another class or of ours with a
  known kind and a plain path, or that of a missing resource whose tracked file, if there is one, has
  a plain and not a blank path; in which different names have different keys; and in which no two
  names have files to push or delete at the same path.\<close>
theorem queue_drains:
  assumes dc: "draining_controller S contents kc files K resources Q pending again newPredicateFuncs up ready"
    and reachable: "reach (managed_init S resources Q (class_preds newPredicateFuncs className))
      (managed_step S kc K resources Q again (class_preds newPredicateFuncs className) className) m"
    and serving: "up (snd (prox (mg_world m)))" "ready (kube (mg_world m))"
    and calm: "\<forall>req \<in> pending (mg_queue m). calm className (stored resources m) (portal_of contents files (mg_world m)) req"
    and apart: "dues_apart className (stored resources m) (portal_of contents files (mg_world m)) (pending (mg_queue m))"
    and run: "(work_step (resolver_Proxy S kc) K resources Q again (class_preds newPredicateFuncs className) className ^^ n) m m'"
  shows "n \<le> 2 * card (pending (mg_queue m)) \<and>
    ((\<nexists>m''. work_step (resolver_Proxy S kc) K resources Q again (class_preds newPredicateFuncs className) className m' m'')
      \<longleftrightarrow> pending (mg_queue m') = {}) \<and>
    (pending (mg_queue m') = {} \<longrightarrow>
      (\<forall>req f. stored resources m' req = Some f \<longrightarrow> ours className f \<longrightarrow> undeleted f \<longrightarrow> validated f) \<and>
      (\<forall>req f p. stored resources m req = Some f \<longrightarrow> awaits className f \<longrightarrow> undeleted f \<longrightarrow>
        file_Path (Build f) = Some p \<longrightarrow>
        tracked (portal_of contents files (mg_world m')) (key_of req) = Some (Build f) \<and>
        files (snd (prox (mg_world m'))) p = file_Contents (Build f)) \<and>
      (\<forall>req g p. req \<in> pending (mg_queue m) \<longrightarrow> stored resources m req = None \<longrightarrow>
        tracked (portal_of contents files (mg_world m)) (key_of req) = Some g \<longrightarrow> file_Path g = Some p \<longrightarrow>
        tracked (portal_of contents files (mg_world m')) (key_of req) = None \<and>
        files (snd (prox (mg_world m'))) p = None))"
proof -
  note mc = draining_controller.axioms(1) [OF dc]
  note env = managed_controller.axioms(1) [OF mc]
  note lost = managed_controller.reach_none_lost [OF mc reachable]
  have wf: "cache_wf (\<lambda>st. contents (store (fst st))) (mg_world m)"
    by (rule reachable_wf [OF env managed_reach_ctrl [OF reachable]])
  then have m: "draining_controller.served contents files resources pending up ready className m"
    using serving calm apart by (simp add: draining_controller.served_def [OF dc] dues_apart_def)
  from draining_controller.drain_run [OF dc m apart run]
  have m': "draining_controller.served contents files resources pending up ready className m'"
    and effort: "draining_controller.effort contents files resources pending className m =
      n + draining_controller.effort contents files resources pending className m'"
    and each: "\<And>r. r \<in> pending (mg_queue m) \<Longrightarrow> pending (mg_queue m') = {} \<Longrightarrow>
      draining_controller.delivered contents files resources className m m' r" by blast+
  from effort draining_controller.effort_bound [OF dc, of className m] have "n \<le> 2 * card (pending (mg_queue m))"
    by simp
  moreover have "validated f" if "pending (mg_queue m') = {}" "stored resources m' req = Some f" "ours className f" "undeleted f" for req f
    using draining_controller.none_lost_run [OF dc lost run] that by (auto simp: none_lost_def awaits_def)
  moreover have "tracked (portal_of contents files (mg_world m')) (key_of req) = Some (Build f) \<and>
      files (snd (prox (mg_world m'))) p = file_Contents (Build f)"
    if "pending (mg_queue m') = {}" "stored resources m req = Some f" "awaits className f" "undeleted f"
      "file_Path (Build f) = Some p" for req f p
  proof -
    have "req \<in> pending (mg_queue m)" using lost that by (simp add: none_lost_def)
    from each [OF this that(1)] that(2-5) show ?thesis
      by (simp add: draining_controller.delivered_def [OF dc] due_def) (simp add: portal_of_def)
  qed
  moreover have "tracked (portal_of contents files (mg_world m')) (key_of req) = None \<and> files (snd (prox (mg_world m'))) p = None"
    if "pending (mg_queue m') = {}" "req \<in> pending (mg_queue m)" "stored resources m req = None"
      "tracked (portal_of contents files (mg_world m)) (key_of req) = Some g" "file_Path g = Some p" for req g p
    using each [OF that(2,1)] that(3-5)
    by (simp add: draining_controller.delivered_def [OF dc] due_def) (simp add: portal_of_def)
  ultimately show ?thesis
    using draining_controller.stuck_empty [OF dc m'] by blast
qed

text \<open>A resource has been published and is deleted while another one is created.\<close>

theorem queue_drains_witness:
  "\<exists>(m :: (((string, Object) alist, string, mem_kong) resolver_state, mem_kube, NamespacedName list) managed) n m'.
    stored snd m = [other_name \<mapsto> other_file] \<and> set (mg_queue m) = {sample_name, other_name} \<and>
    snd (snd (prox (mg_world m))) ''content/products/test.txt'' \<noteq> None \<and>
    (work_step (resolver_Proxy table_store mem_client) mem_kube_client snd fifo asks_again
        (class_preds object_predicate ''kong'') ''kong'' ^^ n) m m' \<and>
    n \<le> 4 \<and> set (mg_queue m') = {} \<and>
    snd (snd (prox (mg_world m'))) ''content/products/test.txt'' = None \<and>
    snd (snd (prox (mg_world m'))) ''base/assets/products/logo.svg'' = Some ''Yeah''"
proof -
  let ?preds = "class_preds object_predicate ''kong''"
  let ?step = "managed_step table_store mem_client mem_kube_client snd fifo asks_again ?preds ''kong''"
  let ?m0 = "managed_start [sample_name \<mapsto> sample_file] [sample_name] [] Map.empty"
  define t where "t = (pushed_then_removed [])\<lparr>kube := ([], [sample_name \<mapsto> set_validated sample_file])\<rparr>"
  have "\<exists>q. q_get fifo (mg_queue ?m0) = Some (sample_name, q)"
    by (simp add: managed_start_def offer_def) (simp add: fifo_def)
  then obtain q where get: "q_get fifo (mg_queue ?m0) = Some (sample_name, q)" ..
  have "set (mg_queue ?m0) = {sample_name}" unfolding managed_start_queue by auto
  with fifo_queue.pending_get [OF get] have q: "set q = {}" by simp
  have ret: "Reconcile (resolver_Proxy table_store mem_client) mem_kube_client ''kong'' 1 sample_name (mg_world ?m0) =
      Return (idle, t)"
    by (simp add: model_run t_def sample_resolver_def started_def pushed_then_removed_def publish_def fun_eq_iff)
  have "\<forall>r. r \<in> set [sample_name] \<longleftrightarrow> stored snd ?m0 r \<noteq> snd (kube t) r"
    by (simp add: t_def) (simp add: set_validated_def sample_file_def)
  note work = work_step.works [OF get ret this, where again = asks_again and preds = ?preds]
  define m1 where "m1 = \<lparr>mg_world = t, mg_queue = notify fifo ?preds (stored snd ?m0) (snd (kube t)) [sample_name]
      (if asks_again idle then q_add fifo sample_name q else q)\<rparr>"
  define m where "m = \<lparr>mg_world = (mg_world m1)\<lparr>kube := ([], [other_name \<mapsto> other_file])\<rparr>,
      mg_queue = notify fifo ?preds (stored snd m1) (snd (([], [other_name \<mapsto> other_file]) :: mem_kube))
        [sample_name, other_name] (mg_queue m1)\<rparr>"
  have r0: "reach (managed_init table_store snd fifo ?preds) ?step ?m0"
    by (rule reach_init) (rule managed_start_init, simp)
  have r1: "reach (managed_init table_store snd fifo ?preds) ?step m1"
    by (rule reach_step [OF r0]) (use managed_step.worker [OF work] in \<open>simp add: m1_def\<close>)
  have "api_step snd fifo ?preds m1 m"
    unfolding m_def by (rule api_step.api_changes) (simp add: m1_def t_def)
  then have "?step m1 m" by (rule managed_step.api_server)
  with r1 have reach: "reach (managed_init table_store snd fifo ?preds) ?step m" by (rule reach_step)
  have res1: "stored snd m1 = [sample_name \<mapsto> set_validated sample_file]" by (simp add: m1_def t_def fun_eq_iff)
  have st: "stored snd m = [other_name \<mapsto> other_file]" by (simp add: m_def fun_eq_iff)
  have queue1: "set (mg_queue m1) = {sample_name}"
  proof (rule set_eqI)
    fix r
    show "r \<in> set (mg_queue m1) \<longleftrightarrow> r \<in> {sample_name}"
      using q by (cases "r = sample_name")
        (simp_all add: m1_def t_def managed_model.pending_notify asks_again_def del: notify.simps)
  qed
  have queue: "set (mg_queue m) = {sample_name, other_name}"
  proof (rule set_eqI)
    fix r
    show "r \<in> set (mg_queue m) \<longleftrightarrow> r \<in> {sample_name, other_name}"
      by (cases "r = sample_name"; cases "r = other_name")
        (simp_all add: m_def managed_model.pending_notify queue1 res1 del: notify.simps)
  qed
  have view: "tracked (portal_of DAList.lookup snd (mg_world m)) = tracked (portal_of DAList.lookup snd (pushed_then_removed []))"
    "snd (prox (mg_world m)) = snd (prox (pushed_then_removed []))"
    by (simp_all add: m_def m1_def t_def)
  have up: "answers_all (snd (prox (mg_world m)))" and ready: "names_right (kube (mg_world m))"
    by (simp_all add: answers_all_def names_right_def view pushed_then_removed_tracks) (simp add: m_def)
  have calm: "\<forall>req \<in> set (mg_queue m). calm ''kong'' (stored snd m) (portal_of DAList.lookup snd (mg_world m)) req"
    using publishable_path(1) [OF samples_publishable(1)]
    by (simp add: queue st calm_def view pushed_then_removed_tracks sample_plain)
  have apart: "dues_apart ''kong'' (stored snd m) (portal_of DAList.lookup snd (mg_world m)) (set (mg_queue m))"
    by (simp add: queue st dues_apart_def due_def view pushed_then_removed_tracks)
      (simp add: key_of_def sample_name_def other_name_def)
  have "cache_wf (\<lambda>st. DAList.lookup (store (fst st))) (mg_world m)"
    by (rule reachable_wf [OF model.portal_env_axioms managed_reach_ctrl [OF reach]])
  then have "draining_model.served m"
    using up ready calm apart by (simp add: draining_model.served_def dues_apart_def)
  from draining_model.drains_somehow [OF this] obtain n m' where
    run: "(draining_model.works_once ^^ n) m m'" and stop: "set (mg_queue m') = {}" by blast
  note drained = queue_drains [OF draining_model.draining_controller_axioms reach up ready calm apart run]
  have "card {sample_name, other_name} = 2" by simp
  with drained have n: "n \<le> 4" by (simp add: queue)
  have "undeleted other_file" by (simp add: undeleted_def other_file_def sample_file_def)
  with drained stop st have "snd (snd (prox (mg_world m'))) ''base/assets/products/logo.svg'' = file_Contents (Build other_file)"
    by (elim conjE) (drule mp, assumption, elim conjE allE [of _ other_name] allE [of _ other_file], simp)
  moreover have "snd (snd (prox (mg_world m'))) ''content/products/test.txt'' = None"
  proof -
    have "\<forall>req g p. req \<in> set (mg_queue m) \<longrightarrow> stored snd m req = None \<longrightarrow>
        tracked (portal_of DAList.lookup snd (mg_world m)) (key_of req) = Some g \<longrightarrow> file_Path g = Some p \<longrightarrow>
        tracked (portal_of DAList.lookup snd (mg_world m')) (key_of req) = None \<and> snd (snd (prox (mg_world m'))) p = None"
      using drained stop by (elim conjE) (drule mp, assumption, elim conjE, assumption)
    moreover have "tracked (portal_of DAList.lookup snd (mg_world m)) (key_of sample_name) = Some (Build sample_file)"
      by (simp add: view pushed_then_removed_tracks)
    moreover have "sample_name \<in> set (mg_queue m)" "stored snd m sample_name = None" by (simp_all add: queue st)
    ultimately show ?thesis using sample_facts(5) by blast
  qed
  moreover have "snd (snd (prox (mg_world m))) ''content/products/test.txt'' \<noteq> None"
    by (simp add: view pushed_then_removed_tracks publish_def) (simp add: Build_def sample_file_def kind_defs)
  ultimately show ?thesis using st queue run stop n 
    by - (rule exI [of _ m], rule exI [of _ n], rule exI [of _ m'], simp)
qed

end
