(* ===== verification/Component_Properties.thy ===== *)
theory Component_Properties
  imports Reference_Env
begin

text \<open>
  Properties of single components below the reconciler: what \<^verbatim>\<open>Build\<close> makes of a resource, the resolver's
  construction, the cache and its reader, the class filter, and the guards of the file service. Their
  witnesses run the components on the environment of \<^verbatim>\<open>Reference_Env\<close>.
\<close>

section \<open>Build and the resolver\<close>

lemma path_split:
  assumes "pre @ a @ ''/'' @ b = pre' @ a' @ ''/'' @ b'" and "kind_prefix k = Some pre"
    and "kind_prefix k' = Some pre'" and "CHR ''/'' \<notin> set b" and "CHR ''/'' \<notin> set b'"
  shows "k = k' \<and> a = a' \<and> b = b'"
  using kind_prefix_disjoint [OF assms(2,3,1)] key_injective [OF _ assms(4,5)] by blast

text \<open>C24. Two resources of known kinds whose file names hold no slash are given the same path
  in Kong exactly when they agree in kind, path and name. The namespace and the name of the resource
  itself do not enter.\<close>
theorem Build_path_injective:
  assumes "Spec_Kind (kf_Spec f) \<in> {CONTENT, ASSET, SPECIFICATION}"
    and "Spec_Kind (kf_Spec g) \<in> {CONTENT, ASSET, SPECIFICATION}"
    and "CHR ''/'' \<notin> set (Spec_Name (kf_Spec f))" and "CHR ''/'' \<notin> set (Spec_Name (kf_Spec g))"
  shows "file_Path (Build f) = file_Path (Build g) \<longleftrightarrow>
    Spec_Kind (kf_Spec f) = Spec_Kind (kf_Spec g) \<and> Spec_Path (kf_Spec f) = Spec_Path (kf_Spec g) \<and>
    Spec_Name (kf_Spec f) = Spec_Name (kf_Spec g)"
proof -
  obtain pre pre' where pre: "kind_prefix (Spec_Kind (kf_Spec f)) = Some pre"
    "kind_prefix (Spec_Kind (kf_Spec g)) = Some pre'"
    using assms(1,2) by auto
  note paths = Build_known(1) [OF pre(1)] Build_known(1) [OF pre(2)]
  show ?thesis
  proof
    assume "file_Path (Build f) = file_Path (Build g)"
    then show "Spec_Kind (kf_Spec f) = Spec_Kind (kf_Spec g) \<and> Spec_Path (kf_Spec f) = Spec_Path (kf_Spec g) \<and>
        Spec_Name (kf_Spec f) = Spec_Name (kf_Spec g)"
      unfolding paths option.inject by (rule path_split [OF _ pre assms(3,4)])
  next
    assume "Spec_Kind (kf_Spec f) = Spec_Kind (kf_Spec g) \<and> Spec_Path (kf_Spec f) = Spec_Path (kf_Spec g) \<and>
        Spec_Name (kf_Spec f) = Spec_Name (kf_Spec g)"
    then show "file_Path (Build f) = file_Path (Build g)"
      using pre by (simp add: paths)
  qed
qed

text \<open>The sample, its twin in another namespace, and the sample as an asset.\<close>

theorem Build_path_injective_witness:
  "name_of staging_file \<noteq> name_of sample_file \<and> file_Path (Build staging_file) = file_Path (Build sample_file) \<and>
    file_Path (Build (sample_file\<lparr>kf_Spec := (kf_Spec sample_file)\<lparr>Spec_Kind := ASSET\<rparr>\<rparr>)) \<noteq>
      file_Path (Build sample_file)"
proof (intro conjI)
  show "name_of staging_file \<noteq> name_of sample_file"
    using staging_facts(1,3) by simp
  show "file_Path (Build staging_file) = file_Path (Build sample_file)"
    by (subst Build_path_injective) (simp_all add: staging_file_def sample_file_def)
  show "file_Path (Build (sample_file\<lparr>kf_Spec := (kf_Spec sample_file)\<lparr>Spec_Kind := ASSET\<rparr>\<rparr>)) \<noteq>
      file_Path (Build sample_file)"
    by (subst Build_path_injective) (simp_all add: sample_file_def kind_defs)
qed

lemma Build_content:
  "Spec_Kind (kf_Spec f) = CONTENT \<Longrightarrow> file_Contents (Build f) = Some (front_matter (kf_Spec f))"
  using Build_known(2) [of f "''content/''"] by (simp add: file_text_def)

lemma SplitN_line:
  "CHR 0x0A \<notin> set line \<Longrightarrow> SplitN (line @ NL @ rest) (CHR 0x0A) (Suc (Suc n)) = line # SplitN rest (CHR 0x0A) (Suc n)"
  using SplitN_at_sep [of "CHR 0x0A" line rest n] by (simp add: NL_def)

text \<open>C25. For a content resource whose title and layout are single lines, splitting the text
  that Build makes at its first four line breaks gives back the title, the layout and the content,
  between the two fences of the front matter.\<close>
theorem front_matter_roundtrip:
  assumes "Spec_Kind (kf_Spec f) = CONTENT"
    and "CHR 0x0A \<notin> set (Spec_Title (kf_Spec f))" and "CHR 0x0A \<notin> set (Spec_Layout (kf_Spec f))"
  shows "\<exists>text. file_Contents (Build f) = Some text \<and>
    SplitN text (CHR 0x0A) 5 =
      [''---'', ''title: '' @ Spec_Title (kf_Spec f), ''layout: '' @ Spec_Layout (kf_Spec f), ''---'',
       Spec_Content (kf_Spec f)]"
proof -
  let ?T = "''title: '' @ Spec_Title (kf_Spec f)" and ?L = "''layout: '' @ Spec_Layout (kf_Spec f)"
  have lines: "CHR 0x0A \<notin> set ''---''" "CHR 0x0A \<notin> set ?T" "CHR 0x0A \<notin> set ?L"
    using assms(2,3) by simp_all
  have parts: "front_matter (kf_Spec f) = ''---'' @ NL @ ?T @ NL @ ?L @ NL @ ''---'' @ NL @ Spec_Content (kf_Spec f)"
    by (simp only: front_matter_def append_assoc)
  have five: "(5 :: nat) = Suc (Suc (Suc (Suc (Suc 0))))" by simp
  have "SplitN (front_matter (kf_Spec f)) (CHR 0x0A) 5 = [''---'', ?T, ?L, ''---'', Spec_Content (kf_Spec f)]"
    unfolding parts five SplitN_line [OF lines(1)] SplitN_line [OF lines(2)] SplitN_line [OF lines(3)]
      SplitN.simps(2) ..
  then show ?thesis
    using Build_content [OF assms(1)] by blast
qed

theorem front_matter_roundtrip_witness:
  "\<exists>text. file_Contents (Build sample_file) = Some text \<and>
    SplitN text (CHR 0x0A) 5 = [''---'', ''title: test'', ''layout: data.html'', ''---'', ''Yeah'']"
proof -
  have f: "Spec_Kind (kf_Spec sample_file) = CONTENT" "Spec_Title (kf_Spec sample_file) = ''test''"
    "Spec_Layout (kf_Spec sample_file) = ''data.html''" "Spec_Content (kf_Spec sample_file) = ''Yeah''"
    by (simp_all add: sample_file_def)
  from front_matter_roundtrip [of sample_file] show ?thesis
    by (simp add: f)
qed

definition matter_text :: "string \<Rightarrow> string \<Rightarrow> string \<Rightarrow> string" where
  "matter_text title layout content =
     ''---'' @ NL @ ''title: '' @ title @ NL @ ''layout: '' @ layout @ NL @ ''---'' @ NL @ content"

lemma front_matter_text:
  "front_matter spec = matter_text (Spec_Title spec) (Spec_Layout spec) (Spec_Content spec)"
  by (simp only: front_matter_def matter_text_def)

lemma matter_text_shift:
  "matter_text (a @ NL @ ''layout: '' @ b @ NL @ ''---'' @ NL @ c) l d =
    matter_text a b (c @ NL @ ''layout: '' @ l @ NL @ ''---'' @ NL @ d)"
  by (simp only: matter_text_def append_assoc)

text \<open>C26. Without the restriction to single lines the front matter can be forged: a title that
  holds line breaks makes the same text as another resource with its own layout and content, so the
  layout given in the spec is demoted to page content.\<close>
theorem front_matter_injection:
  "file_Contents (Build (f\<lparr>kf_Spec := (kf_Spec f)\<lparr>Spec_Kind := CONTENT,
      Spec_Title := a @ NL @ ''layout: '' @ b @ NL @ ''---'' @ NL @ c\<rparr>\<rparr>)) =
   file_Contents (Build (f\<lparr>kf_Spec := (kf_Spec f)\<lparr>Spec_Kind := CONTENT,
      Spec_Title := a, Spec_Layout := b,
      Spec_Content := c @ NL @ ''layout: '' @ Spec_Layout (kf_Spec f) @ NL @ ''---'' @ NL @ Spec_Content (kf_Spec f)\<rparr>\<rparr>))"
  by (simp add: Build_content front_matter_text matter_text_shift del: append.simps)

lemma unknown_kind_is_never_sent:
  assumes "cache_store S contents"
    and "Spec_Kind (kf_Spec (at_ref h r)) \<notin> {CONTENT, ASSET, SPECIFICATION}"
  shows "\<exists>e c. UpdateObject S kc h (Some (KongFileObj r)) (p, w) = Return (Some e, (p\<lparr>store := c\<rparr>, w)) \<and>
      contents c = (contents (store p))(object_key h r \<mapsto> KongFileObj r)"
proof -
  have "isEmptyString (file_Path (Build (at_ref h r)))"
    using assms(2) by (simp add: Build_path_blank_iff kind_prefix_def)
  then obtain e where e: "FileService_Update kc (Build (at_ref h r)) w = ((None, Some e), w)"
    using FileService_blank_path(1) [of "Build (at_ref h r)" kc w] by blast
  have "resolver S contents" using assms(1) by (simp add: resolver_def)
  then obtain c where "contents c = (contents (store p))(object_key h r \<mapsto> KongFileObj r)"
    and "UpdateObject S kc h (Some (KongFileObj r)) (p, w) =
      Return (snd (fst (FileService_Update kc (Build (at_ref h r)) w)),
        (p\<lparr>store := c\<rparr>, snd (FileService_Update kc (Build (at_ref h r)) w)))"
    by (rule resolver.UpdateObject_file)
  then show ?thesis by (simp add: e del: UpdateObject.simps) blast
qed

lemma unknown_kind_is_never_sent_witness:
  "\<exists>e c. UpdateObject table_store mem_client \<lparr>at_ref = (\<lambda>_. zero_KongFile), next_ref = 1\<rparr>
      (Some (KongFileObj 0)) (sample_resolver, ([], Map.empty)) =
    Return (Some e, (sample_resolver\<lparr>store := c\<rparr>, ([], Map.empty)))"
proof -
  have "Spec_Kind (kf_Spec (at_ref \<lparr>at_ref = (\<lambda>_. zero_KongFile), next_ref = 1\<rparr> 0)) \<notin>
      {CONTENT, ASSET, SPECIFICATION}"
    by (simp add: zero_KongFile_def kind_defs)
  from unknown_kind_is_never_sent [OF table.cache_store_axioms this, of mem_client sample_resolver "([], Map.empty)"] show ?thesis by blast
qed

text \<open>C27. The constructor of the resolver returns a resolver exactly when the Admin API root is
  read in time, its configuration is an object whose database is one of off, empty or postgres, the
  version parses, and the metrics register without a name clash.\<close>
theorem constructor_succeeds_iff:
  "(\<exists>p env'. NewCacheBasedProxyWithStagger deps v0 kong0 cls rs tmo c (w, reg) = Return (Inr p, env')) \<longleftrightarrow>
    (\<exists>rootConf w' proxyConfig mode ver reg'.
      id_Root deps tmo w = (Inr rootConf, w') \<and>
      dyn_index rootConf ''configuration'' = DMap proxyConfig \<and>
      dyn_index proxyConfig ''database'' = DString mode \<and>
      mode \<in> {''off'', [], ''postgres''} \<and>
      id_ParseSemanticVersion deps (id_VersionFromInfo deps rootConf) = Inr ver \<and>
      NewCtrlFuncMetrics (id_MustRegister deps) reg = Return (controllerMetrics, reg'))"
  (is "?L \<longleftrightarrow> ?R")
proof
  let ?p0 = "\<lparr>configApplied = False, kongConfig = kong0, enableReverseSync = rs, dbmode = [],
    version = v0, store = c, promMetrics = None, controllerClassName = cls, proxyRequestTimeout = tmo\<rparr>"
  assume ?L
  then have "\<exists>p env'. initialize deps ?p0 (w, reg) = Return ((None, p), env')"
    by (auto simp: NewCacheBasedProxyWithStagger_def Let_def simp del: initialize.simps
        split: outcome.splits option.splits)
  then obtain p w' reg' where "initialize deps ?p0 (w, reg) = Return ((None, p), (w', reg'))"
    by auto
  then show ?R
    by (rule initialize_success) (auto simp: in_memory_of_def split: if_splits)
next
  assume ?R
  then show ?L
    by (auto simp: NewCacheBasedProxyWithStagger_def Let_def kongRootWithTimeout_def in_memory_of_def)
qed

lemma empty_database_mode:
  assumes "NewCacheBasedProxyWithStagger deps v0 kong0 cls rs tmo c env = Return (Inr p, env')"
    and "dbmode p = []"
  shows "InMemory (kongConfig p) \<and> IsReady p \<and> NeedLeaderElection p"
  using constructed_resolver [OF assms(1)] assms(2)
  by (simp add: resolver_ok_def in_memory_of_def IsReady_def NeedLeaderElection_def)

section \<open>Cache, class filter and file service\<close>

lemma cache_update_then_read:
  assumes "cache_store S contents"
    and "CHR ''/'' \<notin> set nm" and "CHR ''/'' \<notin> set (om_Name (kf_Meta (at_ref h r)))"
    and "CacheStores_Update S h (Some (KongFileObj r)) (stores s) = Return (e, c)"
  shows "GetKongFile S (s\<lparr>stores := c\<rparr>) ns nm =
    (if ns = om_Namespace (kf_Meta (at_ref h r)) \<and> nm = om_Name (kf_Meta (at_ref h r)) then Return (Inr r)
     else GetKongFile S s ns nm)"
proof -
  have c: "contents c = (contents (stores s))(object_key h r \<mapsto> KongFileObj r)"
    using cache_store.update_contents [OF assms(1), of "keyFunc h" "KongFileObj r" "object_key h r" "stores s"] assms(4)
    by (simp add: CacheStores_Update_def)
  have "ns @ ''/'' @ nm = object_key h r \<longleftrightarrow>
      ns = om_Namespace (kf_Meta (at_ref h r)) \<and> nm = om_Name (kf_Meta (at_ref h r))"
    using key_injective [OF _ assms(2,3)] by (auto simp: object_key_def)
  then show ?thesis
    by (auto simp: GetKongFile_def Let_def cache_store.get_by_key_contents [OF assms(1)] c)
qed

lemma cache_update_then_read_witness:
  "\<exists>c. CacheStores_Update table_store \<lparr>at_ref = (\<lambda>_. sample_file), next_ref = 1\<rparr> (Some (KongFileObj 0))
      (NewCacheStores table_store) = Return (None, c) \<and>
    GetKongFile table_store \<lparr>stores = c, controllerClass = ''kong'', isValidControllerClass = ControllerClassValidator ''kong''\<rparr>
      ''default'' ''my-kong-file'' = Return (Inr 0)"
proof -
  let ?h = "\<lparr>at_ref = (\<lambda>_. sample_file), next_ref = 1\<rparr>"
  let ?s = "\<lparr>stores = NewCacheStores table_store, controllerClass = ''kong'',
    isValidControllerClass = ControllerClassValidator ''kong''\<rparr>"
  have "\<exists>c. CacheStores_Update table_store ?h (Some (KongFileObj 0)) (stores ?s) = Return (None, c)"
    by (simp add: go_ops table_store_def)
  then obtain c where c: "CacheStores_Update table_store ?h (Some (KongFileObj 0)) (stores ?s) = Return (None, c)" ..
  have "GetKongFile table_store (?s\<lparr>stores := c\<rparr>) ''default'' ''my-kong-file'' = Return (Inr 0)"
    using cache_update_then_read [OF table.cache_store_axioms _ _ c, of "''my-kong-file''" "''default''"]
    by (simp add: sample_file_def)
  with c show ?thesis by auto
qed

lemma ListKongFiles_of_class:
  assumes "cache_store S contents"
    and "isValidControllerClass s = ControllerClassValidator c"
  shows "\<exists>rs. ListKongFiles S h s = Return (Inr rs) \<and>
    set rs = {r. KongFileObj r \<in> ran (contents (stores s)) \<and>
      map_index (om_Annotations (kf_Meta (at_ref h r))) ControllerClassKey \<in> {'''', c}}"
proof -
  obtain rs where rs: "ListAllKongFiles S s = Inr rs" "set rs = {r. KongFileObj r \<in> ran (contents (stores s))}"
    using cache_store.ListAllKongFiles_contents [OF assms(1), of s] by blast
  have "isValidControllerClass s obj ExactOrEmptyClassMatch =
      Return (map_index (om_Annotations obj) ControllerClassKey \<in> {'''', c})" for obj
    by (simp add: assms(2) ControllerClassValidator_def validController_cases Let_def)
  from cache_store.ListKongFiles_filter [OF assms(1) this rs(1)] rs(2) show ?thesis
    by auto
qed

lemma ListKongFiles_of_class_witness:
  "\<exists>rs. ListKongFiles table_store \<lparr>at_ref = (\<lambda>_. sample_file), next_ref = 1\<rparr>
      \<lparr>stores = DAList.update ''default/my-kong-file'' (KongFileObj 0) DAList.empty, controllerClass = ''kong'',
        isValidControllerClass = ControllerClassValidator ''kong''\<rparr> = Return (Inr rs) \<and> set rs = {0}"
proof -
  let ?s = "\<lparr>stores = DAList.update ''default/my-kong-file'' (KongFileObj 0) DAList.empty, controllerClass = ''kong'',
        isValidControllerClass = ControllerClassValidator ''kong''\<rparr>"
  have "isValidControllerClass ?s = ControllerClassValidator ''kong''" by simp
  from ListKongFiles_of_class [OF table.cache_store_axioms this, of "\<lparr>at_ref = (\<lambda>_. sample_file), next_ref = 1\<rparr>"]
  show ?thesis
    by (auto simp: sample_file_def map_index_def)
qed

lemma cache_rejects_other_kinds:
  "CacheStores_Add S h (Some (OtherObj g n m)) c =
      Return (Some (Errorf ''cannot add unsupported kind %q to the store'' [g]), c) \<and>
    CacheStores_Update S h (Some (OtherObj g n m)) c =
      Return (Some (Errorf ''cannot add unsupported kind %q to the store'' [g]), c) \<and>
    CacheStores_Delete S h (Some (OtherObj g n m)) c =
      Return (Some (Errorf ''cannot delete unsupported kind %q from the store'' [g]), c) \<and>
    CacheStores_Get S h (Some (OtherObj g n m)) c =
      (None, False, Some (Errorf ''%T is not a supported cache object type'' [g])) \<and>
    \<not> returned (CacheStores_Add S h None c) \<and> \<not> returned (CacheStores_Update S h None c) \<and>
    \<not> returned (CacheStores_Delete S h None c) \<and> fst (snd (CacheStores_Get S h None c)) = False"
  by (simp add: go_ops unsupported_kind_def)

text \<open>C30. The generated event filter compared with its purpose: create, delete and generic
  events pass when the spec check is on or the annotation check is on and the annotation names the
  class, as Reconcile decides it; an update event passes always, because the class test of the new
  object is not guarded by the flags.\<close>
theorem event_filter:
  fixes old new :: ObjectMeta
  assumes "filters_by_object newPredicateFuncs"
    and "preds = GeneratePredicateFuncsForControllerClassFilter newPredicateFuncs name specCheck annotationCheck"
  shows "CreateFunc preds new = (specCheck \<or> annotationCheck \<and> MatchesControllerClassName new name) \<and>
    DeleteFunc preds = CreateFunc preds \<and> GenericFunc preds = CreateFunc preds \<and>
    UpdateFunc preds old new"
  using class_filter_events [OF assms] by simp

theorem event_filter_witness:
  "UpdateFunc (GeneratePredicateFuncsForControllerClassFilter object_predicate ''kong'' False True)
    ((kf_Meta sample_file)\<lparr>om_Annotations := Map.empty\<rparr>) ((kf_Meta sample_file)\<lparr>om_Annotations := Map.empty\<rparr>) \<and>
   \<not> CreateFunc (GeneratePredicateFuncsForControllerClassFilter object_predicate ''kong'' False True)
    ((kf_Meta sample_file)\<lparr>om_Annotations := Map.empty\<rparr>)"
  using event_filter [OF filters_by_object_predicate refl, of "''kong''" False True
      "(kf_Meta sample_file)\<lparr>om_Annotations := Map.empty\<rparr>" "(kf_Meta sample_file)\<lparr>om_Annotations := Map.empty\<rparr>"]
  by (simp add: MatchesControllerClassName_iff)

lemma class_checks_compared:
  "(ControllerClassValidator c obj ExactClassMatch = Return True \<longleftrightarrow>
      MatchesControllerClassName obj c \<or> c = '''' \<and> om_Annotations obj ControllerClassKey = None) \<and>
   (ControllerClassValidator c obj ExactOrEmptyClassMatch = Return True \<longleftrightarrow>
      MatchesControllerClassName obj c \<or> MatchesControllerClassName obj '''' \<or>
      om_Annotations obj ControllerClassKey = None) \<and>
   ControllerClassValidator c obj IgnoreClassMatch = Return True \<and>
   (returned (ControllerClassValidator c obj m) \<longleftrightarrow>
      m \<in> {IgnoreClassMatch, ExactOrEmptyClassMatch, ExactClassMatch})"
  by (auto simp: ControllerClassValidator_def validController_cases validController_panics_iff
      MatchesControllerClassName_iff map_index_def Let_def split: option.splits)

end
