(* ===== verification/Request_Bounds.thy ===== *)
theory Request_Bounds
  imports Reference_Env
begin

text \<open>
  How many requests a call of the reconciler sends to Kong. The client is wrapped in a counter, which
  counts every request that is sent, answered or not; a measure that each of the proxy's operations raises
  by one at most is raised by a call as often as the call uses them.
\<close>

section \<open>Counting\<close>

definition counting :: "('w, 'r) kong_Client \<Rightarrow> (nat \<times> 'w, 'r) kong_Client" where
  "counting kc =
     \<lparr>kc_NewRequest = (\<lambda>w. kc_NewRequest kc (snd w)),
      kc_Do = (\<lambda>req v w. case kc_Do kc req v (snd w) of (r, w') \<Rightarrow> (r, (Suc (fst w), w')))\<rparr>"

definition at_most :: "nat \<Rightarrow> nat \<Rightarrow> nat \<Rightarrow> bool" where
  "at_most k m n \<longleftrightarrow> m \<le> n \<and> n \<le> m + k"

lemma at_most_trans: "at_most k l m \<Longrightarrow> at_most k' m n \<Longrightarrow> at_most (k + k') l n"
  by (simp add: at_most_def)

lemma at_most_mono: "at_most k m n \<Longrightarrow> k \<le> k' \<Longrightarrow> at_most k' m n"
  by (simp add: at_most_def)

lemma at_most_refl [simp]: "at_most k m m"
  by (simp add: at_most_def)

section \<open>Any proxy with a measure\<close>

locale measured_proxy =
  fixes P :: "'p Proxy" and \<mu> :: "'p \<Rightarrow> nat"
  assumes update_one: "pr_UpdateObject P h obj p = Return (e, p') \<Longrightarrow> at_most 1 (\<mu> p) (\<mu> p')"
    and delete_one: "pr_DeleteObject P h obj p = Return (e, p') \<Longrightarrow> at_most 1 (\<mu> p) (\<mu> p')"
    and exists_one: "pr_ObjectExists P h obj p = Return (be, p') \<Longrightarrow> at_most 1 (\<mu> p) (\<mu> p')"
begin

lemma ensure_one:
  "EnsureProxyDeleteObject P h obj p = Return (r, p') \<Longrightarrow> at_most 1 (\<mu> p) (\<mu> p')"
  by (auto simp: EnsureProxyDeleteObject_def dest: delete_one
      split: prod.splits if_splits outcome.splits option.splits)

lemma call_settled:
  assumes "fetch_error K req s = None" and "\<not> terminating now (fetched K req s)"
    and "\<not> ours className (fetched K req s) \<or> validated (fetched K req s)"
    and "Reconcile P K className now req s = Return (out, t)"
  shows "\<mu> (prox t) = \<mu> (prox s)"
  using Reconcile_settled [OF assms(1-3), of P] assms(4) by auto

lemma call_terminating:
  assumes "fetch_error K req s = None" and "terminating now (fetched K req s)"
    and ret: "Reconcile P K className now req s = Return (out, t)"
  shows "at_most 2 (\<mu> (prox s)) (\<mu> (prox t))"
proof -
  let ?h = "put_new s (fetched K req s)" and ?obj = "Some (KongFileObj (new_ref s))"
  from ret obtain be p where p: "pr_ObjectExists P ?h ?obj (prox s) = Return (be, p)"
    and rest: "prox t = p \<or> (\<exists>e. pr_DeleteObject P ?h ?obj p = Return (e, prox t))"
    unfolding Reconcile_terminating [OF assms(1,2)] Let_def by (auto split: outcome.splits if_splits)
  from rest have "at_most 1 (\<mu> p) (\<mu> (prox t))"
    by (auto dest: delete_one)
  from at_most_trans [OF exists_one [OF p] this] show ?thesis by (simp add: numeral_2_eq_2)
qed

lemma call_other:
  assumes "fetch_error K req s = None \<Longrightarrow> \<not> terminating now (fetched K req s)"
    and ret: "Reconcile P K className now req s = Return (out, t)"
  shows "at_most 1 (\<mu> (prox s)) (\<mu> (prox t))"
proof (cases "fetch_error K req s")
  case (Some err)
  then show ?thesis
    using ret Reconcile_unreadable [OF Some] Reconcile_missing [OF Some]
    by (cases "k_IsNotFound K err") (auto simp: Let_def dest: ensure_one)
next
  case None
  note alive = assms(1) [OF None]
  show ?thesis
  proof (cases "ours className (fetched K req s) \<and> \<not> validated (fetched K req s)")
    case True
    then show ?thesis
      using ret Reconcile_pending [OF None alive, of className P]
      by (auto simp: Let_def dest: update_one split: outcome.splits option.splits prod.splits)
  next
    case False
    then show ?thesis
      using call_settled [OF None alive _ ret] by auto
  qed
qed

end

section \<open>The resolver with a counting client\<close>

lemma counted_request:
  "request_response (counting kc) m ep body w = (r, w') \<Longrightarrow> at_most 1 (fst w) (fst w')"
  by (auto simp: request_response_def counting_def at_most_def split: sum.splits prod.splits if_splits)

lemma counted_service:
  "FileService_Update (counting kc) f w = (r, w') \<Longrightarrow> at_most 1 (fst w) (fst w')"
  "FileService_Get (counting kc) f w = (r, w') \<Longrightarrow> at_most 1 (fst w) (fst w')"
  "FileService_Delete (counting kc) f w = (r, w') \<Longrightarrow> at_most 1 (fst w) (fst w')"
  by (auto simp: go_ops dest: counted_request split: if_splits sum.splits prod.splits)
    (auto simp: counting_def at_most_def split: prod.splits)

interpretation counted: measured_proxy "resolver_Proxy S (counting kc)" "\<lambda>st. fst (snd st)"
  for S :: "'c cache_Store" and kc :: "('w, 'r) kong_Client"
proof
  fix h obj e be and p p' :: "('c, 'v, nat \<times> 'w) resolver_state"
  obtain q w where p: "p = (q, w)" by (cases p)
  show "pr_UpdateObject (resolver_Proxy S (counting kc)) h obj p = Return (e, p') \<Longrightarrow> at_most 1 (fst (snd p)) (fst (snd p'))"
    by (auto simp: p resolver_Proxy_def unsupported_kind_def dest: counted_service
        split: option.splits Object.splits outcome.splits prod.splits)
  show "pr_DeleteObject (resolver_Proxy S (counting kc)) h obj p = Return (e, p') \<Longrightarrow> at_most 1 (fst (snd p)) (fst (snd p'))"
    by (auto simp: p resolver_Proxy_def unsupported_kind_def dest: counted_service
        split: option.splits Object.splits outcome.splits prod.splits)
  show "pr_ObjectExists (resolver_Proxy S (counting kc)) h obj p = Return (be, p') \<Longrightarrow> at_most 1 (fst (snd p)) (fst (snd p'))"
    by (auto simp: p resolver_Proxy_def unsupported_kind_def dest: counted_service
        split: option.splits Object.splits prod.splits if_splits)
qed

section \<open>Property\<close>

text \<open>C23. One call of Reconcile sends at most two requests to Kong, two only for a terminating
  resource (a check and a delete), at most one for a missing or a pending resource, and none for a
  resource that is validated or of another class, whatever the answers are.\<close>
theorem Reconcile_request_bound:
  assumes "Reconcile (resolver_Proxy S (counting kc)) K className now req s = Return (out, t)"
  shows "fst (snd (prox s)) \<le> fst (snd (prox t)) \<and>
    fst (snd (prox t)) \<le> fst (snd (prox s)) +
      (if fetch_error K req s \<noteq> None then 1
       else if terminating now (fetched K req s) then 2
       else if \<not> ours className (fetched K req s) \<or> validated (fetched K req s) then 0
       else 1)"
proof -
  note settled = counted.call_settled [OF _ _ _ assms]
    and dying = counted.call_terminating [OF _ _ assms] and other = counted.call_other [OF _ assms]
  show ?thesis
  proof (cases "fetch_error K req s = None")
    case True
    then show ?thesis
      using settled dying other by (auto simp: at_most_def)
  next
    case False
    then show ?thesis
      using other by (auto simp: at_most_def)
  qed
qed

text \<open>The sample in deletion, with its file in Kong: a check and a delete.\<close>

theorem Reconcile_request_bound_witness:
  "\<exists>out t. Reconcile (resolver_Proxy table_store (counting mem_client)) mem_kube_client ''kong'' 9 sample_name
      \<lparr>objects = \<lparr>at_ref = (\<lambda>_. zero_KongFile), next_ref = 0\<rparr>,
       prox = (sample_resolver, (0, ([], publish (Build sample_file) Map.empty))),
       kube = ([], [sample_name \<mapsto> sample_file
         \<lparr>kf_Meta := (kf_Meta sample_file)\<lparr>om_DeletionTimestamp := Some 3\<rparr>\<rparr>])\<rparr> = Return (out, t) \<and>
    fst (snd (prox t)) \<le> 2"
proof -
  let ?f = "sample_file\<lparr>kf_Meta := (kf_Meta sample_file)\<lparr>om_DeletionTimestamp := Some 3\<rparr>\<rparr>"
  let ?s = "\<lparr>objects = \<lparr>at_ref = (\<lambda>_. zero_KongFile), next_ref = 0\<rparr>,
    prox = (sample_resolver, (0, ([], publish (Build sample_file) Map.empty))),
    kube = ([], [sample_name \<mapsto> ?f])\<rparr>"
  have "name_of ?f = sample_name"
    by (simp add: name_of_def sample_file_def sample_name_def)
  then have found: "fetch_error mem_kube_client sample_name ?s = None"
    by (simp add: fetch_error_def mem_kube_client_def mem_get_def)
  have "returned (Reconcile (resolver_Proxy table_store (counting mem_client)) mem_kube_client ''kong'' 9 sample_name ?s)"
    by (simp add: model_run counting_def publish_def)
  then obtain out t where t: "Reconcile (resolver_Proxy table_store (counting mem_client)) mem_kube_client ''kong'' 9
      sample_name ?s = Return (out, t)"
    by (auto simp: returned_iff)
  from Reconcile_request_bound [OF t] found have "fst (snd (prox t)) \<le> 2"
    by (auto split: if_splits)
  with t show ?thesis by blast
qed

end
