(* ===== verification/Admin_Client.thy ===== *)
theory Admin_Client
  imports Go_Strings
begin

text \<open>
  The set-up of the Kong client, \<^verbatim>\<open>internal/adminapi\<close>: \<^verbatim>\<open>MakeHTTPClient\<close> and
  \<^verbatim>\<open>GetKongClientForWorkspace\<close> of \<^verbatim>\<open>client.go\<close>, and the round tripper of \<^verbatim>\<open>header_round_tripper.go\<close>.

  \<^verbatim>\<open>MakeHTTPClient\<close> works on three pieces of shared state, which the model threads through: the options it
  gets by pointer, the transport \<^verbatim>\<open>http.DefaultTransport\<close> and the client \<^verbatim>\<open>http.DefaultClient\<close>. Reading
  files and the certificate library are parameters, and so is go-kong's client.
\<close>

section \<open>MakeHTTPClient\<close>

record HTTPClientOpts =
  TLSSkipVerify :: bool
  TLSServerName :: string
  CACertPath :: string
  CACert :: string
  Headers :: "string list"
  TLSClientCertPath :: string
  TLSClientCert :: string
  TLSClientKeyPath :: string
  TLSClientKey :: string

record ('pool, 'cert) client_TLS =
  InsecureSkipVerify :: bool
  ServerName :: string
  RootCAs :: "'pool option"
  ClientCertificates :: "'cert list"

text \<open>\<^verbatim>\<open>AppendCertsFromPEM\<close> on a new pool: the pool, if a certificate was found.\<close>

record ('pool, 'cert) tls_lib =
  ReadFile :: "string \<Rightarrow> error + string"
  CertPool :: "string \<Rightarrow> 'pool option"
  X509KeyPair :: "string \<Rightarrow> string \<Rightarrow> error + 'cert"

text \<open>The process-wide values: the default transport's TLS configuration, and the headers of the round tripper
  installed in the default client. The round tripper always wraps the default transport itself.\<close>

record ('pool, 'cert) http_globals =
  DefaultTransport_TLS :: "('pool, 'cert) client_TLS option"
  DefaultClient_Headers :: "string list option"

text \<open>The steps of \<^verbatim>\<open>MakeHTTPClient\<close>: the root pool, the reading of the certificate and key files into the
  options, and the client certificate.\<close>

definition root_pool :: "('pool, 'cert) tls_lib \<Rightarrow> HTTPClientOpts \<Rightarrow> error + 'pool option" where
  "root_pool lib opts =
     (if CACertPath opts \<noteq> '''' \<and> CACert opts \<noteq> '''' then
        Inl (Errorf ''both --kong-admin-ca-cert-file and --kong-admin-ca-certare set; please remove one or the other'' [])
      else
        (let fromValue =
           (if CACert opts \<noteq> '''' then
              (case CertPool lib (CACert opts) of
                 None \<Rightarrow> Inl (Errorf ''failed to load kong-admin-ca-cert'' [])
               | Some pool \<Rightarrow> Inr (Some pool))
            else Inr None)
         in case fromValue of
              Inl err \<Rightarrow> Inl err
            | Inr pool \<Rightarrow>
                (if CACertPath opts \<noteq> '''' then
                   (case ReadFile lib (CACertPath opts) of
                      Inl err \<Rightarrow> Inl (Wrapf ''failed to read kong-admin-ca-cert from path '%s': %w'' [CACertPath opts] err)
                    | Inr cert \<Rightarrow>
                        (case CertPool lib cert of
                           None \<Rightarrow> Inl (Errorf (''failed to load kong-admin-ca-cert from path '%s'' @ [CHR 0x27]) [CACertPath opts])
                         | Some pool' \<Rightarrow> Inr (Some pool')))
                 else Inr pool)))"

definition read_client_pair :: "('pool, 'cert) tls_lib \<Rightarrow> HTTPClientOpts \<Rightarrow> error option \<times> HTTPClientOpts" where
  "read_client_pair lib opts =
     (if TLSClientCertPath opts \<noteq> '''' \<and> TLSClientCert opts \<noteq> '''' then
        (Some (Errorf ''both --kong-admin-tls-client-cert-file and --kong-admin-tls-client-certare set; please remove one or the other'' []), opts)
      else if TLSClientKeyPath opts \<noteq> '''' \<and> TLSClientKey opts \<noteq> '''' then
        (Some (Errorf ''both --kong-admin-tls-client-key-file and --kong-admin-tls-client-keyare set; please remove one or the other'' []), opts)
      else
        (let certRead =
           (if TLSClientCertPath opts \<noteq> '''' then
              (case ReadFile lib (TLSClientCertPath opts) of
                 Inl err \<Rightarrow> (Some (Wrapf ''failed to read certificate file %s: %w'' [TLSClientCertPath opts] err), opts)
               | Inr cert \<Rightarrow> (None, opts\<lparr>TLSClientCert := cert\<rparr>))
            else (None, opts))
         in case certRead of
              (Some err, opts1) \<Rightarrow> (Some err, opts1)
            | (None, opts1) \<Rightarrow>
                (if TLSClientKeyPath opts1 \<noteq> '''' then
                   (case ReadFile lib (TLSClientKeyPath opts1) of
                      Inl err \<Rightarrow> (Some (Wrapf ''failed to read key file %s: %w'' [TLSClientKeyPath opts1] err), opts1)
                    | Inr key \<Rightarrow> (None, opts1\<lparr>TLSClientKey := key\<rparr>))
                 else (None, opts1))))"

definition client_certificates :: "('pool, 'cert) tls_lib \<Rightarrow> HTTPClientOpts \<Rightarrow> error + 'cert list" where
  "client_certificates lib opts =
     (if TLSClientCert opts \<noteq> '''' \<and> TLSClientKey opts = '''' then
        Inl (Errorf ''client certificate was provided, but the client key was not'' [])
      else if TLSClientKey opts \<noteq> '''' \<and> TLSClientCert opts = '''' then
        Inl (Errorf ''client key was provided, but the client certificate was not'' [])
      else if TLSClientCert opts \<noteq> '''' \<and> TLSClientKey opts \<noteq> '''' then
        (case X509KeyPair lib (TLSClientCert opts) (TLSClientKey opts) of
           Inl err \<Rightarrow> Inl (Wrapf
             ''failed to load kong-admin-tls-client-cert and kong-admin-tls-client-key certificate: %w'' [] err)
         | Inr cert \<Rightarrow> Inr [cert])
      else Inr [])"

text \<open>The client returned is \<^verbatim>\<open>http.DefaultClient\<close> itself; the result is its error, with the options and the
  process-wide values as they are afterwards.\<close>

definition MakeHTTPClient :: "('pool, 'cert) tls_lib \<Rightarrow> HTTPClientOpts \<Rightarrow> ('pool, 'cert) http_globals \<Rightarrow>
    error option \<times> HTTPClientOpts \<times> ('pool, 'cert) http_globals" where
  "MakeHTTPClient lib opts g =
     (case root_pool lib opts of
        Inl err \<Rightarrow> (Some err, opts, g)
      | Inr pool \<Rightarrow>
          (case read_client_pair lib opts of
             (Some err, opts') \<Rightarrow> (Some err, opts', g)
           | (None, opts') \<Rightarrow>
               (case client_certificates lib opts' of
                  Inl err \<Rightarrow> (Some err, opts', g)
                | Inr certs \<Rightarrow>
                    (let tlsConfig = \<lparr>InsecureSkipVerify = TLSSkipVerify opts, ServerName = TLSServerName opts,
                           RootCAs = pool, ClientCertificates = certs\<rparr>
                     in (None, opts',
                         g\<lparr>DefaultTransport_TLS := Some tlsConfig, DefaultClient_Headers := Some (Headers opts')\<rparr>)))))"

section \<open>Lemmas on MakeHTTPClient\<close>

lemma MakeHTTPClient_success:
  assumes "MakeHTTPClient lib opts g = (None, opts', g')"
  obtains pool certs where "root_pool lib opts = Inr pool" and "read_client_pair lib opts = (None, opts')"
    and "client_certificates lib opts' = Inr certs"
    and "g' = g\<lparr>DefaultTransport_TLS := Some \<lparr>InsecureSkipVerify = TLSSkipVerify opts,
        ServerName = TLSServerName opts, RootCAs = pool, ClientCertificates = certs\<rparr>,
      DefaultClient_Headers := Some (Headers opts')\<rparr>"
  using assms by (auto simp: MakeHTTPClient_def Let_def split: sum.splits prod.splits option.splits)

lemma MakeHTTPClient_failure: "MakeHTTPClient lib opts g = (Some e, opts', g') \<Longrightarrow> g' = g"
  by (auto simp: MakeHTTPClient_def Let_def split: sum.splits prod.splits option.splits)

lemma read_client_pair_ok:
  assumes "read_client_pair lib opts = (None, opts')"
  shows "\<exists>cert key. opts' = opts\<lparr>TLSClientCert := cert, TLSClientKey := key\<rparr> \<and>
    (if TLSClientCertPath opts = '''' then cert = TLSClientCert opts
     else ReadFile lib (TLSClientCertPath opts) = Inr cert) \<and>
    (if TLSClientKeyPath opts = '''' then key = TLSClientKey opts
     else ReadFile lib (TLSClientKeyPath opts) = Inr key)"
  using assms
  by (cases opts) (auto simp: read_client_pair_def Let_def split: sum.splits prod.splits option.splits if_splits)

lemma root_pool_ok:
  "root_pool lib opts = Inr pool \<Longrightarrow> pool = None \<longleftrightarrow> CACert opts = '''' \<and> CACertPath opts = ''''"
  by (auto simp: root_pool_def Let_def eq_commute [of "Some _"] split: sum.splits option.splits if_splits)

lemma client_certificates_ok:
  assumes "client_certificates lib opts = Inr certs"
  shows "(certs = [] \<longleftrightarrow> TLSClientCert opts = '''' \<and> TLSClientKey opts = '''') \<and>
    (TLSClientCert opts = '''' \<longleftrightarrow> TLSClientKey opts = '''')"
  using assms by (auto simp: client_certificates_def split: sum.splits if_splits)

lemma root_pool_cong:
  "root_pool lib (opts\<lparr>TLSClientCert := cert, TLSClientKey := key\<rparr>) = root_pool lib opts"
  by (simp add: root_pool_def cong: option.case_cong sum.case_cong)

text \<open>The headers of the options are never written, and a success installs them.\<close>

lemma MakeHTTPClient_headers:
  assumes "MakeHTTPClient lib opts g = (err, opts', g')"
  shows "Headers opts' = Headers opts" and "err = None \<Longrightarrow> DefaultClient_Headers g' = Some (Headers opts)"
proof -
  have "Headers (snd (read_client_pair lib opts)) = Headers opts"
    by (auto simp: read_client_pair_def Let_def split: sum.splits prod.splits option.splits)
  then show "Headers opts' = Headers opts" and "err = None \<Longrightarrow> DefaultClient_Headers g' = Some (Headers opts)"
    using assms by (auto simp: MakeHTTPClient_def Let_def split: sum.splits prod.splits option.splits)
qed

section \<open>HeaderRoundTripper\<close>

type_synonym header = "string \<Rightarrow> string list option"

text \<open>One configured header, added to the copy of the request's header: the name is all before the first
  colon, the value all after it; without a colon it is skipped.\<close>

definition add_header :: "string \<Rightarrow> header \<Rightarrow> header" where
  "add_header s hdr =
     (let split = SplitN s (CHR '':'') 2
      in if length split \<ge> 2 then hdr(split ! 0 \<mapsto> [split ! 1]) else hdr)"

definition inject_headers :: "string list \<Rightarrow> header \<Rightarrow> header" where
  "inject_headers hs hdr = fold add_header hs hdr"

text \<open>A request is its header and the rest; the wrapped round tripper is a parameter.\<close>

record 'req http_Request =
  rq_Header :: header
  rq_Rest :: 'req

definition RoundTrip :: "string list \<Rightarrow> ('req http_Request \<Rightarrow> 'w \<Rightarrow> 'resp \<times> 'w) \<Rightarrow> 'req http_Request \<Rightarrow> 'w \<Rightarrow>
    'resp \<times> 'w" where
  "RoundTrip hs rt req w =
     (let newRequest = req\<lparr>rq_Header := inject_headers hs (rq_Header req)\<rparr>
      in rt newRequest w)"

lemma add_header_pair:
  assumes "CHR '':'' \<notin> set k"
  shows "add_header (k @ '':'' @ v) hdr = hdr(k \<mapsto> [v])"
  using assms by (simp add: add_header_def SplitN_two Let_def takeWhile_at_sep dropWhile_at_sep)

lemma add_header_no_colon: "CHR '':'' \<notin> set s \<Longrightarrow> add_header s hdr = hdr"
  by (simp add: add_header_def SplitN_two Let_def)

lemma add_header_other:
  assumes "CHR '':'' \<in> set s \<Longrightarrow> takeWhile (\<lambda>c. c \<noteq> CHR '':'') s \<noteq> k"
  shows "add_header s hdr k = hdr k"
  using assms by (auto simp: add_header_def SplitN_two Let_def)

lemma inject_headers_append: "inject_headers (hs @ [s]) hdr = add_header s (inject_headers hs hdr)"
  by (simp add: inject_headers_def)

lemma inject_headers_other:
  assumes "\<And>s. s \<in> set hs \<Longrightarrow> CHR '':'' \<in> set s \<Longrightarrow> takeWhile (\<lambda>c. c \<noteq> CHR '':'') s \<noteq> k"
  shows "inject_headers hs hdr k = hdr k"
  using assms
proof (induction hs rule: rev_induct)
  case Nil
  then show ?case by (simp add: inject_headers_def)
next
  case (snoc s hs)
  then show ?case by (simp add: inject_headers_append add_header_other)
qed

section \<open>GetKongClientForWorkspace\<close>

text \<open>\<^verbatim>\<open>clientSetup\<close> is a process-wide mutex that only this function takes. Taking it while it is held
  blocks: nothing else will release it.\<close>

datatype 'a blocking =
    Done 'a
  | Blocked

text \<open>go-kong's client, over the state \<open>'w\<close> of Kong and the network; a client is its base URL and its
  workspace.\<close>

record kong_client =
  cl_URL :: string
  cl_Workspace :: string

record 'w workspace_api =
  ws_NewClient :: "string \<Rightarrow> error + kong_client"
  ws_ExistsByName :: "string \<Rightarrow> 'w \<Rightarrow> (error + bool) \<times> 'w"
  ws_Create :: "string \<Rightarrow> 'w \<Rightarrow> error option \<times> 'w"

fun GetKongClientForWorkspace :: "'w workspace_api \<Rightarrow> string \<Rightarrow> string \<Rightarrow> bool \<times> 'w \<Rightarrow>
    ((error + kong_client) \<times> bool \<times> 'w) blocking" where
  "GetKongClientForWorkspace api adminURL wsName (locked, w) =
     (case ws_NewClient api adminURL of
        Inl err \<Rightarrow> Done (Inl (Wrapf ''creating Kong client: %w'' [] err), (locked, w))
      | Inr client \<Rightarrow>
          (if wsName = '''' then Done (Inr client, (locked, w))
           else if locked then Blocked
           else
             (case ws_ExistsByName api wsName w of
                (Inl err, w1) \<Rightarrow> Done (Inl (Wrapf ''looking up workspace: %w'' [] err), (True, w1))
              | (Inr exists, w1) \<Rightarrow>
                  (let created = (if \<not> exists then ws_Create api wsName w1 else (None, w1))
                   in case created of
                        (Some err, w2) \<Rightarrow> Done (Inl (Wrapf ''creating workspace: %w'' [] err), (True, w2))
                      | (None, w2) \<Rightarrow> Done (Inr (client\<lparr>cl_Workspace := wsName\<rparr>), (False, w2))))))"

text \<open>The contract of the workspace calls: a check that succeeds tells whether the workspace is there and
  changes nothing, a creation that succeeds makes it.\<close>

locale workspaces =
  fixes api :: "'w workspace_api"
    and spaces :: "'w \<Rightarrow> string set"
  assumes exists_tells: "ws_ExistsByName api n w = (Inr b, w') \<Longrightarrow> spaces w' = spaces w \<and> (b \<longleftrightarrow> n \<in> spaces w)"
    and create_makes: "ws_Create api n w = (None, w') \<Longrightarrow> spaces w' = insert n (spaces w)"
begin

lemma client_workspace:
  assumes "GetKongClientForWorkspace api url ws (False, w) = Done (Inr client, (locked, w'))"
  shows "\<not> locked \<and> (ws \<noteq> '''' \<longrightarrow> cl_Workspace client = ws \<and> spaces w' = insert ws (spaces w))"
  using assms
  by (auto simp: Let_def dest: exists_tells create_makes
      split: sum.splits prod.splits option.splits if_splits)

end

text \<open>A Kong with a list of workspaces, which refuses the requests it is told to.\<close>

type_synonym mem_spaces = "bool list \<times> string list"

definition mem_workspaces :: "mem_spaces workspace_api" where
  "mem_workspaces =
     \<lparr>ws_NewClient = (\<lambda>url. if url = '''' then Inl (External ''empty URL'')
        else Inr \<lparr>cl_URL = url, cl_Workspace = ''''\<rparr>),
      ws_ExistsByName = (\<lambda>n (answers, ws).
        if answers \<noteq> [] \<and> \<not> hd answers then (Inl (External ''503 Service Unavailable''), (tl answers, ws))
        else (Inr (n \<in> set ws), (tl answers, ws))),
      ws_Create = (\<lambda>n (answers, ws).
        if answers \<noteq> [] \<and> \<not> hd answers then (Some (External ''503 Service Unavailable''), (tl answers, ws))
        else (None, (tl answers, n # ws)))\<rparr>"

interpretation mem_spaces: workspaces mem_workspaces "\<lambda>w. set (snd w)"
  by unfold_locales (auto simp: mem_workspaces_def split: prod.splits if_splits)

section \<open>Properties\<close>

text \<open>C32. A successful MakeHTTPClient with a client certificate file that is not empty writes
  the text of the certificate back into its options; a second call with these options fails with the
  complaint that both the file and the value are set, and changes nothing.\<close>
theorem client_setup_is_not_repeatable:
  assumes first: "MakeHTTPClient lib opts g = (None, opts', g')"
    and path: "TLSClientCertPath opts \<noteq> ''''"
    and cert: "ReadFile lib (TLSClientCertPath opts) \<noteq> Inr ''''"
  shows "ReadFile lib (TLSClientCertPath opts) = Inr (TLSClientCert opts') \<and>
    MakeHTTPClient lib opts' g' =
      (Some (Errorf ''both --kong-admin-tls-client-cert-file and --kong-admin-tls-client-certare set; please remove one or the other'' []),
        opts', g')"
proof -
  obtain pool where pool: "root_pool lib opts = Inr pool" and read: "read_client_pair lib opts = (None, opts')"
    by (rule MakeHTTPClient_success [OF first]) blast
  obtain pem key where opts': "opts' = opts\<lparr>TLSClientCert := pem, TLSClientKey := key\<rparr>"
    and written: "ReadFile lib (TLSClientCertPath opts) = Inr pem"
    using read_client_pair_ok [OF read] path by auto
  with cert have "TLSClientCert opts' \<noteq> ''''" and "TLSClientCertPath opts' \<noteq> ''''"
    using path by auto
  then have "read_client_pair lib opts' = (Some (Errorf
      ''both --kong-admin-tls-client-cert-file and --kong-admin-tls-client-certare set; please remove one or the other'' []), opts')"
    by (simp only: read_client_pair_def simp_thms if_True)
  moreover have "root_pool lib opts' = Inr pool"
    using pool by (simp add: opts' root_pool_cong)
  ultimately show ?thesis
    using written by (simp add: MakeHTTPClient_def opts')
qed

definition sample_opts :: HTTPClientOpts where
  "sample_opts =
     \<lparr>TLSSkipVerify = False, TLSServerName = '''', CACertPath = '''', CACert = '''', Headers = [],
      TLSClientCertPath = ''/tls/tls.crt'', TLSClientCert = '''', TLSClientKeyPath = ''/tls/tls.key'',
      TLSClientKey = ''''\<rparr>"

text \<open>A library that finds every file, and takes every certificate.\<close>

definition sample_tls :: "(string, string) tls_lib" where
  "sample_tls = \<lparr>ReadFile = (\<lambda>path. Inr (''PEM '' @ path)), CertPool = Some, X509KeyPair = (\<lambda>cert key. Inr cert)\<rparr>"

theorem client_setup_is_not_repeatable_witness:
  "\<exists>opts' g' e. MakeHTTPClient sample_tls sample_opts \<lparr>DefaultTransport_TLS = None, DefaultClient_Headers = None\<rparr> =
      (None, opts', g') \<and> TLSClientCert opts' = ''PEM /tls/tls.crt'' \<and>
    MakeHTTPClient sample_tls opts' g' = (Some e, opts', g')"
proof -
  let ?g = "\<lparr>DefaultTransport_TLS = None, DefaultClient_Headers = None\<rparr>"
  have "\<exists>opts' g'. MakeHTTPClient sample_tls sample_opts ?g = (None, opts', g')"
    by (simp add: MakeHTTPClient_def root_pool_def read_client_pair_def client_certificates_def Let_def
        sample_opts_def sample_tls_def)
  then obtain opts' g' where c: "MakeHTTPClient sample_tls sample_opts ?g = (None, opts', g')" by blast
  from client_setup_is_not_repeatable [OF c] c show ?thesis
    by (auto simp: sample_opts_def sample_tls_def)
qed

lemma MakeHTTPClient_result:
  assumes "MakeHTTPClient lib opts g = (err, opts', g')"
  shows "(err \<noteq> None \<longrightarrow> g' = g) \<and>
    (err = None \<longrightarrow>
      (\<exists>pool certs. DefaultTransport_TLS g' = Some \<lparr>InsecureSkipVerify = TLSSkipVerify opts,
          ServerName = TLSServerName opts, RootCAs = pool, ClientCertificates = certs\<rparr> \<and>
        DefaultClient_Headers g' = Some (Headers opts) \<and>
        (pool = None \<longleftrightarrow> CACert opts = '''' \<and> CACertPath opts = '''') \<and>
        (certs = [] \<longleftrightarrow> TLSClientCert opts' = '''' \<and> TLSClientKey opts' = '''') \<and>
        (TLSClientCert opts' = '''' \<longleftrightarrow> TLSClientKey opts' = '''')))"
proof (cases err)
  case (Some e)
  then show ?thesis using MakeHTTPClient_failure [of lib opts g e opts' g'] assms by simp
next
  case None
  with assms have "MakeHTTPClient lib opts g = (None, opts', g')" by simp
  then obtain pool certs where ok: "root_pool lib opts = Inr pool" "read_client_pair lib opts = (None, opts')"
    "client_certificates lib opts' = Inr certs"
    and g': "g' = g\<lparr>DefaultTransport_TLS := Some \<lparr>InsecureSkipVerify = TLSSkipVerify opts,
        ServerName = TLSServerName opts, RootCAs = pool, ClientCertificates = certs\<rparr>,
      DefaultClient_Headers := Some (Headers opts')\<rparr>"
    by (rule MakeHTTPClient_success)
  have "Headers opts' = Headers opts"
    using read_client_pair_ok [OF ok(2)] by auto
  with None g' root_pool_ok [OF ok(1)] client_certificates_ok [OF ok(3)] show ?thesis by simp
qed

lemma MakeHTTPClient_result_witness:
  "\<exists>opts' g'. MakeHTTPClient sample_tls sample_opts \<lparr>DefaultTransport_TLS = None, DefaultClient_Headers = None\<rparr> =
      (None, opts', g') \<and> TLSClientCert opts' = ''PEM /tls/tls.crt'' \<and>
    (\<exists>tls. DefaultTransport_TLS g' = Some tls \<and> ClientCertificates tls \<noteq> [])"
proof -
  let ?g = "\<lparr>DefaultTransport_TLS = None, DefaultClient_Headers = None\<rparr>"
  have "\<exists>opts' g'. MakeHTTPClient sample_tls sample_opts ?g = (None, opts', g') \<and>
      TLSClientCert opts' = ''PEM /tls/tls.crt''"
    by (simp add: MakeHTTPClient_def root_pool_def read_client_pair_def client_certificates_def Let_def
        sample_opts_def sample_tls_def)
  then obtain opts' g' where c: "MakeHTTPClient sample_tls sample_opts ?g = (None, opts', g')"
    and cert: "TLSClientCert opts' = ''PEM /tls/tls.crt''" by blast
  from MakeHTTPClient_result [OF c] c cert show ?thesis by auto
qed

text \<open>A configured header key:value, the last one for its key, reaches the transport as the only value of the
  key; headers that no configured entry names, and the rest of the request, are passed on unchanged.\<close>

lemma configured_header_is_sent:
  assumes hs: "hs = earlier @ (k @ '':'' @ v) # later" and k: "CHR '':'' \<notin> set k"
    and last: "\<And>s. s \<in> set later \<Longrightarrow> CHR '':'' \<in> set s \<Longrightarrow> takeWhile (\<lambda>c. c \<noteq> CHR '':'') s \<noteq> k"
  shows "\<exists>req'. RoundTrip hs rt req w = rt req' w \<and> rq_Rest req' = rq_Rest req \<and>
    rq_Header req' k = Some [v] \<and>
    (\<forall>k'. (\<forall>s \<in> set hs. CHR '':'' \<in> set s \<longrightarrow> takeWhile (\<lambda>c. c \<noteq> CHR '':'') s \<noteq> k') \<longrightarrow>
      rq_Header req' k' = rq_Header req k')"
proof (intro exI conjI)
  let ?h = "inject_headers hs (rq_Header req)"
  show "RoundTrip hs rt req w = rt (req\<lparr>rq_Header := ?h\<rparr>) w"
    by (simp add: RoundTrip_def)
  have "?h k = inject_headers later (add_header (k @ '':'' @ v) (inject_headers earlier (rq_Header req))) k"
    by (simp add: inject_headers_def hs)
  also have "\<dots> = Some [v]"
    by (simp add: inject_headers_other last add_header_pair [OF k, simplified])
  finally show "rq_Header (req\<lparr>rq_Header := ?h\<rparr>) k = Some [v]" by simp
  show "\<forall>k'. (\<forall>s \<in> set hs. CHR '':'' \<in> set s \<longrightarrow> takeWhile (\<lambda>c. c \<noteq> CHR '':'') s \<noteq> k') \<longrightarrow>
      rq_Header (req\<lparr>rq_Header := ?h\<rparr>) k' = rq_Header req k'"
    using inject_headers_other by simp
qed simp

text \<open>C33. A client obtained for a named workspace has that workspace set, the workspace exists
  in Kong afterwards with no other one added or removed, and the mutex is free; but when looking up or
  creating the workspace fails, the error return keeps the mutex locked, and the next call for any
  workspace blocks for ever.\<close>
theorem workspace_setup_outcomes:
  assumes api: "workspaces api spaces" and ws: "ws \<noteq> ''''"
    and first: "GetKongClientForWorkspace api url ws (False, w) = Done (res, (locked, w'))"
  shows "(\<forall>client. res = Inr client \<longrightarrow>
      \<not> locked \<and> cl_Workspace client = ws \<and> spaces w' = insert ws (spaces w)) \<and>
    (\<forall>e base. res = Inl e \<longrightarrow> ws_NewClient api url = Inr base \<longrightarrow>
      locked \<and> (\<forall>url' ws' base' w''. ws_NewClient api url' = Inr base' \<longrightarrow> ws' \<noteq> '''' \<longrightarrow>
        GetKongClientForWorkspace api url' ws' (locked, w'') = Blocked))"
proof (intro conjI allI impI)
  fix client
  assume "res = Inr client"
  with first have "GetKongClientForWorkspace api url ws (False, w) = Done (Inr client, (locked, w'))" by (simp only:)
  from workspaces.client_workspace [OF api this] ws
  show "\<not> locked" and "cl_Workspace client = ws" and "spaces w' = insert ws (spaces w)" by simp_all
next
  fix e base
  assume "res = Inl e" and "ws_NewClient api url = Inr base"
  with first ws show locked: locked
    by (auto simp: Let_def split: sum.splits prod.splits option.splits if_splits)
  fix url' ws' :: string and base' w''
  assume "ws_NewClient api url' = Inr base'" and "ws' \<noteq> ''''"
  with locked show "GetKongClientForWorkspace api url' ws' (locked, w'') = Blocked" by simp
qed

text \<open>A set-up that succeeds, and one whose lookup Kong refuses, followed by another.\<close>

theorem workspace_setup_outcomes_witness:
  "(\<exists>client locked w'. GetKongClientForWorkspace mem_workspaces ''http://kong:8001'' ''dev'' (False, ([], [''default''])) =
      Done (Inr client, (locked, w')) \<and> cl_Workspace client = ''dev'' \<and> ''dev'' \<in> set (snd w')) \<and>
    (\<exists>e locked w'. GetKongClientForWorkspace mem_workspaces ''http://kong:8001'' ''dev'' (False, ([False], [])) =
      Done (Inl e, (locked, w')) \<and>
      GetKongClientForWorkspace mem_workspaces ''http://kong:8001'' ''prod'' (locked, ([], [])) = Blocked)"
proof (rule conjI)
  have known: "ws_NewClient mem_workspaces ''http://kong:8001'' =
      Inr \<lparr>cl_URL = ''http://kong:8001'', cl_Workspace = ''''\<rparr>" by (simp add: mem_workspaces_def)
  have "\<exists>client locked w'. GetKongClientForWorkspace mem_workspaces ''http://kong:8001'' ''dev'' (False, ([], [''default''])) =
      Done (Inr client, (locked, w'))"
    by (simp add: mem_workspaces_def) blast
  then obtain client locked w' where c: "GetKongClientForWorkspace mem_workspaces ''http://kong:8001'' ''dev''
      (False, ([], [''default''])) = Done (Inr client, (locked, w'))" by blast
  from workspace_setup_outcomes [OF mem_spaces.workspaces_axioms _ c]
  have "cl_Workspace client = ''dev''" and "''dev'' \<in> set (snd w')" by simp_all
  with c show "\<exists>client locked w'. GetKongClientForWorkspace mem_workspaces ''http://kong:8001'' ''dev'' (False, ([], [''default''])) =
      Done (Inr client, (locked, w')) \<and> cl_Workspace client = ''dev'' \<and> ''dev'' \<in> set (snd w')" by blast
  have "\<exists>e w'. GetKongClientForWorkspace mem_workspaces ''http://kong:8001'' ''dev'' (False, ([False], [])) =
      Done (Inl e, (True, w'))"
    by (simp add: mem_workspaces_def)
  then obtain e w' where d: "GetKongClientForWorkspace mem_workspaces ''http://kong:8001'' ''dev'' (False, ([False], [])) =
      Done (Inl e, (True, w'))" by blast
  from workspace_setup_outcomes [OF mem_spaces.workspaces_axioms _ d] known
  have "GetKongClientForWorkspace mem_workspaces ''http://kong:8001'' ''prod'' (True, ([], [])) = Blocked" by simp
  with d show "\<exists>e locked w'. GetKongClientForWorkspace mem_workspaces ''http://kong:8001'' ''dev'' (False, ([False], [])) =
      Done (Inl e, (locked, w')) \<and>
      GetKongClientForWorkspace mem_workspaces ''http://kong:8001'' ''prod'' (locked, ([], [])) = Blocked" by blast
qed

end
