(* ===== verification/Admission.thy ===== *)
theory Admission
  imports Proxy_Resolver
begin

text \<open>
  The validating admission webhook, \<^verbatim>\<open>internal/admission\<close>: the validator (\<^verbatim>\<open>validator.go\<close>, with the
  messages of \<^verbatim>\<open>errors.go\<close>), the TLS set-up and the HTTP handler (\<^verbatim>\<open>server.go\<close>).

  Parameters of the model: \<^verbatim>\<open>os.ReadFile\<close> and \<^verbatim>\<open>tls.X509KeyPair\<close>, the decoder of the Kubernetes serializer,
  \<^verbatim>\<open>encoding/json\<close> on \<^verbatim>\<open>AdmissionReview\<close>, and the \<^verbatim>\<open>http.ResponseWriter\<close> the server is handed. The
  interface \<^verbatim>\<open>KongValidator\<close> is the locale \<open>kong_validator\<close>, and \<open>response_writer\<close> is the contract of
  \<^verbatim>\<open>http.ResponseWriter\<close>.
\<close>

section \<open>errors.go\<close>

definition ErrKongFileNameEmpty :: string where
  "ErrKongFileNameEmpty = ''resource name cannot be empty''"

definition ErrKongFileSpecNameEmpty :: string where
  "ErrKongFileSpecNameEmpty = ''file name cannot be empty''"

definition ErrKongFileSpecPathEmpty :: string where
  "ErrKongFileSpecPathEmpty = ''file path cannot be empty''"

definition ErrKongFileSpecTitleEmpty :: string where
  "ErrKongFileSpecTitleEmpty = ''file title cannot be empty''"

definition ErrKongFileSpecLayoutEmpty :: string where
  "ErrKongFileSpecLayoutEmpty = ''file layout cannot be empty''"

lemmas admission_messages =
  ErrKongFileNameEmpty_def ErrKongFileSpecNameEmpty_def ErrKongFileSpecPathEmpty_def
  ErrKongFileSpecTitleEmpty_def ErrKongFileSpecLayoutEmpty_def

section \<open>validator.go\<close>

text \<open>The verdict, the message for the user, and the error.\<close>

type_synonym validation = "bool \<times> string \<times> error option"

definition ValidateKongFile :: "KongFile \<Rightarrow> validation" where
  "ValidateKongFile kongFile =
     (if om_Name (kf_Meta kongFile) = '''' then (False, ErrKongFileNameEmpty, None)
      else if Spec_Name (kf_Spec kongFile) = '''' then (False, ErrKongFileSpecNameEmpty, None)
      else if Spec_Path (kf_Spec kongFile) = '''' then (False, ErrKongFileSpecPathEmpty, None)
      else if Spec_Kind (kf_Spec kongFile) = CONTENT then
        (if Spec_Title (kf_Spec kongFile) = '''' then (False, ErrKongFileSpecTitleEmpty, None)
         else if Spec_Layout (kf_Spec kongFile) = '''' then (False, ErrKongFileSpecLayoutEmpty, None)
         else (True, '''', None))
      else (True, '''', None))"

text \<open>What an admitted file has.\<close>

definition admissible :: "KongFile \<Rightarrow> bool" where
  "admissible f \<longleftrightarrow>
     om_Name (kf_Meta f) \<noteq> '''' \<and> Spec_Name (kf_Spec f) \<noteq> '''' \<and> Spec_Path (kf_Spec f) \<noteq> '''' \<and>
     (Spec_Kind (kf_Spec f) = CONTENT \<longrightarrow> Spec_Title (kf_Spec f) \<noteq> '''' \<and> Spec_Layout (kf_Spec f) \<noteq> '''')"

section \<open>server.go: TLS\<close>

record ServerConfig =
  ListenAddr :: string
  CertPath :: string
  Cert :: string
  KeyPath :: string
  Key :: string

definition DefaultAdmissionWebhookCertPath :: string where
  "DefaultAdmissionWebhookCertPath = ''/admission-webhook/tls.crt''"

definition DefaultAdmissionWebhookKeyPath :: string where
  "DefaultAdmissionWebhookKeyPath = ''/admission-webhook/tls.key''"

definition readKeyPairFiles :: "(string \<Rightarrow> error + string) \<Rightarrow> string \<Rightarrow> string \<Rightarrow> error + string \<times> string" where
  "readKeyPairFiles readFile certPath keyPath =
     (case readFile certPath of
        Inl err \<Rightarrow> Inl (Wrapf ''read cert from file %q: %w'' [certPath] err)
      | Inr cert \<Rightarrow>
          (case readFile keyPath of
             Inl err \<Rightarrow> Inl (Wrapf ''read key from file %q: %w'' [keyPath] err)
           | Inr key \<Rightarrow> Inr (cert, key)))"

text \<open>\<^verbatim>\<open>tls.VersionTLS12\<close> is 0x0303.\<close>

record 'cert TLS_Config =
  MinVersion :: int
  Certificates :: "'cert list"

definition VersionTLS12 :: int where
  "VersionTLS12 = 0x0303"

definition toTLSConfig :: "(string \<Rightarrow> error + string) \<Rightarrow> (string \<Rightarrow> string \<Rightarrow> error + 'cert) \<Rightarrow> ServerConfig \<Rightarrow>
    error + 'cert TLS_Config" where
  "toTLSConfig readFile x509KeyPair sc =
     (let pair =
        (if CertPath sc = '''' \<and> KeyPath sc = '''' \<and> Cert sc \<noteq> '''' \<and> Key sc \<noteq> '''' then
           Inr (Cert sc, Key sc)
         else if CertPath sc \<noteq> '''' \<and> KeyPath sc \<noteq> '''' \<and> Cert sc = '''' \<and> Key sc = '''' then
           readKeyPairFiles readFile (CertPath sc) (KeyPath sc)
         else if CertPath sc = '''' \<and> KeyPath sc = '''' \<and> Cert sc = '''' \<and> Key sc = '''' then
           readKeyPairFiles readFile DefaultAdmissionWebhookCertPath DefaultAdmissionWebhookKeyPath
         else Inl (Errorf ''either cert/key files OR cert/key values must be provided, or none'' []))
      in case pair of
           Inl err \<Rightarrow> Inl err
         | Inr (cert, key) \<Rightarrow>
             (case x509KeyPair cert key of
                Inl err \<Rightarrow> Inl (Wrapf ''X509KeyPair error: %w'' [] err)
              | Inr keyPair \<Rightarrow> Inr \<lparr>MinVersion = VersionTLS12, Certificates = [keyPair]\<rparr>))"

record ('cert, 'handler) http_Server =
  Addr :: string
  TLSConfig :: "'cert TLS_Config"
  Handler :: 'handler

definition MakeTLSServer :: "(string \<Rightarrow> error + string) \<Rightarrow> (string \<Rightarrow> string \<Rightarrow> error + 'cert) \<Rightarrow> ServerConfig \<Rightarrow>
    'handler \<Rightarrow> error + ('cert, 'handler) http_Server" where
  "MakeTLSServer readFile x509KeyPair config handler =
     (case toTLSConfig readFile x509KeyPair config of
        Inl err \<Rightarrow> Inl err
      | Inr tlsConfig \<Rightarrow> Inr \<lparr>Addr = ListenAddr config, TLSConfig = tlsConfig, Handler = handler\<rparr>)"

section \<open>server.go: handleValidation\<close>

record AdmissionRequest =
  req_UID :: string
  req_Resource :: GroupVersionResource
  req_Object_Raw :: string

record Status =
  st_Message :: string
  st_Code :: int

record AdmissionResponse =
  resp_UID :: string
  resp_Allowed :: bool
  resp_Result :: "Status option"

record AdmissionReview =
  rev_TypeMeta :: TypeMeta
  rev_Request :: "AdmissionRequest option"
  rev_Response :: "AdmissionResponse option"

definition kongFileGVResource :: GroupVersionResource where
  "kongFileGVResource =
     \<lparr>gvr_Group = gv_Group SchemeGroupVersion, gvr_Version = gv_Version SchemeGroupVersion,
      gvr_Resource = ''kongfiles''\<rparr>"

definition handleValidation :: "(string \<Rightarrow> error + KongFile) \<Rightarrow> (KongFile \<Rightarrow> validation) \<Rightarrow> AdmissionRequest \<Rightarrow>
    error + AdmissionResponse" where
  "handleValidation decode validate request =
     (if req_Resource request = kongFileGVResource then
        (case decode (req_Object_Raw request) of
           Inl err \<Rightarrow> Inl err
         | Inr plugin \<Rightarrow>
             (case validate plugin of
                (ok, message, err) \<Rightarrow>
                  (case err of
                     Some e \<Rightarrow> Inl e
                   | None \<Rightarrow>
                       (let response = \<lparr>resp_UID = req_UID request, resp_Allowed = ok,
                          resp_Result = Some \<lparr>st_Message = message, st_Code = (if \<not> ok then 400 else 0)\<rparr>\<rparr>
                        in Inr response))))
      else Inl (Errorf ''unknown resource type to validate: %s/%s %s''
        [gvr_Group (req_Resource request), gvr_Version (req_Resource request),
         gvr_Resource (req_Resource request)]))"

section \<open>server.go: ServeHTTP\<close>

text \<open>\<^verbatim>\<open>http.ResponseWriter\<close>, over the state \<open>'w\<close> of the response.\<close>

record 'w ResponseWriter =
  rw_SetHeader :: "string \<Rightarrow> string \<Rightarrow> 'w \<Rightarrow> 'w"
  rw_WriteHeader :: "int \<Rightarrow> 'w \<Rightarrow> 'w"
  rw_Write :: "string \<Rightarrow> 'w \<Rightarrow> error option \<times> 'w"

text \<open>\<^verbatim>\<open>http.Error\<close> of the standard library: two headers, the status, and the message as a line; the result
  of the write is dropped.\<close>

definition http_Error :: "'w ResponseWriter \<Rightarrow> string \<Rightarrow> int \<Rightarrow> 'w \<Rightarrow> 'w" where
  "http_Error rw message code w =
     (let w1 = rw_SetHeader rw ''Content-Type'' ''text/plain; charset=utf-8'' w;
          w2 = rw_SetHeader rw ''X-Content-Type-Options'' ''nosniff'' w1;
          w3 = rw_WriteHeader rw code w2
      in snd (rw_Write rw (message @ NL) w3))"

definition StatusOK :: int where
  "StatusOK = 200"

definition StatusBadRequest :: int where
  "StatusBadRequest = 400"

definition StatusInternalServerError :: int where
  "StatusInternalServerError = 500"

text \<open>The request's body is \<^verbatim>\<open>nil\<close>, or what reading it to the end gives. The message of an error is given
  by \<open>Error_string\<close>. Dereferencing an absent \<^verbatim>\<open>review.Request\<close> panics.\<close>

record json_codec =
  Unmarshal :: "string \<Rightarrow> error + AdmissionReview"
  Marshal :: "AdmissionReview \<Rightarrow> error + string"
  Error_string :: "error \<Rightarrow> string"

definition ServeHTTP :: "json_codec \<Rightarrow> (string \<Rightarrow> error + KongFile) \<Rightarrow> (KongFile \<Rightarrow> validation) \<Rightarrow>
    'w ResponseWriter \<Rightarrow> (error + string) option \<Rightarrow> 'w \<Rightarrow> 'w outcome" where
  "ServeHTTP json decode validate rw body w =
     (case body of
        None \<Rightarrow> Return (http_Error rw ''admission review object is missing'' StatusBadRequest w)
      | Some (Inl err) \<Rightarrow>
          Return (http_Error rw (Error_string json err) StatusInternalServerError w)
      | Some (Inr data) \<Rightarrow>
          (case Unmarshal json data of
             Inl err \<Rightarrow> Return (http_Error rw (Error_string json err) StatusBadRequest w)
           | Inr review \<Rightarrow>
               (case rev_Request review of
                  None \<Rightarrow> Panic ''invalid memory address or nil pointer dereference''
                | Some request \<Rightarrow>
                    (case handleValidation decode validate request of
                       Inl err \<Rightarrow>
                         Return (http_Error rw (Error_string json err) StatusInternalServerError w)
                     | Inr response \<Rightarrow>
                         (case Marshal json (review\<lparr>rev_Response := Some response\<rparr>) of
                            Inl err \<Rightarrow>
                              Return (http_Error rw (Error_string json err) StatusInternalServerError w)
                          | Inr data' \<Rightarrow>
                              (case rw_Write rw data' w of
                                 (Some err, w') \<Rightarrow>
                                   Return (http_Error rw (Error_string json err) StatusInternalServerError w')
                               | (None, w') \<Rightarrow> Return w'))))))"

section \<open>The interface KongValidator\<close>

text \<open>What the handler relies on: a validator does not fail, and has a message for exactly the files it
  rejects. \<open>accepts\<close> is the set of files it accepts.\<close>

locale kong_validator =
  fixes validate :: "KongFile \<Rightarrow> validation"
    and accepts :: "KongFile \<Rightarrow> bool"
  assumes validate_total: "\<exists>message. validate f = (accepts f, message, None) \<and> (message = '''' \<longleftrightarrow> accepts f)"
begin

lemma handle_kongfile:
  assumes "req_Resource request = kongFileGVResource" and "decode (req_Object_Raw request) = Inr f"
  shows "\<exists>message. handleValidation decode validate request =
      Inr \<lparr>resp_UID = req_UID request, resp_Allowed = accepts f,
        resp_Result = Some \<lparr>st_Message = message, st_Code = (if accepts f then 0 else 400)\<rparr>\<rparr> \<and>
    (message = '''' \<longleftrightarrow> accepts f)"
  using validate_total [of f] assms by (auto simp: handleValidation_def Let_def)

lemma handle_fails_iff:
  "(\<exists>err. handleValidation decode validate request = Inl err) \<longleftrightarrow>
    req_Resource request \<noteq> kongFileGVResource \<or> (\<exists>err. decode (req_Object_Raw request) = Inl err)"
proof (cases "decode (req_Object_Raw request)")
  case (Inr f)
  then show ?thesis
    using handle_kongfile [of request decode f] by (auto simp: handleValidation_def)
qed (simp add: handleValidation_def)

end

lemma ValidateKongFile_accepts:
  "\<exists>message. ValidateKongFile f = (admissible f, message, None) \<and> (message = '''' \<longleftrightarrow> admissible f)"
  by (simp add: ValidateKongFile_def admissible_def admission_messages)

interpretation http_validator: kong_validator ValidateKongFile admissible
  by unfold_locales (rule ValidateKongFile_accepts)

section \<open>The contract of http.ResponseWriter\<close>

text \<open>The status can be set once; a write sends 200 first when none was set, whether the write succeeds or
  not; headers change neither.\<close>

definition ok_unless_set :: "int option \<Rightarrow> int option" where
  "ok_unless_set st = (case st of None \<Rightarrow> Some StatusOK | Some c \<Rightarrow> Some c)"

locale response_writer =
  fixes rw :: "'w ResponseWriter"
    and status :: "'w \<Rightarrow> int option"
    and sent :: "'w \<Rightarrow> string"
  assumes set_header: "status (rw_SetHeader rw k v w) = status w" "sent (rw_SetHeader rw k v w) = sent w"
    and write_header: "status (rw_WriteHeader rw c w) = (if status w = None then Some c else status w)"
      "sent (rw_WriteHeader rw c w) = sent w"
    and write_status: "status (snd (rw_Write rw d w)) = ok_unless_set (status w)"
    and write_sent: "fst (rw_Write rw d w) = None \<Longrightarrow> sent (snd (rw_Write rw d w)) = sent w @ d"
begin

lemma error_status: "status (http_Error rw m c w) = Some (case status w of None \<Rightarrow> c | Some c' \<Rightarrow> c')"
  by (simp add: http_Error_def Let_def write_status write_header set_header ok_unless_set_def
      split: option.splits)

lemma write_done: "rw_Write rw d w = (e, w') \<Longrightarrow>
    status w' = ok_unless_set (status w) \<and> (e = None \<longrightarrow> sent w' = sent w @ d)"
  using write_status [of d w] write_sent [of d w] by simp

text \<open>The handler always answers, with one of three statuses.\<close>

lemma serve_answers:
  assumes "ServeHTTP json decode validate rw body w = Return w'" and "status w = None"
  shows "status w' \<in> {Some StatusOK, Some StatusBadRequest, Some StatusInternalServerError}"
  using assms
  by (auto simp: ServeHTTP_def error_status ok_unless_set_def dest!: write_done
      split: option.splits sum.splits prod.splits)

lemma serve_review:
  assumes body: "body = Some (Inr data)" "Unmarshal json data = Inr review" "rev_Request review = Some request"
    and handled: "handleValidation decode validate request = Inr response"
    and marshal: "Marshal json (review\<lparr>rev_Response := Some response\<rparr>) = Inr text"
    and fresh: "status w = None"
  shows "\<exists>w'. ServeHTTP json decode validate rw body w = Return w' \<and> status w' = Some StatusOK \<and>
    (fst (rw_Write rw text w) = None \<longrightarrow> sent w' = sent w @ text)"
proof -
  obtain e w1 where w1: "rw_Write rw text w = (e, w1)" by (cases "rw_Write rw text w")
  from write_done [OF w1] fresh
  have "status w1 = Some StatusOK" "e = None \<longrightarrow> sent w1 = sent w @ text"
    by (simp_all add: ok_unless_set_def)
  then show ?thesis
    using assms w1 by (cases e) (simp_all add: ServeHTTP_def error_status)
qed

end

section \<open>A response recorder\<close>

text \<open>A writer in the manner of \<^verbatim>\<open>httptest.ResponseRecorder\<close>, which refuses the writes it is told to.\<close>

record recorder =
  rec_status :: "int option"
  rec_header :: "(string \<times> string) list"
  rec_body :: string
  rec_answers :: "bool list"

fun record_write :: "string \<Rightarrow> recorder \<Rightarrow> error option \<times> recorder" where
  "record_write d r =
     (let r1 = r\<lparr>rec_status := ok_unless_set (rec_status r), rec_answers := tl (rec_answers r)\<rparr>
      in case rec_answers r of
           False # _ \<Rightarrow> (Some (External ''broken pipe''), r1)
         | _ \<Rightarrow> (None, r1\<lparr>rec_body := rec_body r @ d\<rparr>))"

definition recorder_writer :: "recorder ResponseWriter" where
  "recorder_writer =
     \<lparr>rw_SetHeader = (\<lambda>k v r. r\<lparr>rec_header := (k, v) # rec_header r\<rparr>),
      rw_WriteHeader = (\<lambda>c r. case rec_status r of None \<Rightarrow> r\<lparr>rec_status := Some c\<rparr> | Some _ \<Rightarrow> r),
      rw_Write = record_write\<rparr>"

definition fresh_recorder :: "bool list \<Rightarrow> recorder" where
  "fresh_recorder answers = \<lparr>rec_status = None, rec_header = [], rec_body = [], rec_answers = answers\<rparr>"

interpretation recorded: response_writer recorder_writer rec_status rec_body
  by unfold_locales
    (auto simp: recorder_writer_def Let_def split: option.splits list.splits bool.splits)

section \<open>Properties\<close>

text \<open>C28. A well-formed review of a KongFile is answered with status 200 and the review itself,
  with a response that carries the UID of the request and allows the resource exactly when it is
  admissible, with a message and code 400 when it is not.\<close>
theorem ServeHTTP_reviews_kongfiles:
  assumes writer: "response_writer rw status sent" and fresh: "status w = None" "sent w = ''''"
    and parsed: "Unmarshal json data = Inr review" "rev_Request review = Some request"
    and resource: "req_Resource request = kongFileGVResource" "decode (req_Object_Raw request) = Inr f"
    and json: "\<And>r. \<exists>d. Marshal json r = Inr d"
    and served: "\<And>d. fst (rw_Write rw d w) = None"
  shows "\<exists>w' message. ServeHTTP json decode ValidateKongFile rw (Some (Inr data)) w = Return w' \<and>
    status w' = Some 200 \<and>
    Marshal json (review\<lparr>rev_Response := Some
      \<lparr>resp_UID = req_UID request, resp_Allowed = admissible f,
       resp_Result = Some \<lparr>st_Message = message, st_Code = (if admissible f then 0 else 400)\<rparr>\<rparr>\<rparr>) =
      Inr (sent w') \<and>
    (message = '''' \<longleftrightarrow> admissible f)"
proof -
  obtain message where handled: "handleValidation decode ValidateKongFile request =
      Inr \<lparr>resp_UID = req_UID request, resp_Allowed = admissible f,
        resp_Result = Some \<lparr>st_Message = message, st_Code = (if admissible f then 0 else 400)\<rparr>\<rparr>"
    and message: "message = '''' \<longleftrightarrow> admissible f"
    using http_validator.handle_kongfile [of request decode f] resource by blast
  obtain reply where reply: "Marshal json (review\<lparr>rev_Response := Some
      \<lparr>resp_UID = req_UID request, resp_Allowed = admissible f,
        resp_Result = Some \<lparr>st_Message = message, st_Code = (if admissible f then 0 else 400)\<rparr>\<rparr>\<rparr>) = Inr reply"
    using json by blast
  from response_writer.serve_review [OF writer refl parsed handled reply fresh(1)]
  show ?thesis
    using served [of reply] fresh(2) reply message by (auto simp: StatusOK_def)
qed

definition sample_request :: AdmissionRequest where
  "sample_request = \<lparr>req_UID = ''705ab4f5'', req_Resource = kongFileGVResource, req_Object_Raw = ''object''\<rparr>"

definition sample_review :: AdmissionReview where
  "sample_review = \<lparr>rev_TypeMeta = \<lparr>tm_Kind = ''AdmissionReview'', tm_APIVersion = ''admission.k8s.io/v1''\<rparr>,
     rev_Request = Some sample_request, rev_Response = None\<rparr>"

text \<open>A codec that reads one review, and writes the verdict of the review it is given.\<close>

definition sample_json :: json_codec where
  "sample_json =
     \<lparr>Unmarshal = (\<lambda>d. if d = ''review'' then Inr sample_review else Inl (External ''unexpected token'')),
      Marshal = (\<lambda>r. Inr (case rev_Response r of None \<Rightarrow> ''null'' | Some resp \<Rightarrow>
        if resp_Allowed resp then ''allowed '' @ resp_UID resp else ''denied '' @ resp_UID resp)),
      Error_string = (\<lambda>_. ''error'')\<rparr>"

theorem ServeHTTP_reviews_kongfiles_witness:
  "\<exists>w'. ServeHTTP sample_json (\<lambda>_. Inr zero_KongFile) ValidateKongFile recorder_writer (Some (Inr ''review''))
      (fresh_recorder []) = Return w' \<and>
    rec_status w' = Some 200 \<and> rec_body w' = ''denied 705ab4f5''"
proof -
  have rev: "Unmarshal sample_json ''review'' = Inr sample_review" "rev_Request sample_review = Some sample_request"
    by (simp_all add: sample_json_def sample_review_def)
  have req: "req_Resource sample_request = kongFileGVResource" by (simp add: sample_request_def)
  have ok: "fst (rw_Write recorder_writer d (fresh_recorder [])) = None" for d
    by (simp add: recorder_writer_def fresh_recorder_def Let_def)
  have fresh: "rec_status (fresh_recorder []) = None" "rec_body (fresh_recorder []) = []"
    by (simp_all add: fresh_recorder_def)
  have "\<exists>d. Marshal sample_json r = Inr d" for r by (simp add: sample_json_def)
  from ServeHTTP_reviews_kongfiles [OF recorded.response_writer_axioms fresh rev req _ this ok,
      of "\<lambda>_. Inr zero_KongFile" zero_KongFile]
  show ?thesis
    by (auto simp: sample_json_def sample_request_def admissible_def zero_KongFile_def)
qed

lemma serve_status:
  assumes writer: "response_writer rw status sent" and fresh: "status w = None"
    and ret: "ServeHTTP json decode validate rw body w = Return w'"
  shows "status w' = Some
    (case body of
       None \<Rightarrow> 400
     | Some (Inl _) \<Rightarrow> 500
     | Some (Inr data) \<Rightarrow>
         (case Unmarshal json data of
            Inl _ \<Rightarrow> 400
          | Inr review \<Rightarrow>
              (case Option.bind (rev_Request review) (\<lambda>request.
                  case handleValidation decode validate request of Inl _ \<Rightarrow> None | Inr response \<Rightarrow>
                    (case Marshal json (review\<lparr>rev_Response := Some response\<rparr>) of
                       Inl _ \<Rightarrow> None | Inr reply \<Rightarrow> Some reply)) of
                 None \<Rightarrow> 500
               | Some _ \<Rightarrow> 200)))"
  using ret fresh
  by (auto simp: ServeHTTP_def response_writer.error_status [OF writer] ok_unless_set_def
      StatusOK_def StatusBadRequest_def StatusInternalServerError_def
      dest!: response_writer.write_done [OF writer]
      split: option.splits sum.splits prod.splits)

lemma ServeHTTP_returns_iff:
  "returned (ServeHTTP json decode validate rw body w) \<longleftrightarrow>
    \<not> (\<exists>data review. body = Some (Inr data) \<and> Unmarshal json data = Inr review \<and> rev_Request review = None)"
  by (auto simp: ServeHTTP_def split: option.splits sum.splits prod.splits)

text \<open>C29. The admission handler answers every input but one, a review that parses and has no
  request, on which it panics; the status of the answer is 400 for a missing body or an unparsable
  review, 500 for an unreadable body, a failed validation or an unprintable review, and 200 otherwise,
  also when the write of the reply fails and the handler goes on to send a 500.\<close>
theorem ServeHTTP_statuses:
  assumes writer: "response_writer rw status sent" and fresh: "status w = None"
  shows "if \<exists>data review. body = Some (Inr data) \<and> Unmarshal json data = Inr review \<and> rev_Request review = None
    then \<not> returned (ServeHTTP json decode validate rw body w)
    else \<exists>w'. ServeHTTP json decode validate rw body w = Return w' \<and> status w' = Some
      (case body of
         None \<Rightarrow> 400
       | Some (Inl _) \<Rightarrow> 500
       | Some (Inr data) \<Rightarrow>
           (case Unmarshal json data of
              Inl _ \<Rightarrow> 400
            | Inr review \<Rightarrow>
                (case Option.bind (rev_Request review) (\<lambda>request.
                    case handleValidation decode validate request of Inl _ \<Rightarrow> None | Inr response \<Rightarrow>
                      (case Marshal json (review\<lparr>rev_Response := Some response\<rparr>) of
                         Inl _ \<Rightarrow> None | Inr reply \<Rightarrow> Some reply)) of
                   None \<Rightarrow> 500
                 | Some _ \<Rightarrow> 200)))"
proof (cases "returned (ServeHTTP json decode validate rw body w)")
  case True
  then obtain w' where "ServeHTTP json decode validate rw body w = Return w'"
    by (auto simp: returned_iff)
  from serve_status [OF writer fresh this] this True show ?thesis
    unfolding ServeHTTP_returns_iff by simp
next
  case False
  then show ?thesis
    unfolding ServeHTTP_returns_iff by simp
qed

text \<open>The write of the reply fails: the status is 200 all the same, although the handler then sends a 500.\<close>

theorem ServeHTTP_statuses_witness:
  "\<exists>w'. ServeHTTP sample_json (\<lambda>_. Inr zero_KongFile) ValidateKongFile recorder_writer (Some (Inr ''review''))
      (fresh_recorder [False]) = Return w' \<and> rec_status w' = Some 200"
proof -
  have "rec_status (fresh_recorder [False]) = None" by (simp add: fresh_recorder_def)
  from ServeHTTP_statuses [OF recorded.response_writer_axioms this, where json = sample_json
      and decode = "\<lambda>_. Inr zero_KongFile" and validate = ValidateKongFile and body = "Some (Inr ''review'')"]
  show ?thesis
    by (simp add: sample_json_def sample_review_def sample_request_def handleValidation_def
        ValidateKongFile_def zero_KongFile_def Let_def)
qed

lemma toTLSConfig_succeeds_iff:
  "toTLSConfig readFile x509KeyPair sc = Inr cfg \<longleftrightarrow>
    (\<exists>cert key keyPair. x509KeyPair cert key = Inr keyPair \<and>
      cfg = \<lparr>MinVersion = VersionTLS12, Certificates = [keyPair]\<rparr> \<and>
      (cert \<noteq> '''' \<and> key \<noteq> '''' \<and> sc = \<lparr>ListenAddr = ListenAddr sc, CertPath = '''', Cert = cert, KeyPath = '''', Key = key\<rparr> \<or>
       Cert sc = '''' \<and> Key sc = '''' \<and> (CertPath sc = '''' \<longleftrightarrow> KeyPath sc = '''') \<and>
         readFile (if CertPath sc = '''' then ''/admission-webhook/tls.crt'' else CertPath sc) = Inr cert \<and>
         readFile (if KeyPath sc = '''' then ''/admission-webhook/tls.key'' else KeyPath sc) = Inr key))"
  by (cases sc)
    (auto simp: toTLSConfig_def readKeyPairFiles_def Let_def DefaultAdmissionWebhookCertPath_def
      DefaultAdmissionWebhookKeyPath_def split: sum.splits prod.splits if_splits)

end
