(* ===== verification/Manager_Config.thy ===== *)
theory Manager_Config
  imports Admin_Client Admission "HOL-Library.List_Lexorder" "HOL-Library.Char_ord"
begin

text \<open>
  The configuration of the controller manager: \<^verbatim>\<open>internal/manager/config.go\<close> (the structure, its flags
  and the Kong client it builds), the binding of environment variables to flags in
  \<^verbatim>\<open>internal/cmd/rootcmd/env.go\<close>, the log settings of \<^verbatim>\<open>internal/util/logging.go\<close>, and the options of
  the controller-runtime manager in \<^verbatim>\<open>internal/manager/setup.go\<close>.

  The parsers of flag values belong to \<^verbatim>\<open>pflag\<close> and are parameters, as is the type \<open>'f\<close> of the one
  floating-point field. A flag of slice type takes the first value it is set to in place of its default;
  \<^verbatim>\<open>bindEnvVars\<close> sets a flag at most once, and only one that the command line has not set.
\<close>

section \<open>logging.go\<close>

text \<open>logrus numbers its levels from 0, in this order.\<close>

datatype Level =
    PanicLevel
  | FatalLevel
  | ErrorLevel
  | WarnLevel
  | InfoLevel
  | DebugLevel
  | TraceLevel

primrec level_number :: "Level \<Rightarrow> int" where
  "level_number PanicLevel = 0"
| "level_number FatalLevel = 1"
| "level_number ErrorLevel = 2"
| "level_number WarnLevel = 3"
| "level_number InfoLevel = 4"
| "level_number DebugLevel = 5"
| "level_number TraceLevel = 6"

lemma level_number_inj [simp]: "level_number a = level_number b \<longleftrightarrow> a = b"
  by (cases a; cases b) simp_all

instantiation Level :: linorder
begin

definition less_eq_Level :: "Level \<Rightarrow> Level \<Rightarrow> bool" where
  "a \<le> b \<longleftrightarrow> level_number a \<le> level_number b"

definition less_Level :: "Level \<Rightarrow> Level \<Rightarrow> bool" where
  "a < b \<longleftrightarrow> level_number a < level_number b"

instance
  by standard (auto simp: less_eq_Level_def less_Level_def)

end

definition logrusrDiff :: int where
  "logrusrDiff = 4"

definition util_InfoLevel :: int where
  "util_InfoLevel = level_number InfoLevel - logrusrDiff"

definition util_DebugLevel :: int where
  "util_DebugLevel = level_number DebugLevel - logrusrDiff"

definition logrusLevels :: "string \<Rightarrow> Level option" where
  "logrusLevels =
     map_of
       [(''panic'', PanicLevel), (''fatal'', FatalLevel), (''error'', ErrorLevel), (''warn'', WarnLevel),
        (''info'', InfoLevel), (''debug'', DebugLevel), (''trace'', TraceLevel)]"

lemma logrusLevels_iff:
  "logrusLevels level = Some l \<longleftrightarrow>
    (level, l) \<in> set [(''panic'', PanicLevel), (''fatal'', FatalLevel), (''error'', ErrorLevel), (''warn'', WarnLevel),
      (''info'', InfoLevel), (''debug'', DebugLevel), (''trace'', TraceLevel)]"
  unfolding logrusLevels_def by (rule map_of_eq_Some_iff) simp

definition getLogrusLevel :: "string \<Rightarrow> error + Level" where
  "getLogrusLevel level =
     (case logrusLevels level of
        None \<Rightarrow> Inl (Errorf ''%q is not a valid log level'' [level])
      | Some res \<Rightarrow> Inr res)"

datatype Formatter = TextFormatter | JSONFormatter

definition getLogrusFormatter :: "string \<Rightarrow> error + Formatter" where
  "getLogrusFormatter typ =
     (if typ = ''text'' then Inr TextFormatter
      else if typ = ''json'' then Inr JSONFormatter
      else Inl (Errorf ''%q is not a valid log formatter'' [typ]))"

definition MakeLogger :: "string \<Rightarrow> string \<Rightarrow> error + Level \<times> Formatter" where
  "MakeLogger level formatter =
     (case getLogrusLevel level of
        Inl err \<Rightarrow> Inl (Wrapf ''setting log level failed: %w'' [] err)
      | Inr logLevel \<Rightarrow>
          (case getLogrusFormatter formatter of
             Inl err \<Rightarrow> Inl (Wrapf ''setting log formatter failed: %w'' [] err)
           | Inr fmt \<Rightarrow> Inr (logLevel, fmt)))"

section \<open>config.go\<close>

record 'f Config =
  LogLevel :: string
  LogFormat :: string
  LogReduceRedundancy :: bool
  KongAdminAPIConfig :: HTTPClientOpts
  KongAdminToken :: string
  KongWorkspace :: string
  AnonymousReports :: bool
  EnableReverseSync :: bool
  SyncPeriod :: int
  APIServerHost :: string
  APIServerQPS :: int
  APIServerBurst :: int
  MetricsAddr :: string
  ProbeAddr :: string
  KongAdminURL :: string
  ProxyTimeoutSeconds :: 'f
  KongCustomEntitiesSecret :: string
  KubeconfigPath :: string
  ControllerClassName :: string
  EnableLeaderElection :: bool
  LeaderElectionNamespace :: string
  LeaderElectionID :: string
  cfg_Concurrency :: int
  FilterTags :: "string list"
  WatchNamespaces :: "string list"
  PublishService :: string
  PublishStatusAddress :: "string list"
  AdmissionServer :: ServerConfig
  EnableProfiling :: bool

text \<open>The parsers of \<^verbatim>\<open>pflag\<close>'s value types.\<close>

record 'f parsers =
  parse_Bool :: "string \<Rightarrow> error + bool"
  parse_Int :: "string \<Rightarrow> error + int"
  parse_Float32 :: "string \<Rightarrow> error + 'f"
  parse_Duration :: "string \<Rightarrow> error + int"
  parse_StringSlice :: "string \<Rightarrow> error + string list"

definition HealthzPort :: int where
  "HealthzPort = 10254"

definition MetricsPort :: int where
  "MetricsPort = 10255"

definition DiagnosticsPort :: int where
  "DiagnosticsPort = 10256"

text \<open>The values the registration of the flags writes; a time is in nanoseconds. \<^verbatim>\<open>EnableLeaderElection\<close>
  has no flag and keeps the zero value.\<close>

definition flag_defaults :: "'f \<Rightarrow> 'f Config" where
  "flag_defaults proxyTimeout =
     \<lparr>LogLevel = ''info'', LogFormat = ''text'', LogReduceRedundancy = False,
      KongAdminAPIConfig =
        \<lparr>TLSSkipVerify = False, TLSServerName = '''', CACertPath = '''', CACert = '''', Headers = [],
         TLSClientCertPath = '''', TLSClientCert = '''', TLSClientKeyPath = '''', TLSClientKey = ''''\<rparr>,
      KongAdminToken = '''', KongWorkspace = '''', AnonymousReports = True, EnableReverseSync = False,
      SyncPeriod = 48 * 3600 * 1000000000,
      APIServerHost = '''', APIServerQPS = 100, APIServerBurst = 300, MetricsAddr = '':10255'',
      ProbeAddr = '':10254'', KongAdminURL = ''http://localhost:8001'', ProxyTimeoutSeconds = proxyTimeout,
      KongCustomEntitiesSecret = '''', KubeconfigPath = '''',
      ControllerClassName = DefaultControllerClass, EnableLeaderElection = False,
      LeaderElectionNamespace = '''', LeaderElectionID = ''4g374a9e.konghq.com'', cfg_Concurrency = 10,
      FilterTags = [''managed-by-portal-controller''], WatchNamespaces = [], PublishService = '''',
      PublishStatusAddress = [],
      AdmissionServer =
        \<lparr>ListenAddr = ''off'', CertPath = '''', Cert = '''', KeyPath = '''', Key = ''''\<rparr>,
      EnableProfiling = False\<rparr>"

type_synonym 'f setter = "'f parsers \<Rightarrow> string \<Rightarrow> 'f Config \<Rightarrow> error + 'f Config"

text \<open>The \<^verbatim>\<open>Value.Set\<close> of a flag, by the type it was registered with: parse, and write the field.\<close>

definition StringVar :: "(string \<Rightarrow> 'f Config \<Rightarrow> 'f Config) \<Rightarrow> 'f setter" where
  "StringVar put P v c = Inr (put v c)"

definition parsed :: "error + 'a \<Rightarrow> ('a \<Rightarrow> 'f Config \<Rightarrow> 'f Config) \<Rightarrow> 'f Config \<Rightarrow> error + 'f Config" where
  "parsed r put c = (case r of Inl err \<Rightarrow> Inl err | Inr x \<Rightarrow> Inr (put x c))"

definition BoolVar :: "(bool \<Rightarrow> 'f Config \<Rightarrow> 'f Config) \<Rightarrow> 'f setter" where
  "BoolVar put P v c = parsed (parse_Bool P v) put c"

definition IntVar :: "(int \<Rightarrow> 'f Config \<Rightarrow> 'f Config) \<Rightarrow> 'f setter" where
  "IntVar put P v c = parsed (parse_Int P v) put c"

definition Float32Var :: "('f \<Rightarrow> 'f Config \<Rightarrow> 'f Config) \<Rightarrow> 'f setter" where
  "Float32Var put P v c = parsed (parse_Float32 P v) put c"

definition DurationVar :: "(int \<Rightarrow> 'f Config \<Rightarrow> 'f Config) \<Rightarrow> 'f setter" where
  "DurationVar put P v c = parsed (parse_Duration P v) put c"

definition StringSliceVar :: "(string list \<Rightarrow> 'f Config \<Rightarrow> 'f Config) \<Rightarrow> 'f setter" where
  "StringSliceVar put P v c = parsed (parse_StringSlice P v) put c"

definition opts_put :: "(HTTPClientOpts \<Rightarrow> HTTPClientOpts) \<Rightarrow> 'f Config \<Rightarrow> 'f Config" where
  "opts_put u c = c\<lparr>KongAdminAPIConfig := u (KongAdminAPIConfig c)\<rparr>"

definition server_put :: "(ServerConfig \<Rightarrow> ServerConfig) \<Rightarrow> 'f Config \<Rightarrow> 'f Config" where
  "server_put u c = c\<lparr>AdmissionServer := u (AdmissionServer c)\<rparr>"

definition FlagSet :: "(string \<times> 'f setter) list" where
  "FlagSet =
     [(''log-level'', StringVar (\<lambda>v c. c\<lparr>LogLevel := v\<rparr>)),
      (''log-format'', StringVar (\<lambda>v c. c\<lparr>LogFormat := v\<rparr>)),
      (''debug-log-reduce-redundancy'', BoolVar (\<lambda>v c. c\<lparr>LogReduceRedundancy := v\<rparr>)),
      (''kong-admin-tls-skip-verify'', BoolVar (\<lambda>v. opts_put (\<lambda>o'. o'\<lparr>TLSSkipVerify := v\<rparr>))),
      (''kong-admin-tls-server-name'', StringVar (\<lambda>v. opts_put (\<lambda>o'. o'\<lparr>TLSServerName := v\<rparr>))),
      (''kong-admin-ca-cert-file'', StringVar (\<lambda>v. opts_put (\<lambda>o'. o'\<lparr>CACertPath := v\<rparr>))),
      (''kong-admin-ca-cert'', StringVar (\<lambda>v. opts_put (\<lambda>o'. o'\<lparr>CACert := v\<rparr>))),
      (''kong-admin-header'', StringSliceVar (\<lambda>v. opts_put (\<lambda>o'. o'\<lparr>Headers := v\<rparr>))),
      (''kong-admin-token'', StringVar (\<lambda>v c. c\<lparr>KongAdminToken := v\<rparr>)),
      (''kong-workspace'', StringVar (\<lambda>v c. c\<lparr>KongWorkspace := v\<rparr>)),
      (''anonymous-reports'', BoolVar (\<lambda>v c. c\<lparr>AnonymousReports := v\<rparr>)),
      (''enable-reverse-sync'', BoolVar (\<lambda>v c. c\<lparr>EnableReverseSync := v\<rparr>)),
      (''sync-period'', DurationVar (\<lambda>v c. c\<lparr>SyncPeriod := v\<rparr>)),
      (''kong-admin-tls-client-cert-file'', StringVar (\<lambda>v. opts_put (\<lambda>o'. o'\<lparr>TLSClientCertPath := v\<rparr>))),
      (''kong-admin-tls-client-key-file'', StringVar (\<lambda>v. opts_put (\<lambda>o'. o'\<lparr>TLSClientKeyPath := v\<rparr>))),
      (''kong-admin-tls-client-cert'', StringVar (\<lambda>v. opts_put (\<lambda>o'. o'\<lparr>TLSClientCert := v\<rparr>))),
      (''kong-admin-tls-client-key'', StringVar (\<lambda>v. opts_put (\<lambda>o'. o'\<lparr>TLSClientKey := v\<rparr>))),
      (''apiserver-host'', StringVar (\<lambda>v c. c\<lparr>APIServerHost := v\<rparr>)),
      (''apiserver-qps'', IntVar (\<lambda>v c. c\<lparr>APIServerQPS := v\<rparr>)),
      (''apiserver-burst'', IntVar (\<lambda>v c. c\<lparr>APIServerBurst := v\<rparr>)),
      (''metrics-bind-address'', StringVar (\<lambda>v c. c\<lparr>MetricsAddr := v\<rparr>)),
      (''health-probe-bind-address'', StringVar (\<lambda>v c. c\<lparr>ProbeAddr := v\<rparr>)),
      (''kong-admin-url'', StringVar (\<lambda>v c. c\<lparr>KongAdminURL := v\<rparr>)),
      (''proxy-timeout-seconds'', Float32Var (\<lambda>v c. c\<lparr>ProxyTimeoutSeconds := v\<rparr>)),
      (''kong-custom-entities-secret'', StringVar (\<lambda>v c. c\<lparr>KongCustomEntitiesSecret := v\<rparr>)),
      (''kubeconfig'', StringVar (\<lambda>v c. c\<lparr>KubeconfigPath := v\<rparr>)),
      (''controller-class'', StringVar (\<lambda>v c. c\<lparr>ControllerClassName := v\<rparr>)),
      (''election-id'', StringVar (\<lambda>v c. c\<lparr>LeaderElectionID := v\<rparr>)),
      (''election-namespace'', StringVar (\<lambda>v c. c\<lparr>LeaderElectionNamespace := v\<rparr>)),
      (''kong-admin-filter-tag'', StringSliceVar (\<lambda>v c. c\<lparr>FilterTags := v\<rparr>)),
      (''kong-admin-concurrency'', IntVar (\<lambda>v c. c\<lparr>cfg_Concurrency := v\<rparr>)),
      (''watch-namespace'', StringSliceVar (\<lambda>v c. c\<lparr>WatchNamespaces := v\<rparr>)),
      (''publish-service'', StringVar (\<lambda>v c. c\<lparr>PublishService := v\<rparr>)),
      (''publish-status-address'', StringSliceVar (\<lambda>v c. c\<lparr>PublishStatusAddress := v\<rparr>)),
      (''admission-webhook-listen'', StringVar (\<lambda>v. server_put (\<lambda>s. s\<lparr>ListenAddr := v\<rparr>))),
      (''admission-webhook-cert-file'', StringVar (\<lambda>v. server_put (\<lambda>s. s\<lparr>CertPath := v\<rparr>))),
      (''admission-webhook-key-file'', StringVar (\<lambda>v. server_put (\<lambda>s. s\<lparr>KeyPath := v\<rparr>))),
      (''admission-webhook-cert'', StringVar (\<lambda>v. server_put (\<lambda>s. s\<lparr>Cert := v\<rparr>))),
      (''admission-webhook-key'', StringVar (\<lambda>v. server_put (\<lambda>s. s\<lparr>Key := v\<rparr>))),
      (''profiling'', BoolVar (\<lambda>v c. c\<lparr>EnableProfiling := v\<rparr>)),
      (''stderrthreshold'', IntVar (\<lambda>v c. c)),
      (''update-status-on-shutdown'', BoolVar (\<lambda>v c. c))]"

section \<open>env.go\<close>

definition envKeyPrefix :: string where
  "envKeyPrefix = ''CONTROLLER_''"

definition env_key :: "string \<Rightarrow> string" where
  "env_key name = envKeyPrefix @ ToUpper (ReplaceAll_char name (CHR ''-'') (CHR ''_''))"

text \<open>The flags of the command: those of the configuration, which \<^verbatim>\<open>init\<close> adds to it, and the switch \<^verbatim>\<open>help\<close>,
  which cobra adds to every command and which is no part of the configuration.\<close>

definition command_flags :: "(string \<times> 'f setter) list" where
  "command_flags = FlagSet @ [(''help'', BoolVar (\<lambda>v c. c))]"

text \<open>The visit of the flags: it stops at the first value that a flag refuses, with the panic of the callback
  as its first component; what earlier flags have written stays.\<close>

fun visit_flags :: "(string \<Rightarrow> string option) \<Rightarrow> 'f parsers \<Rightarrow> (string \<Rightarrow> bool) \<Rightarrow> (string \<times> 'f setter) list \<Rightarrow>
    'f Config \<Rightarrow> error option \<times> 'f Config" where
  "visit_flags lookupEnv P changed [] c = (None, c)"
| "visit_flags lookupEnv P changed ((name, set_value) # flags) c =
     (let envKey = env_key name in
      if changed name then visit_flags lookupEnv P changed flags c
      else (case lookupEnv envKey of
              None \<Rightarrow> visit_flags lookupEnv P changed flags c
            | Some envValue \<Rightarrow>
                (case set_value P envValue c of
                   Inl err \<Rightarrow> (Some err, c)
                 | Inr c' \<Rightarrow> visit_flags lookupEnv P changed flags c')))"

text \<open>\<^verbatim>\<open>VisitAll\<close> takes the flags in the order of their names. The deferred function recovers the panic and
  reports it.\<close>

definition bindEnvVars :: "(string \<Rightarrow> string option) \<Rightarrow> 'f parsers \<Rightarrow> (string \<Rightarrow> bool) \<Rightarrow> (string \<times> 'f setter) list \<Rightarrow>
    'f Config \<Rightarrow> error option \<times> 'f Config" where
  "bindEnvVars lookupEnv P changed flags c =
     (case visit_flags lookupEnv P changed (sort_key fst flags) c of
        (Some r, c') \<Rightarrow> (Some (Wrapf ''environment binding failed: %v'' [] r), c')
      | (None, c') \<Rightarrow> (None, c'))"

section \<open>The Kong client\<close>

type_synonym ('pool, 'cert, 'w) client_env = "('pool, 'cert) http_globals \<times> bool \<times> 'w"

fun GetKongClient :: "('pool, 'cert) tls_lib \<Rightarrow> 'w workspace_api \<Rightarrow> 'f Config \<Rightarrow> ('pool, 'cert, 'w) client_env \<Rightarrow>
    ((error + kong_client) \<times> 'f Config \<times> ('pool, 'cert, 'w) client_env) blocking" where
  "GetKongClient lib api c (g, locked, w) =
     (let c1 = (if KongAdminToken c \<noteq> '''' then
            opts_put (\<lambda>o'. o'\<lparr>Headers := Headers o' @ [''kong-admin-token:'' @ KongAdminToken c]\<rparr>) c
          else c)
      in case MakeHTTPClient lib (KongAdminAPIConfig c1) g of
           (err, opts', g') \<Rightarrow>
             (let c2 = c1\<lparr>KongAdminAPIConfig := opts'\<rparr>
              in case err of
                   Some e \<Rightarrow> Done (Inl e, c2, (g', locked, w))
                 | None \<Rightarrow>
                     (case GetKongClientForWorkspace api (KongAdminURL c2) (KongWorkspace c2) (locked, w) of
                        Blocked \<Rightarrow> Blocked
                      | Done (res, (locked', w')) \<Rightarrow> Done (res, c2, (g', locked', w')))))"

section \<open>setup.go: manager options\<close>

record ctrl_Options =
  co_MetricsBindAddress :: string
  co_Port :: int
  co_HealthProbeBindAddress :: string
  co_LeaderElection :: bool
  co_LeaderElectionID :: string
  co_SyncPeriod :: int
  co_Namespace :: string
  co_NewCache :: "string list option" \<comment> \<open>the namespaces given to \<^verbatim>\<open>MultiNamespacedCacheBuilder\<close>\<close>
  co_LeaderElectionNamespace :: string

definition setupControllerOptions :: "'f Config \<Rightarrow> error + ctrl_Options" where
  "setupControllerOptions c =
     (let publishServiceSplit = SplitN (PublishService c) (CHR ''/'') 3 in
      if PublishService c \<noteq> '''' \<and> length publishServiceSplit \<noteq> 2 then
        Inl (Errorf ''--publish-service was expected to be in format <namespace>/<name> but got %s''
          [PublishService c])
      else
        (let requiredCacheNamespaces = (if PublishService c \<noteq> '''' then [publishServiceSplit ! 0] else []);
             leaderElection = True;
             controllerOpts =
               \<lparr>co_MetricsBindAddress = MetricsAddr c, co_Port = 9443, co_HealthProbeBindAddress = ProbeAddr c,
                co_LeaderElection = leaderElection, co_LeaderElectionID = LeaderElectionID c,
                co_SyncPeriod = SyncPeriod c, co_Namespace = '''', co_NewCache = None,
                co_LeaderElectionNamespace = ''''\<rparr>;
             cached =
               (if length (WatchNamespaces c) = 0 then controllerOpts\<lparr>co_Namespace := ''''\<rparr>
                else controllerOpts\<lparr>co_NewCache := Some (WatchNamespaces c @ requiredCacheNamespaces)\<rparr>)
         in Inr (if length (LeaderElectionNamespace c) > 0
                 then cached\<lparr>co_LeaderElectionNamespace := LeaderElectionNamespace c\<rparr> else cached)))"

section \<open>Lemmas\<close>

lemmas flag_setters =
  StringVar_def BoolVar_def IntVar_def Float32Var_def DurationVar_def StringSliceVar_def

lemma parsed_Inr: "parsed r put c = Inr c' \<longleftrightarrow> (\<exists>x. r = Inr x \<and> c' = put x c)"
  by (cases r) (auto simp: parsed_def)

text \<open>Whether a value of a flag is refused does not depend on the configuration it is written to.\<close>

definition takes_value :: "'f parsers \<Rightarrow> 'f setter \<Rightarrow> string \<Rightarrow> bool" where
  "takes_value P st v \<longleftrightarrow> (\<forall>c. \<exists>c'. st P v c = Inr c')"

definition uniform :: "'f setter \<Rightarrow> bool" where
  "uniform st \<longleftrightarrow> (\<forall>P v c c'. st P v c = Inr c' \<longrightarrow> takes_value P st v)"

lemma uniform_setters [simp]:
  "uniform (StringVar put)" "uniform (BoolVar putb)" "uniform (IntVar puti)" "uniform (Float32Var putf)"
  "uniform (DurationVar puti)" "uniform (StringSliceVar puts)"
  by (auto simp: uniform_def takes_value_def flag_setters parsed_Inr)

lemma command_flags_uniform: "list_all (\<lambda>flag. uniform (snd flag)) command_flags"
  by (simp add: command_flags_def FlagSet_def)

lemma takes_value_iff: "uniform st \<Longrightarrow> takes_value P st v \<longleftrightarrow> (\<exists>c'. st P v c = Inr c')"
  unfolding uniform_def takes_value_def by blast

text \<open>The environment has no value for the flag, or one it takes.\<close>

definition env_fits :: "(string \<Rightarrow> string option) \<Rightarrow> 'f parsers \<Rightarrow> (string \<Rightarrow> bool) \<Rightarrow> string \<times> 'f setter \<Rightarrow> bool" where
  "env_fits lookupEnv P changed flag \<longleftrightarrow>
     changed (fst flag) \<or>
     (case lookupEnv (env_key (fst flag)) of None \<Rightarrow> True | Some v \<Rightarrow> takes_value P (snd flag) v)"

lemma visit_flags_succeeds_iff:
  assumes "list_all (\<lambda>flag. uniform (snd flag)) flags"
  shows "fst (visit_flags lookupEnv P changed flags c) = None \<longleftrightarrow>
    list_all (env_fits lookupEnv P changed) flags"
  using assms
proof (induction lookupEnv P changed flags c rule: visit_flags.induct)
  case (2 lookupEnv P changed name st flags c)
  have tail: "list_all (\<lambda>flag. uniform (snd flag)) flags" and "uniform st" using 2(4) by simp_all
  show ?case
  proof (cases "changed name \<or> lookupEnv (env_key name) = None")
    case True
    then show ?thesis using 2(1,2) tail by (auto simp: Let_def env_fits_def)
  next
    case False
    then obtain v where v: "\<not> changed name" "lookupEnv (env_key name) = Some v" by auto
    have tv: "takes_value P st v \<longleftrightarrow> (\<exists>c'. st P v c = Inr c')"
      by (rule takes_value_iff) fact
    show ?thesis
    proof (cases "st P v c")
      case (Inl e)
      then show ?thesis using v tv by (simp add: Let_def env_fits_def)
    next
      case (Inr c')
      then show ?thesis using v tv 2(3) [OF refl v Inr tail] by (simp add: Let_def env_fits_def)
    qed
  qed
qed simp

lemma bindEnvVars_ok_iff:
  assumes "list_all (\<lambda>flag. uniform (snd flag)) flags"
  shows "fst (bindEnvVars lookupEnv P changed flags c) = None \<longleftrightarrow> list_all (env_fits lookupEnv P changed) flags"
proof -
  have "list_all (\<lambda>flag. uniform (snd flag)) (sort_key fst flags)"
    using assms by (simp add: list_all_iff)
  from visit_flags_succeeds_iff [OF this, of lookupEnv P changed c] show ?thesis
    by (auto simp: bindEnvVars_def list_all_iff split: prod.splits option.splits)
qed

text \<open>A field that only one flag writes.\<close>

lemma visit_flags_keeps:
  assumes "\<forall>(name, st) \<in> set flags. \<forall>v c c'. st P v c = Inr c' \<longrightarrow> g c' = g c"
  shows "g (snd (visit_flags lookupEnv P changed flags c)) = g c"
  using assms
  by (induction lookupEnv P changed flags c rule: visit_flags.induct)
    (auto simp: Let_def split: option.splits sum.splits)

lemma visit_flags_append:
  "visit_flags lookupEnv P changed (fs @ gs) c =
    (case visit_flags lookupEnv P changed fs c of
       (Some e, c') \<Rightarrow> (Some e, c')
     | (None, c') \<Rightarrow> visit_flags lookupEnv P changed gs c')"
  by (induction lookupEnv P changed fs c rule: visit_flags.induct)
    (auto simp: Let_def split: option.splits sum.splits)

lemma visit_flags_field:
  assumes "\<forall>(name', st') \<in> set fs \<union> set gs. \<forall>v c c'. st' P v c = Inr c' \<longrightarrow> g c' = g c"
    and "\<And>v c c'. st P v c = Inr c' \<Longrightarrow> get v = Inr (g c')"
    and "visit_flags lookupEnv P changed (fs @ (name, st) # gs) c = (None, c')"
  shows "if changed name then g c' = g c
    else (case lookupEnv (env_key name) of None \<Rightarrow> g c' = g c | Some v \<Rightarrow> get v = Inr (g c'))"
proof -
  obtain c1 where c1: "visit_flags lookupEnv P changed fs c = (None, c1)"
    and rest: "visit_flags lookupEnv P changed ((name, st) # gs) c1 = (None, c')"
    using assms(3) by (auto simp: visit_flags_append split: prod.splits option.splits)
  have "g c1 = g c"
    using visit_flags_keeps [of fs P g lookupEnv changed c] assms(1) c1 by auto
  moreover have "g c' = g c2" if "visit_flags lookupEnv P changed gs c2 = (None, c')" for c2
    using visit_flags_keeps [of gs P g lookupEnv changed c2] assms(1) that by auto
  ultimately show ?thesis
    using rest assms(2) by (auto simp: Let_def split: option.splits sum.splits)
qed

text \<open>A split in at most three parts has two exactly when the separator occurs once.\<close>

lemma count_split:
  assumes "sep \<in> set s"
  shows "count_list s sep = Suc (count_list (tl (dropWhile (\<lambda>c. c \<noteq> sep) s)) sep)"
  using assms by (induction s) auto

lemma length_SplitN_3: "length (SplitN s sep 3) = 2 \<longleftrightarrow> count_list s sep = 1"
proof (cases "sep \<in> set s")
  case True
  let ?t = "tl (dropWhile (\<lambda>c. c \<noteq> sep) s)"
  have "SplitN s sep 3 = takeWhile (\<lambda>c. c \<noteq> sep) s # SplitN ?t sep 2"
    using SplitN_sep [OF True, of 1] by (simp add: numeral_3_eq_3 numeral_2_eq_2)
  then show ?thesis
    using count_split [OF True] by (auto simp: SplitN_two count_list_0_iff)
next
  case False
  then show ?thesis
    using SplitN_no_sep [OF False, of 2] by (simp add: numeral_3_eq_3 count_list_0_iff)
qed

lemma SplitN_3_first: "CHR ''/'' \<in> set s \<Longrightarrow> SplitN s (CHR ''/'') 3 ! 0 = takeWhile (\<lambda>c. c \<noteq> CHR ''/'') s"
  using SplitN_sep [of "CHR ''/''" s 1] by (simp add: numeral_3_eq_3)

section \<open>Properties\<close>

definition sample_parsers :: "unit parsers" where
  "sample_parsers =
     \<lparr>parse_Bool = (\<lambda>v. if v = ''true'' then Inr True else if v = ''false'' then Inr False
        else Inl (External ''invalid syntax'')),
      parse_Int = (\<lambda>v. Inl (External ''invalid syntax'')),
      parse_Float32 = (\<lambda>v. Inr ()),
      parse_Duration = (\<lambda>v. Inl (External ''invalid duration'')),
      parse_StringSlice = (\<lambda>v. Inr (SplitN v (CHR '','') (Suc (length v))))\<rparr>"

definition sample_config :: "unit Config" where
  "sample_config = (flag_defaults ())\<lparr>KongAdminToken := ''secret''\<rparr>"

lemma flags_have_distinct_variables:
  "distinct (map env_key (map fst (command_flags :: (string \<times> 'f setter) list))) \<and>
    env_key ''kong-admin-tls-client-cert-file'' = ''CONTROLLER_KONG_ADMIN_TLS_CLIENT_CERT_FILE''"
proof
  show "distinct (map env_key (map fst (command_flags :: (string \<times> 'f setter) list)))"
    unfolding command_flags_def FlagSet_def append.simps list.map fst_conv by code_simp
qed code_simp

lemma bindEnvVars_succeeds_iff:
  fixes P :: "'f parsers"
  shows "fst (bindEnvVars lookupEnv P changed command_flags c) = None \<longleftrightarrow>
    list_all (\<lambda>(name, set_value). changed name \<or>
      (case lookupEnv (env_key name) of None \<Rightarrow> True | Some v \<Rightarrow> takes_value P set_value v)) command_flags"
proof -
  have "(\<lambda>(name, set_value :: 'f setter). changed name \<or>
      (case lookupEnv (env_key name) of None \<Rightarrow> True | Some v \<Rightarrow> takes_value P set_value v)) =
    env_fits lookupEnv P changed"
    by (auto simp: env_fits_def fun_eq_iff split: option.splits)
  then show ?thesis
    using bindEnvVars_ok_iff [OF command_flags_uniform, of lookupEnv P changed c] by simp
qed

lemma command_flags_keeps_class:
  "list_all (\<lambda>(name, st). name = ''controller-class'' \<or>
    (\<forall>P v c c'. st P v c = Inr c' \<longrightarrow> ControllerClassName c' = ControllerClassName c)) command_flags"
  unfolding command_flags_def FlagSet_def by (auto simp: flag_setters parsed_Inr opts_put_def server_put_def)

lemma command_flags_names: "distinct (map fst (command_flags :: (string \<times> 'f setter) list))"
  using flags_have_distinct_variables [THEN conjunct1, unfolded distinct_map [of env_key]] by (rule conjunct1)

lemma sorted_flags_split_class:
  "\<exists>fs gs. sort_key fst (command_flags :: (string \<times> 'f setter) list) = fs @ (''controller-class'', StringVar (\<lambda>v c. c\<lparr>ControllerClassName := v\<rparr>)) # gs \<and>
    (\<forall>(name, st) \<in> set fs \<union> set gs. \<forall>P v c c'. st P v c = Inr c' \<longrightarrow> ControllerClassName c' = ControllerClassName c)"
proof -
  let ?flag = "(''controller-class'', StringVar (\<lambda>v c. c\<lparr>ControllerClassName := v\<rparr>) :: 'f setter)"
    and ?flags = "sort_key fst (command_flags :: (string \<times> 'f setter) list)"
  have "?flag \<in> set ?flags" by (simp add: command_flags_def FlagSet_def)
  from split_list [OF this] obtain fs gs where split: "?flags = fs @ ?flag # gs" by blast
  have "distinct (map fst ?flags)"
    using command_flags_names by (simp add: distinct_map)
  then have "distinct (map fst fs @ ''controller-class'' # map fst gs)"
    by (simp only: split map_append list.map fst_conv)
  then have other: "''controller-class'' \<notin> fst ` (set fs \<union> set gs)"
    by (simp only: distinct_append distinct.simps image_Un set_map list.set) blast
  have old: "set fs \<union> set gs \<subseteq> set command_flags"
    using arg_cong [OF split, of set] by (simp only: set_sort set_append list.set) blast
  have "\<forall>P v c c'. snd flag P v c = Inr c' \<longrightarrow> ControllerClassName c' = ControllerClassName c"
    if "flag \<in> set fs \<union> set gs" for flag
  proof -
    from that old have "flag \<in> set command_flags" by (rule rev_subsetD)
    from bspec [OF command_flags_keeps_class [unfolded list_all_iff] this] have kept: "fst flag = ''controller-class'' \<or>
        (\<forall>P v c c'. snd flag P v c = Inr c' \<longrightarrow> ControllerClassName c' = ControllerClassName c)"
      by (cases flag) (simp only: prod.case fst_conv snd_conv)
    have "fst flag \<noteq> ''controller-class''"
    proof
      assume eq: "fst flag = ''controller-class''"
      show False by (rule notE [OF other]) (rule image_eqI [where f = fst, OF eq [symmetric] that])
    qed
    with kept show ?thesis by (simp only: simp_thms)
  qed
  then have "\<forall>(name, st) \<in> set fs \<union> set gs. \<forall>P v c c'. st P v c = Inr c' \<longrightarrow> ControllerClassName c' = ControllerClassName c"
    by (intro ballI) (simp only: case_prod_beta)
  with split show ?thesis by blast
qed

lemma class_from_flag_or_environment:
  fixes c :: "'f Config"
  assumes "bindEnvVars lookupEnv P changed command_flags c = (None, c')"
  shows "ControllerClassName c' =
    (if changed ''controller-class'' then ControllerClassName c
     else case lookupEnv ''CONTROLLER_CONTROLLER_CLASS'' of None \<Rightarrow> ControllerClassName c | Some v \<Rightarrow> v)"
proof -
  let ?set = "StringVar (\<lambda>v c. c\<lparr>ControllerClassName := v\<rparr>) :: 'f setter"
  obtain fs gs where split: "sort_key fst command_flags = fs @ (''controller-class'', ?set) # gs"
    and keep: "\<forall>(name, st) \<in> set fs \<union> set gs. \<forall>P v c c'. st P v c = Inr c' \<longrightarrow> ControllerClassName c' = ControllerClassName c"
    using sorted_flags_split_class by blast
  have key: "env_key ''controller-class'' = ''CONTROLLER_CONTROLLER_CLASS''" by code_simp
  have visit: "visit_flags lookupEnv P changed (fs @ (''controller-class'', ?set) # gs) c = (None, c')"
    using assms by (auto simp: bindEnvVars_def split split: prod.splits option.splits)
  have keepP: "\<forall>(name, st) \<in> set fs \<union> set gs. \<forall>v c c'. st P v c = Inr c' \<longrightarrow>
      ControllerClassName c' = ControllerClassName c"
    using keep by fast
  have put: "(Inr v :: error + string) = Inr (ControllerClassName d')" if "?set P v d = Inr d'" for v d d'
    using that by (auto simp: StringVar_def)
  have "if changed ''controller-class'' then ControllerClassName c' = ControllerClassName c
      else (case lookupEnv (env_key ''controller-class'') of
              None \<Rightarrow> ControllerClassName c' = ControllerClassName c
            | Some v \<Rightarrow> (Inr v :: error + string) = Inr (ControllerClassName c'))"
    by (rule visit_flags_field [OF keepP put visit])
  then show ?thesis
    by (auto simp: key split: if_splits option.splits)
qed

lemma class_from_flag_or_environment_witness:
  "\<exists>c'. bindEnvVars [''CONTROLLER_CONTROLLER_CLASS'' \<mapsto> ''internal''] sample_parsers (\<lambda>_. False) command_flags sample_config =
      (None, c') \<and> ControllerClassName c' = ''internal''"
proof -
  let ?env = "[''CONTROLLER_CONTROLLER_CLASS'' \<mapsto> ''internal'']"
  have "fst (visit_flags ?env sample_parsers (\<lambda>_. False) command_flags sample_config) = None"
    by code_simp
  then have "fst (bindEnvVars ?env sample_parsers (\<lambda>_. False) command_flags sample_config) = None"
    by (simp only: visit_flags_succeeds_iff [OF command_flags_uniform] bindEnvVars_ok_iff [OF command_flags_uniform])
  then obtain c' where c: "bindEnvVars ?env sample_parsers (\<lambda>_. False) command_flags sample_config = (None, c')"
    by (metis prod.collapse)
  from class_from_flag_or_environment [OF c] c show ?thesis by simp
qed

lemma setupControllerOptions_spec:
  "setupControllerOptions c =
    (if PublishService c \<noteq> '''' \<and> count_list (PublishService c) (CHR ''/'') \<noteq> 1 then
       Inl (Errorf ''--publish-service was expected to be in format <namespace>/<name> but got %s'' [PublishService c])
     else Inr
       \<lparr>co_MetricsBindAddress = MetricsAddr c, co_Port = 9443, co_HealthProbeBindAddress = ProbeAddr c,
        co_LeaderElection = True, co_LeaderElectionID = LeaderElectionID c, co_SyncPeriod = SyncPeriod c,
        co_Namespace = '''',
        co_NewCache =
          (if WatchNamespaces c = [] then None
           else Some (WatchNamespaces c @
             (if PublishService c = '''' then []
              else [takeWhile (\<lambda>ch. ch \<noteq> CHR ''/'') (PublishService c)]))),
        co_LeaderElectionNamespace = LeaderElectionNamespace c\<rparr>)"
proof (cases "PublishService c \<noteq> '''' \<and> count_list (PublishService c) (CHR ''/'') \<noteq> 1")
  case False
  then have "PublishService c \<noteq> '''' \<Longrightarrow> CHR ''/'' \<in> set (PublishService c)"
    using count_list_0_iff [of "PublishService c" "CHR ''/''"] by auto
  with False show ?thesis
    by (simp add: setupControllerOptions_def Let_def length_SplitN_3 SplitN_3_first)
qed (simp add: setupControllerOptions_def Let_def length_SplitN_3)

text \<open>C36. With an admin token configured, every request that a client obtained by GetKongClient
  sends reaches the transport with the token as the only value of its header, over any header given by
  flag, and with every header that no configured entry names and the rest of the request as they were;
  every call appends the token's header to the configuration once more, also when it fails.\<close>
theorem GetKongClient_sends_the_token:
  assumes token: "KongAdminToken c \<noteq> ''''"
    and done_call: "GetKongClient lib api c (g, locked, w) = Done (res, c', (g', locked', w'))"
  shows "Headers (KongAdminAPIConfig c') =
      Headers (KongAdminAPIConfig c) @ [''kong-admin-token:'' @ KongAdminToken c] \<and>
    (\<forall>client. res = Inr client \<longrightarrow>
      (\<exists>hs. DefaultClient_Headers g' = Some hs \<and>
        (\<forall>rt req w. \<exists>req'. RoundTrip hs rt req w = rt req' w \<and> rq_Rest req' = rq_Rest req \<and>
          rq_Header req' ''kong-admin-token'' = Some [KongAdminToken c] \<and>
          (\<forall>k. k \<noteq> ''kong-admin-token'' \<longrightarrow>
            (\<forall>h \<in> set (Headers (KongAdminAPIConfig c)). CHR '':'' \<in> set h \<longrightarrow> takeWhile (\<lambda>ch. ch \<noteq> CHR '':'') h \<noteq> k) \<longrightarrow>
            rq_Header req' k = rq_Header req k))))"
proof -
  let ?hs = "Headers (KongAdminAPIConfig c) @ [''kong-admin-token:'' @ KongAdminToken c]"
  let ?o = "(KongAdminAPIConfig c)\<lparr>Headers := ?hs\<rparr>"
  obtain err opts' g1 where mk: "MakeHTTPClient lib ?o g = (err, opts', g1)"
    by (metis prod.exhaust)
  have kept: "Headers opts' = ?hs" and installed: "err = None \<Longrightarrow> DefaultClient_Headers g1 = Some ?hs"
    using MakeHTTPClient_headers [OF mk] by simp_all
  have c': "KongAdminAPIConfig c' = opts'" and g': "err = None \<Longrightarrow> g' = g1" and r: "err \<noteq> None \<Longrightarrow> \<exists>e. res = Inl e"
    using done_call token mk
    by (auto simp: Let_def opts_put_def simp del: GetKongClientForWorkspace.simps
        split: option.splits blocking.splits prod.splits)
  have token_key: "takeWhile (\<lambda>ch. ch \<noteq> CHR '':'') (''kong-admin-token:'' @ v) = ''kong-admin-token''" for v by simp
  have "\<exists>req'. RoundTrip ?hs rt req w = rt req' w \<and> rq_Rest req' = rq_Rest req \<and>
      rq_Header req' ''kong-admin-token'' = Some [KongAdminToken c] \<and>
      (\<forall>k. k \<noteq> ''kong-admin-token'' \<longrightarrow>
        (\<forall>h \<in> set (Headers (KongAdminAPIConfig c)). CHR '':'' \<in> set h \<longrightarrow> takeWhile (\<lambda>ch. ch \<noteq> CHR '':'') h \<noteq> k) \<longrightarrow>
        rq_Header req' k = rq_Header req k)" for rt :: "'x http_Request \<Rightarrow> 'y \<Rightarrow> 'z \<times> 'y" and req w
  proof -
    obtain req' where r: "RoundTrip ?hs rt req w = rt req' w" "rq_Rest req' = rq_Rest req"
        "rq_Header req' ''kong-admin-token'' = Some [KongAdminToken c]"
      and others: "\<And>k. (\<forall>h \<in> set ?hs. CHR '':'' \<in> set h \<longrightarrow> takeWhile (\<lambda>ch. ch \<noteq> CHR '':'') h \<noteq> k) \<Longrightarrow>
        rq_Header req' k = rq_Header req k"
      using configured_header_is_sent [of ?hs "Headers (KongAdminAPIConfig c)" "''kong-admin-token''" "KongAdminToken c" "[]" rt req w]
      by auto
    have "rq_Header req' k = rq_Header req k" if "k \<noteq> ''kong-admin-token''"
      "\<forall>h \<in> set (Headers (KongAdminAPIConfig c)). CHR '':'' \<in> set h \<longrightarrow> takeWhile (\<lambda>ch. ch \<noteq> CHR '':'') h \<noteq> k" for k
    proof (rule others, rule ballI)
      fix h assume "h \<in> set ?hs"
      then consider "h \<in> set (Headers (KongAdminAPIConfig c))" | "h = ''kong-admin-token:'' @ KongAdminToken c"
        by (simp only: set_append list.set) blast
      then show "CHR '':'' \<in> set h \<longrightarrow> takeWhile (\<lambda>ch. ch \<noteq> CHR '':'') h \<noteq> k"
      proof cases
        case 1
        with that(2) show ?thesis by (rule bspec)
      next
        case 2
        show ?thesis unfolding 2 token_key by (rule impI) (rule not_sym [OF that(1)])
      qed
    qed
    with r show ?thesis by blast
  qed
  then show ?thesis
    using kept installed c' g' r by (cases err) auto
qed

theorem GetKongClient_sends_the_token_witness:
  "\<exists>client c' g' locked' w'. GetKongClient sample_tls mem_workspaces sample_config
      (\<lparr>DefaultTransport_TLS = None, DefaultClient_Headers = None\<rparr>, False, ([], [])) =
        Done (Inr client, c', (g', locked', w')) \<and>
    Headers (KongAdminAPIConfig c') = [''kong-admin-token:secret'']"
proof -
  let ?env = "(\<lparr>DefaultTransport_TLS = None, DefaultClient_Headers = None\<rparr>, False, ([], []))"
  have "\<exists>client c' g' locked' w'. GetKongClient sample_tls mem_workspaces sample_config ?env =
      Done (Inr client, c', (g', locked', w'))"
    by (simp add: sample_config_def flag_defaults_def opts_put_def MakeHTTPClient_def root_pool_def
        read_client_pair_def client_certificates_def mem_workspaces_def Let_def) blast
  then obtain client c' g' locked' w' where c: "GetKongClient sample_tls mem_workspaces sample_config ?env =
      Done (Inr client, c', (g', locked', w'))" by blast
  have "KongAdminToken sample_config \<noteq> ''''" by (simp add: sample_config_def)
  from conjunct1 [OF GetKongClient_sends_the_token [OF this c]]
  have "Headers (KongAdminAPIConfig c') = [''kong-admin-token:secret'']"
    by (simp add: sample_config_def flag_defaults_def)
  with c show ?thesis by blast
qed

lemma MakeLogger_settings:
  "MakeLogger level formatter = Inr (l, f) \<longleftrightarrow>
    (level, l) \<in> set [(''panic'', PanicLevel), (''fatal'', FatalLevel), (''error'', ErrorLevel), (''warn'', WarnLevel),
      (''info'', InfoLevel), (''debug'', DebugLevel), (''trace'', TraceLevel)] \<and>
    (formatter, f) \<in> set [(''text'', TextFormatter), (''json'', JSONFormatter)]"
proof -
  have level: "getLogrusLevel level = Inr l \<longleftrightarrow>
      (level, l) \<in> set [(''panic'', PanicLevel), (''fatal'', FatalLevel), (''error'', ErrorLevel), (''warn'', WarnLevel),
        (''info'', InfoLevel), (''debug'', DebugLevel), (''trace'', TraceLevel)]"
    unfolding logrusLevels_iff [symmetric] by (simp add: getLogrusLevel_def split: option.split)
  have formatter: "getLogrusFormatter formatter = Inr f \<longleftrightarrow>
      (formatter, f) \<in> set [(''text'', TextFormatter), (''json'', JSONFormatter)]"
    by (auto simp: getLogrusFormatter_def split: if_splits)
  show ?thesis
    unfolding level [symmetric] formatter [symmetric] by (auto simp: MakeLogger_def split: sum.split)
qed

end
