(* ===== verification/Manager_Run.thy ===== *)
theory Manager_Run
  imports Manager_Config Reference_Env
begin

text \<open>
  The start of the controller manager: \<^verbatim>\<open>internal/manager/run.go\<close> with the set-up functions of
  \<^verbatim>\<open>setup.go\<close> and the controllers of \<^verbatim>\<open>controllerdef.go\<close>, and the entry points \<^verbatim>\<open>run.go\<close> and
  \<^verbatim>\<open>servers.go\<close> of \<^verbatim>\<open>internal/cmd/rootcmd\<close>.

  \<^verbatim>\<open>Run\<close> is one pipeline of steps with early returns, over the configuration, the process-wide state of
  the Kong client, the world and the metrics registry. A step ends in a value, an error, a panic, or a
  wait for a lock that is never released; \<open>and_then\<close> is the sequencing of the steps. Everything of
  controller-runtime is in the record \<open>run_deps\<close>; logging is left out.
\<close>

section \<open>Steps\<close>

datatype ('a, 's) step =
    Ok 'a 's
  | Fail error 's
  | Panics string
  | Hangs

fun and_then :: "('a, 's) step \<Rightarrow> ('a \<Rightarrow> 's \<Rightarrow> ('b, 's) step) \<Rightarrow> ('b, 's) step" where
  "and_then (Ok x s) f = f x s"
| "and_then (Fail e s) f = Fail e s"
| "and_then (Panics m) f = Panics m"
| "and_then Hangs f = Hangs"

fun wrap_error :: "(error \<Rightarrow> error) \<Rightarrow> ('a, 's) step \<Rightarrow> ('a, 's) step" where
  "wrap_error w (Fail e s) = Fail (w e) s"
| "wrap_error w r = r"

definition check_error :: "error option \<Rightarrow> 's \<Rightarrow> (unit, 's) step" where
  "check_error err s = (case err of None \<Rightarrow> Ok () s | Some e \<Rightarrow> Fail e s)"

lemma and_then_Ok_iff:
  "and_then r f = Ok y t \<longleftrightarrow> (\<exists>x s. r = Ok x s \<and> f x s = Ok y t)"
  by (cases r) auto

lemma and_then_Fail_iff:
  "and_then r f = Fail e t \<longleftrightarrow> r = Fail e t \<or> (\<exists>x s. r = Ok x s \<and> f x s = Fail e t)"
  by (cases r) auto

text \<open>What follows a step that cannot succeed does not matter.\<close>

lemma and_then_not_Ok: "(\<And>x s. r \<noteq> Ok x s) \<Longrightarrow> and_then r f = and_then r g"
  by (cases r) auto

lemma wrap_error_Fail_iff: "wrap_error w r = Fail e s \<longleftrightarrow> (\<exists>e'. r = Fail e' s \<and> e = w e')"
  by (cases r) auto

lemma wrap_error_Ok_iff [simp]: "wrap_error w r = Ok x s \<longleftrightarrow> r = Ok x s"
  by (cases r) auto

lemma check_error_Ok_iff [simp]: "check_error err s = Ok u t \<longleftrightarrow> err = None \<and> t = s"
  by (auto simp: check_error_def split: option.splits)

section \<open>State and dependencies\<close>

record ('f, 'pool, 'cert, 'w, 'reg) run_state =
  rs_config :: "'f Config"
  rs_http :: "('pool, 'cert) http_globals"
  rs_locked :: bool
  rs_world :: 'w
  rs_registry :: 'reg
  rs_servers :: "string list" \<comment> \<open>the addresses of the servers started in the background\<close>

record rest_Config =
  QPS :: int
  Burst :: int

record ('f, 'pool, 'cert, 'w, 'v, 'reg) run_deps =
  rd_tls :: "('pool, 'cert) tls_lib"
  rd_api :: "'w workspace_api"
  rd_init :: "('w, 'v, 'reg) init_deps"
  rd_zero_version :: 'v
  rd_scheme :: "error option" \<comment> \<open>the error of building the scheme, which \<^verbatim>\<open>utilruntime.Must\<close> panics on\<close>
  rd_BuildConfig :: "string \<Rightarrow> string \<Rightarrow> error + rest_Config"
  rd_Root :: "'w \<Rightarrow> (error + (string \<Rightarrow> dyn option)) \<times> 'w"
  rd_Timeout :: "'f \<Rightarrow> error + int" \<comment> \<open>\<^verbatim>\<open>time.ParseDuration\<close> of the seconds as text\<close>
  rd_NewManager :: "rest_Config \<Rightarrow> ctrl_Options \<Rightarrow> 'w \<Rightarrow> error option \<times> 'w"
  rd_Add :: "'w \<Rightarrow> error option \<times> 'w"
  rd_KindFor :: "GroupVersionResource \<Rightarrow> 'w \<Rightarrow> error option"
  rd_IsNoMatch :: "error \<Rightarrow> bool"
  rd_NewPredicateFuncs :: "(ObjectMeta \<Rightarrow> bool) \<Rightarrow> Funcs"
  rd_Complete :: "Funcs \<Rightarrow> 'w \<Rightarrow> error option \<times> 'w" \<comment> \<open>the builder of a controller with an event filter\<close>
  rd_AddHealthzCheck :: "'w \<Rightarrow> error option \<times> 'w"
  rd_AddReadyzCheck :: "'w \<Rightarrow> error option \<times> 'w"
  rd_Start :: "'w \<Rightarrow> error option \<times> 'w"

text \<open>A call that only moves the world.\<close>

definition world_call :: "('w \<Rightarrow> error option \<times> 'w) \<Rightarrow> ('f, 'pool, 'cert, 'w, 'reg) run_state \<Rightarrow>
    (unit, ('f, 'pool, 'cert, 'w, 'reg) run_state) step" where
  "world_call call s = (case call (rs_world s) of (err, w) \<Rightarrow> check_error err (s\<lparr>rs_world := w\<rparr>))"

section \<open>config.go: the Kubernetes client\<close>

text \<open>The rate limits are set on the configuration that was built, whatever it came with. The conversion
  of the limit to \<^verbatim>\<open>float32\<close> is left out.\<close>

definition GetKubeconfig :: "(string \<Rightarrow> string \<Rightarrow> error + rest_Config) \<Rightarrow> 'f Config \<Rightarrow> error + rest_Config" where
  "GetKubeconfig buildConfigFromFlags c =
     (case buildConfigFromFlags (APIServerHost c) (KubeconfigPath c) of
        Inl err \<Rightarrow> Inl err
      | Inr config \<Rightarrow> Inr (config\<lparr>QPS := APIServerQPS c, Burst := APIServerBurst c\<rparr>))"

definition GetKubeClient :: "(string \<Rightarrow> string \<Rightarrow> error + rest_Config) \<Rightarrow> (rest_Config \<Rightarrow> error + 'client) \<Rightarrow>
    'f Config \<Rightarrow> error + 'client" where
  "GetKubeClient buildConfigFromFlags newClient c =
     (case GetKubeconfig buildConfigFromFlags c of
        Inl err \<Rightarrow> Inl err
      | Inr conf \<Rightarrow> newClient conf)"

section \<open>setup.go\<close>

definition setupLoggers :: "'f Config \<Rightarrow> error + Level \<times> Formatter" where
  "setupLoggers c =
     (case MakeLogger (LogLevel c) (LogFormat c) of
        Inl err \<Rightarrow> Inl (Wrapf ''failed to make logger: %w'' [] err)
      | Inr customizedLogger \<Rightarrow> Inr customizedLogger)"

definition setupKongConfig :: "('f, 'pool, 'cert, 'w, 'v, 'reg) run_deps \<Rightarrow>
    ('f, 'pool, 'cert, 'w, 'reg) run_state \<Rightarrow> ('v Kong, ('f, 'pool, 'cert, 'w, 'reg) run_state) step" where
  "setupKongConfig deps s =
     (case GetKongClient (rd_tls deps) (rd_api deps) (rs_config s) (rs_http s, rs_locked s, rs_world s) of
        Blocked \<Rightarrow> Hangs
      | Done (res, c, (g, locked, w)) \<Rightarrow>
          (let s' = s\<lparr>rs_config := c, rs_http := g, rs_locked := locked, rs_world := w\<rparr>
           in case res of
                Inl err \<Rightarrow> Fail (Wrapf ''unable to build kong api client: %w'' [] err) s'
              | Inr client \<Rightarrow>
                  Ok \<lparr>URL = KongAdminURL c, InMemory = False, Version = rd_zero_version deps,
                    Concurrency = cfg_Concurrency c\<rparr> s'))"

definition setupProxyServer :: "'c cache_Store \<Rightarrow> ('f, 'pool, 'cert, 'w, 'v, 'reg) run_deps \<Rightarrow> 'v Kong \<Rightarrow>
    ('f, 'pool, 'cert, 'w, 'reg) run_state \<Rightarrow>
    (('c, 'v) CachedProxyResolver, ('f, 'pool, 'cert, 'w, 'reg) run_state) step" where
  "setupProxyServer S deps kongConfig0 s =
     (case rd_Timeout deps (ProxyTimeoutSeconds (rs_config s)) of
        Inl err \<Rightarrow> Fail err s
      | Inr timeoutDuration \<Rightarrow>
          (case NewCacheBasedProxyWithStagger (rd_init deps) (rd_zero_version deps) kongConfig0
               (ControllerClassName (rs_config s)) (EnableReverseSync (rs_config s)) timeoutDuration
               (NewCacheStores S) (rs_world s, rs_registry s) of
             Panic m \<Rightarrow> Panics m
           | Return (Inl err, (w, reg)) \<Rightarrow> Fail err (s\<lparr>rs_world := w, rs_registry := reg\<rparr>)
           | Return (Inr proxyServer, (w, reg)) \<Rightarrow>
               and_then (world_call (rd_Add deps) (s\<lparr>rs_world := w, rs_registry := reg\<rparr>))
                 (\<lambda>_ s'. Ok proxyServer s')))"

text \<open>The server is started in the background, whatever its address.\<close>

definition setupAdmissionServer :: "('f, 'pool, 'cert, 'w, 'v, 'reg) run_deps \<Rightarrow>
    ('f, 'pool, 'cert, 'w, 'reg) run_state \<Rightarrow> (unit, ('f, 'pool, 'cert, 'w, 'reg) run_state) step" where
  "setupAdmissionServer deps s =
     (let c = rs_config s in
      case MakeLogger (LogLevel c) (LogFormat c) of
        Inl err \<Rightarrow> Fail err s
      | Inr _ \<Rightarrow>
          (case MakeTLSServer (ReadFile (rd_tls deps)) (X509KeyPair (rd_tls deps)) (AdmissionServer c)
               ValidateKongFile of
             Inl err \<Rightarrow> Fail err s
           | Inr srv \<Rightarrow> Ok () (s\<lparr>rs_servers := Addr srv # rs_servers s\<rparr>)))"

section \<open>controllerdef.go\<close>

text \<open>A definition's controller is what its set-up does to the world; an automatic handler asks the API
  server.\<close>

record 'w ControllerDef =
  Enabled :: bool
  AutoHandler :: "('w \<Rightarrow> bool) option"
  Controller :: "'w \<Rightarrow> error option \<times> 'w"

definition MaybeSetupWithManager :: "'w ControllerDef \<Rightarrow> 'w \<Rightarrow> error option \<times> 'w" where
  "MaybeSetupWithManager c w =
     (if \<not> Enabled c then (None, w)
      else if (case AutoHandler c of None \<Rightarrow> False | Some handler \<Rightarrow> \<not> handler w) then (None, w)
      else Controller c w)"

text \<open>\<^verbatim>\<open>CRDExists\<close> of \<^verbatim>\<open>utils.go\<close>: any error of the lookup but \<^verbatim>\<open>NoMatch\<close> counts as present.\<close>

definition CRDExists :: "(GroupVersionResource \<Rightarrow> 'w \<Rightarrow> error option) \<Rightarrow> (error \<Rightarrow> bool) \<Rightarrow>
    GroupVersionResource \<Rightarrow> 'w \<Rightarrow> bool" where
  "CRDExists kindFor isNoMatch gvr w =
     (case kindFor gvr w of None \<Rightarrow> True | Some err \<Rightarrow> \<not> isNoMatch err)"

definition setupControllers :: "('f, 'pool, 'cert, 'w, 'v, 'reg) run_deps \<Rightarrow> 'f Config \<Rightarrow>
    'w ControllerDef list" where
  "setupControllers deps c =
     [\<lparr>Enabled = True,
       AutoHandler = Some (CRDExists (rd_KindFor deps) (rd_IsNoMatch deps)
         \<lparr>gvr_Group = gv_Group SchemeGroupVersion, gvr_Version = gv_Version SchemeGroupVersion,
          gvr_Resource = ''kongfile''\<rparr>),
       Controller = SetupWithManager (rd_NewPredicateFuncs deps) (rd_Complete deps) (ControllerClassName c)\<rparr>]"

section \<open>run.go\<close>

text \<open>The mode found in the root document, only logged by \<^verbatim>\<open>Run\<close>.\<close>

definition root_dbmode :: "(string \<Rightarrow> dyn option) \<Rightarrow> error + string" where
  "root_dbmode kongRoot =
     (case dyn_index kongRoot ''configuration'' of
        DMap kongRootConfig \<Rightarrow>
          (case dyn_index kongRootConfig ''database'' of
             DString dbmode0 \<Rightarrow> Inr dbmode0
           | other \<Rightarrow> Inl (Errorf ''invalid database configuration, expected a string got %T'' [dyn_type other]))
      | _ \<Rightarrow> Inl (Errorf ''invalid root configuration, expected a map[string]interface{} got %T''
               [dyn_type (dyn_index kongRoot ''developer'')]))"

fun setup_each :: "'w ControllerDef list \<Rightarrow> ('f, 'pool, 'cert, 'w, 'reg) run_state \<Rightarrow>
    (unit, ('f, 'pool, 'cert, 'w, 'reg) run_state) step" where
  "setup_each [] s = Ok () s"
| "setup_each (c # cs) s =
     and_then (wrap_error (Wrapf ''unable to create controller %q: %w'' [''*developer.KongFileReconciler''])
         (world_call (MaybeSetupWithManager c) s))
       (\<lambda>_ s'. setup_each cs s')"

text \<open>The readiness check installed in the manager.\<close>

definition readyz :: "('c, 'v) CachedProxyResolver \<Rightarrow> error option" where
  "readyz p = (if \<not> IsReady p then Some (Errorf ''proxy not yet configured'' []) else None)"

text \<open>The last part of \<^verbatim>\<open>Run\<close>, from the creation of the manager to its start; the value is the proxy the
  manager runs with.\<close>

definition Run_manager :: "'c cache_Store \<Rightarrow> ('f, 'pool, 'cert, 'w, 'v, 'reg) run_deps \<Rightarrow> rest_Config \<Rightarrow>
    ctrl_Options \<Rightarrow> 'v Kong \<Rightarrow> ('f, 'pool, 'cert, 'w, 'reg) run_state \<Rightarrow>
    (('c, 'v) CachedProxyResolver, ('f, 'pool, 'cert, 'w, 'reg) run_state) step" where
  "Run_manager S deps kubeconfig controllerOpts kongConfig0 s2 =
     and_then (wrap_error (Wrapf ''unable to start controller manager: %w'' [])
         (world_call (rd_NewManager deps kubeconfig controllerOpts) s2)) (\<lambda>_ s3.
     and_then (setupAdmissionServer deps s3) (\<lambda>_ s4.
     and_then (wrap_error (Wrapf ''unable to initialize proxy cache server: %w'' [])
         (setupProxyServer S deps kongConfig0 s4)) (\<lambda>proxy s5.
     and_then (setup_each (setupControllers deps (rs_config s5)) s5) (\<lambda>_ s6.
     and_then (wrap_error (Wrapf ''unable to setup healthz: %w'' []) (world_call (rd_AddHealthzCheck deps) s6)) (\<lambda>_ s7.
     and_then (wrap_error (Wrapf ''unable to setup readyz: %w'' []) (world_call (rd_AddReadyzCheck deps) s7)) (\<lambda>_ s8.
     Ok proxy s8))))))"

text \<open>The middle part: what Kong says of itself, and the options of the manager.\<close>

definition Run_connected :: "'c cache_Store \<Rightarrow> ('f, 'pool, 'cert, 'w, 'v, 'reg) run_deps \<Rightarrow> rest_Config \<Rightarrow>
    'v Kong \<Rightarrow> ('f, 'pool, 'cert, 'w, 'reg) run_state \<Rightarrow>
    (('c, 'v) CachedProxyResolver \<times> ctrl_Options, ('f, 'pool, 'cert, 'w, 'reg) run_state) step" where
  "Run_connected S deps kubeconfig kongConfig0 s1 =
     (case rd_Root deps (rs_world s1) of
        (Inl err, w) \<Rightarrow> Fail (Wrapf ''could not retrieve Kong admin root: %w'' [] err) (s1\<lparr>rs_world := w\<rparr>)
      | (Inr kongRoot, w) \<Rightarrow>
          (let s2 = s1\<lparr>rs_world := w\<rparr> in
           case root_dbmode kongRoot of
             Inl err \<Rightarrow> Fail err s2
           | Inr _ \<Rightarrow>
               (case setupControllerOptions (rs_config s2) of
                  Inl err \<Rightarrow> Fail (Wrapf ''unable to setup controller options: %w'' [] err) s2
                | Inr controllerOpts \<Rightarrow>
                    and_then (Run_manager S deps kubeconfig controllerOpts kongConfig0 s2)
                      (\<lambda>proxy s8. Ok (proxy, controllerOpts) s8))))"

text \<open>The first part: the configuration, and the clients.\<close>

definition Run_setup :: "'c cache_Store \<Rightarrow> ('f, 'pool, 'cert, 'w, 'v, 'reg) run_deps \<Rightarrow>
    ('f, 'pool, 'cert, 'w, 'reg) run_state \<Rightarrow>
    (('c, 'v) CachedProxyResolver \<times> ctrl_Options, ('f, 'pool, 'cert, 'w, 'reg) run_state) step" where
  "Run_setup S deps s0 =
     (let c = rs_config s0 in
      case setupLoggers c of
        Inl err \<Rightarrow> Fail err s0
      | Inr _ \<Rightarrow>
          (if rd_scheme deps \<noteq> None then Panics ''adding to the scheme failed''
           else
             (case GetKubeconfig (rd_BuildConfig deps) c of
                Inl err \<Rightarrow> Fail (Wrapf ''get kubeconfig from file %q: %w'' [KubeconfigPath c] err) s0
              | Inr kubeconfig \<Rightarrow>
                  and_then
                    (wrap_error (Wrapf ''unable to build the kong admin api developer: %w'' [])
                      (setupKongConfig deps s0))
                    (\<lambda>kongConfig0 s1. Run_connected S deps kubeconfig kongConfig0 s1))))"

definition Run :: "'c cache_Store \<Rightarrow> ('f, 'pool, 'cert, 'w, 'v, 'reg) run_deps \<Rightarrow>
    ('f, 'pool, 'cert, 'w, 'reg) run_state \<Rightarrow> (unit, ('f, 'pool, 'cert, 'w, 'reg) run_state) step" where
  "Run S deps s0 = and_then (Run_setup S deps s0) (\<lambda>_ s. world_call (rd_Start deps) s)"

section \<open>rootcmd\<close>

text \<open>With profiling on, the server listens in the background on the port.\<close>

definition StartDiagnosticsServer :: "string \<Rightarrow> ('f, 'pool, 'cert, 'w, 'reg) run_state \<Rightarrow>
    (bool, ('f, 'pool, 'cert, 'w, 'reg) run_state) step" where
  "StartDiagnosticsServer addr s =
     (let c = rs_config s in
      case MakeLogger (LogLevel c) (LogFormat c) of
        Inl err \<Rightarrow> Fail err s
      | Inr _ \<Rightarrow>
          (if \<not> EnableProfiling c then Ok False s
           else Ok True (s\<lparr>rs_servers := addr # rs_servers s\<rparr>)))"

definition rootcmd_Run :: "'c cache_Store \<Rightarrow> ('f, 'pool, 'cert, 'w, 'v, 'reg) run_deps \<Rightarrow>
    ('f, 'pool, 'cert, 'w, 'reg) run_state \<Rightarrow> (unit, ('f, 'pool, 'cert, 'w, 'reg) run_state) step" where
  "rootcmd_Run S deps s =
     and_then (wrap_error (Wrapf ''failed to start diagnostics server: %w'' []) (StartDiagnosticsServer '':10256'' s))
       (\<lambda>_ s'. Run S deps s')"

section \<open>Lemmas\<close>

lemma GetKongClient_config:
  assumes "GetKongClient lib api c (g, locked, w) = Done (res, c', env')"
  shows "\<exists>opts. c' = c\<lparr>KongAdminAPIConfig := opts\<rparr>"
  using assms
  by (auto simp: Let_def opts_put_def simp del: GetKongClientForWorkspace.simps
      split: option.splits blocking.splits prod.splits if_splits)

lemma world_call_Ok: "world_call call s = Ok u t \<Longrightarrow> \<exists>w. t = s\<lparr>rs_world := w\<rparr>"
  by (auto simp: world_call_def split: prod.splits)

lemma setup_each_Ok: "setup_each cs s = Ok u t \<Longrightarrow> \<exists>w. t = s\<lparr>rs_world := w\<rparr>"
proof (induction cs arbitrary: s)
  case Nil
  then have "t = s\<lparr>rs_world := rs_world s\<rparr>" by simp
  then show ?case by blast
next
  case (Cons c cs)
  then obtain s' where "world_call (MaybeSetupWithManager c) s = Ok () s'" and "setup_each cs s' = Ok () t"
    by (auto simp: and_then_Ok_iff)
  with Cons.IH [of s'] world_call_Ok show ?case by fastforce
qed

lemma setupKongConfig_Ok:
  assumes "setupKongConfig deps s = Ok kong t"
  shows "\<exists>opts. rs_config t = (rs_config s)\<lparr>KongAdminAPIConfig := opts\<rparr>" and "rs_servers t = rs_servers s"
  using assms
  by (auto simp: setupKongConfig_def Let_def simp del: GetKongClient.simps dest!: GetKongClient_config
      split: blocking.splits prod.splits sum.splits)

lemma setupProxyServer_Ok:
  assumes "setupProxyServer S deps kong s = Ok p t"
  shows "resolver_ok p \<and> store p = NewCacheStores S \<and> controllerClassName p = ControllerClassName (rs_config s)"
    and "rs_config t = rs_config s" and "rs_servers t = rs_servers s"
  using assms
  by (auto simp: setupProxyServer_def and_then_Ok_iff
      dest!: world_call_Ok constructed_resolver split: sum.splits outcome.splits prod.splits)

lemma setupAdmissionServer_Ok:
  assumes "setupAdmissionServer deps s = Ok u t"
  shows "rs_config t = rs_config s" and "rs_servers t = ListenAddr (AdmissionServer (rs_config s)) # rs_servers s"
    and "\<exists>tls. toTLSConfig (ReadFile (rd_tls deps)) (X509KeyPair (rd_tls deps)) (AdmissionServer (rs_config s)) = Inr tls"
  using assms
  by (auto simp: setupAdmissionServer_def Let_def MakeTLSServer_def split: sum.splits)

lemma setupControllerOptions_leader:
  "setupControllerOptions c = Inr opts \<Longrightarrow> co_LeaderElection opts"
  by (auto simp: setupControllerOptions_def Let_def split: if_splits)

text \<open>The set-up has no use for the manager's start.\<close>

lemma rd_Start_only:
  "rd_tls (deps\<lparr>rd_Start := start\<rparr>) = rd_tls deps"
  "rd_api (deps\<lparr>rd_Start := start\<rparr>) = rd_api deps"
  "rd_init (deps\<lparr>rd_Start := start\<rparr>) = rd_init deps"
  "rd_zero_version (deps\<lparr>rd_Start := start\<rparr>) = rd_zero_version deps"
  "rd_scheme (deps\<lparr>rd_Start := start\<rparr>) = rd_scheme deps"
  "rd_BuildConfig (deps\<lparr>rd_Start := start\<rparr>) = rd_BuildConfig deps"
  "rd_Root (deps\<lparr>rd_Start := start\<rparr>) = rd_Root deps"
  "rd_Timeout (deps\<lparr>rd_Start := start\<rparr>) = rd_Timeout deps"
  "rd_NewManager (deps\<lparr>rd_Start := start\<rparr>) = rd_NewManager deps"
  "rd_Add (deps\<lparr>rd_Start := start\<rparr>) = rd_Add deps"
  "rd_KindFor (deps\<lparr>rd_Start := start\<rparr>) = rd_KindFor deps"
  "rd_IsNoMatch (deps\<lparr>rd_Start := start\<rparr>) = rd_IsNoMatch deps"
  "rd_NewPredicateFuncs (deps\<lparr>rd_Start := start\<rparr>) = rd_NewPredicateFuncs deps"
  "rd_Complete (deps\<lparr>rd_Start := start\<rparr>) = rd_Complete deps"
  "rd_AddHealthzCheck (deps\<lparr>rd_Start := start\<rparr>) = rd_AddHealthzCheck deps"
  "rd_AddReadyzCheck (deps\<lparr>rd_Start := start\<rparr>) = rd_AddReadyzCheck deps"
  by simp_all

lemma setups_without_start:
  "setupKongConfig (deps\<lparr>rd_Start := start\<rparr>) = setupKongConfig deps"
  "setupAdmissionServer (deps\<lparr>rd_Start := start\<rparr>) = setupAdmissionServer deps"
  "setupProxyServer S (deps\<lparr>rd_Start := start\<rparr>) = setupProxyServer S deps"
  "setupControllers (deps\<lparr>rd_Start := start\<rparr>) = setupControllers deps"
  unfolding fun_eq_iff setupKongConfig_def setupAdmissionServer_def setupProxyServer_def setupControllers_def
    rd_Start_only by (rule allI refl)+

lemma Run_setup_without_start: "Run_setup S (deps\<lparr>rd_Start := start\<rparr>) s0 = Run_setup S deps s0"
  unfolding Run_setup_def Run_connected_def Run_manager_def setups_without_start rd_Start_only by (rule refl)

text \<open>No server is started by a step that fails.\<close>

lemma world_call_Fail: "world_call call s = Fail e t \<Longrightarrow> rs_servers t = rs_servers s"
  by (auto simp: world_call_def check_error_def split: prod.splits option.splits)

lemma setupAdmissionServer_Fail: "setupAdmissionServer deps s = Fail e t \<Longrightarrow> t = s"
  by (auto simp: setupAdmissionServer_def Let_def split: sum.splits)

lemma setupKongConfig_Fail: "setupKongConfig deps s = Fail e t \<Longrightarrow> rs_servers t = rs_servers s"
  by (auto simp: setupKongConfig_def Let_def simp del: GetKongClient.simps
      split: blocking.splits prod.splits sum.splits)

text \<open>What a successful set-up went through.\<close>

lemma Run_manager_Ok:
  assumes "Run_manager S deps kubeconfig opts kong s = Ok p t"
  shows "resolver_ok p \<and> store p = NewCacheStores S \<and> controllerClassName p = ControllerClassName (rs_config s)"
    and "rs_servers t = ListenAddr (AdmissionServer (rs_config s)) # rs_servers s"
    and "\<exists>tls. toTLSConfig (ReadFile (rd_tls deps)) (X509KeyPair (rd_tls deps)) (AdmissionServer (rs_config s)) = Inr tls"
    and "rs_config t = rs_config s"
proof -
  obtain s3 s4 s5 s6 s7 where s3: "world_call (rd_NewManager deps kubeconfig opts) s = Ok () s3"
    and s4: "setupAdmissionServer deps s3 = Ok () s4" and s5: "setupProxyServer S deps kong s4 = Ok p s5"
    and s6: "setup_each (setupControllers deps (rs_config s5)) s5 = Ok () s6"
    and s7: "world_call (rd_AddHealthzCheck deps) s6 = Ok () s7"
    and t: "world_call (rd_AddReadyzCheck deps) s7 = Ok () t"
    using assms by (auto simp: Run_manager_def and_then_Ok_iff simp del: setup_each.simps)
  have same: "rs_config s3 = rs_config s" "rs_servers s3 = rs_servers s" "rs_servers t = rs_servers s5"
      "rs_config t = rs_config s5"
    using world_call_Ok [OF s3] setup_each_Ok [OF s6] world_call_Ok [OF s7] world_call_Ok [OF t] by auto
  show "resolver_ok p \<and> store p = NewCacheStores S \<and> controllerClassName p = ControllerClassName (rs_config s)"
    and "rs_servers t = ListenAddr (AdmissionServer (rs_config s)) # rs_servers s"
    and "\<exists>tls. toTLSConfig (ReadFile (rd_tls deps)) (X509KeyPair (rd_tls deps)) (AdmissionServer (rs_config s)) = Inr tls"
    and "rs_config t = rs_config s"
    using same setupAdmissionServer_Ok [OF s4] setupProxyServer_Ok [OF s5] by simp_all
qed

lemma Run_setup_Ok:
  assumes "Run_setup S deps s0 = Ok (p, opts) t"
  shows "resolver_ok p \<and> store p = NewCacheStores S \<and> controllerClassName p = ControllerClassName (rs_config s0)"
    and "co_LeaderElection opts"
    and "rs_servers t = ListenAddr (AdmissionServer (rs_config s0)) # rs_servers s0"
    and "\<exists>tls. toTLSConfig (ReadFile (rd_tls deps)) (X509KeyPair (rd_tls deps)) (AdmissionServer (rs_config s0)) = Inr tls"
    and "ControllerClassName (rs_config t) = ControllerClassName (rs_config s0)"
proof -
  obtain kubeconfig kong s1 where kong: "setupKongConfig deps s0 = Ok kong s1"
    and conn: "Run_connected S deps kubeconfig kong s1 = Ok (p, opts) t"
    using assms by (auto simp: Run_setup_def Let_def and_then_Ok_iff split: sum.splits if_splits)
  obtain w where opts: "setupControllerOptions (rs_config s1) = Inr opts"
    and mgr: "Run_manager S deps kubeconfig opts kong (s1\<lparr>rs_world := w\<rparr>) = Ok p t"
    using conn by (auto simp: Run_connected_def Let_def and_then_Ok_iff split: sum.splits prod.splits)
  obtain o' where "rs_config s1 = (rs_config s0)\<lparr>KongAdminAPIConfig := o'\<rparr>" and "rs_servers s1 = rs_servers s0"
    using setupKongConfig_Ok [OF kong] by blast
  with Run_manager_Ok [OF mgr]
  show "resolver_ok p \<and> store p = NewCacheStores S \<and> controllerClassName p = ControllerClassName (rs_config s0)"
    and "rs_servers t = ListenAddr (AdmissionServer (rs_config s0)) # rs_servers s0"
    and "\<exists>tls. toTLSConfig (ReadFile (rd_tls deps)) (X509KeyPair (rd_tls deps)) (AdmissionServer (rs_config s0)) = Inr tls"
    and "ControllerClassName (rs_config t) = ControllerClassName (rs_config s0)"
    by simp_all
  show "co_LeaderElection opts" by (rule setupControllerOptions_leader [OF opts])
qed

text \<open>When the webhook cannot be given a certificate, the set-up ends before any server is started.\<close>

lemma Run_manager_no_certificate:
  assumes "\<And>s u t. rs_config s = rs_config s2 \<Longrightarrow> setupAdmissionServer deps s \<noteq> Ok u t"
    and "Run_manager S deps kubeconfig opts kong s2 = Fail e t"
  shows "rs_servers t = rs_servers s2"
proof -
  from assms(2) consider e' where "world_call (rd_NewManager deps kubeconfig opts) s2 = Fail e' t"
    | s3 where "world_call (rd_NewManager deps kubeconfig opts) s2 = Ok () s3" "setupAdmissionServer deps s3 = Fail e t"
    | s3 s4 where "world_call (rd_NewManager deps kubeconfig opts) s2 = Ok () s3" "setupAdmissionServer deps s3 = Ok () s4"
    unfolding Run_manager_def and_then_Fail_iff [where f = "\<lambda>_ s3. and_then (setupAdmissionServer deps s3) (F s3)" for F]
    by (auto simp: and_then_Fail_iff wrap_error_Fail_iff)
  then show ?thesis
  proof cases
    case 1
    then show ?thesis by (rule world_call_Fail)
  next
    case 2
    then show ?thesis using world_call_Ok [OF 2(1)] setupAdmissionServer_Fail [OF 2(2)] by auto
  next
    case 3
    then show ?thesis using world_call_Ok [OF 3(1)] assms(1) [of s3 "()" s4] by auto
  qed
qed

lemma Run_setup_no_certificate:
  assumes no_cert: "\<And>tls. toTLSConfig (ReadFile (rd_tls deps)) (X509KeyPair (rd_tls deps)) (AdmissionServer (rs_config s0)) \<noteq> Inr tls"
    and fail: "Run_setup S deps s0 = Fail e t"
  shows "rs_servers t = rs_servers s0"
proof (cases "\<exists>kong s1. setupKongConfig deps s0 = Ok kong s1")
  case False
  with fail show ?thesis
    by (auto simp: Run_setup_def Let_def and_then_Fail_iff wrap_error_Fail_iff dest: setupKongConfig_Fail
        split: sum.splits if_splits)
next
  case True
  then obtain kong s1 where kong: "setupKongConfig deps s0 = Ok kong s1" by blast
  obtain o' where s1: "rs_config s1 = (rs_config s0)\<lparr>KongAdminAPIConfig := o'\<rparr>" "rs_servers s1 = rs_servers s0"
    using setupKongConfig_Ok [OF kong] by blast
  from fail kong consider "t = s0" | kubeconfig where "Run_connected S deps kubeconfig kong s1 = Fail e t"
    by (auto simp: Run_setup_def Let_def and_then_Fail_iff wrap_error_Fail_iff split: sum.splits if_splits)
  then show ?thesis
  proof cases
    case 1
    then show ?thesis by simp
  next
    case 2
    then consider w where "t = s1\<lparr>rs_world := w\<rparr>"
      | opts w where "Run_manager S deps kubeconfig opts kong (s1\<lparr>rs_world := w\<rparr>) = Fail e t"
      by (auto simp: Run_connected_def Let_def and_then_Fail_iff split: sum.splits prod.splits)
    then show ?thesis
    proof cases
      case 1
      then show ?thesis using s1 by simp
    next
      case 2
      have "setupAdmissionServer deps s \<noteq> Ok u t" if "rs_config s = rs_config (s1\<lparr>rs_world := w\<rparr>)" for s u t
        using setupAdmissionServer_Ok(3) [of deps s u t] no_cert that s1(1) by auto
      from Run_manager_no_certificate [OF this 2] s1(2) show ?thesis by simp
    qed
  qed
qed

section \<open>A sample start\<close>

text \<open>A cluster and a Kong in which every call succeeds, with the certificate files of \<open>lib\<close> and the
  database mode \<open>mode\<close>.\<close>

definition sample_run :: "(string, string) tls_lib \<Rightarrow> string \<Rightarrow>
    (unit, string, string, mem_spaces, string, string list) run_deps" where
  "sample_run lib mode =
     \<lparr>rd_tls = lib, rd_api = mem_workspaces, rd_init = sample_deps mode, rd_zero_version = [],
      rd_scheme = None, rd_BuildConfig = (\<lambda>host path. Inr \<lparr>QPS = 0, Burst = 0\<rparr>),
      rd_Root = (\<lambda>w. (Inr (root_of mode), w)), rd_Timeout = (\<lambda>_. Inr 10000000000),
      rd_NewManager = (\<lambda>conf opts w. (None, w)), rd_Add = Pair None, rd_KindFor = (\<lambda>gvr w. None),
      rd_IsNoMatch = (\<lambda>e. e = External ''no match''), rd_NewPredicateFuncs = object_predicate,
      rd_Complete = (\<lambda>preds. Pair None),
      rd_AddHealthzCheck = Pair None, rd_AddReadyzCheck = Pair None, rd_Start = Pair None\<rparr>"

definition no_files :: "(string, string) tls_lib" where
  "no_files = \<lparr>ReadFile = (\<lambda>path. Inl (External ''no such file or directory'')), CertPool = Some,
     X509KeyPair = (\<lambda>cert key. Inr cert)\<rparr>"

definition sample_start :: "(unit, string, string, mem_spaces, string list) run_state" where
  "sample_start =
     \<lparr>rs_config = flag_defaults (), rs_http = \<lparr>DefaultTransport_TLS = None, DefaultClient_Headers = None\<rparr>,
      rs_locked = False, rs_world = ([], []), rs_registry = [], rs_servers = []\<rparr>"

text \<open>The definitions that evaluate a start on the samples.\<close>

lemmas start_defs =
  Run_setup_def Run_connected_def Run_manager_def setupLoggers_def setupKongConfig_def GetKubeconfig_def
  SetupWithManager_def sample_run_def sample_start_def flag_defaults_def MakeHTTPClient_def root_pool_def
  read_client_pair_def client_certificates_def mem_workspaces_def MakeLogger_def getLogrusLevel_def
  logrusLevels_def getLogrusFormatter_def root_dbmode_def root_of_def dyn_index_def
  setupControllerOptions_def world_call_def check_error_def setupAdmissionServer_def MakeTLSServer_def
  toTLSConfig_def readKeyPairFiles_def no_files_def sample_tls_def setupProxyServer_def sample_init
  setupControllers_def MaybeSetupWithManager_def CRDExists_def Let_def

section \<open>Properties\<close>

text \<open>C37. With the default settings of the admission webhook, whose listen address is off, and
  without the default certificate file, Run never succeeds and never starts the manager (whatever the
  manager's start would do, the outcome is the same), and when it returns its error no server has been
  started: the documented way to disable the webhook does not disable it.\<close>
theorem start_needs_webhook_certificate:
  assumes defaults: "AdmissionServer (rs_config s0) = AdmissionServer (flag_defaults timeout)"
    and no_file: "ReadFile (rd_tls deps) ''/admission-webhook/tls.crt'' = Inl err"
  shows "ListenAddr (AdmissionServer (rs_config s0)) = ''off'' \<and>
    (\<forall>u t. Run S deps s0 \<noteq> Ok u t) \<and>
    (\<forall>start. Run S (deps\<lparr>rd_Start := start\<rparr>) s0 = Run S deps s0) \<and>
    (\<forall>e t. Run S deps s0 = Fail e t \<longrightarrow> rs_servers t = rs_servers s0)"
proof (intro conjI allI impI)
  show "ListenAddr (AdmissionServer (rs_config s0)) = ''off''"
    by (simp add: defaults flag_defaults_def)
  have no_cert: "toTLSConfig (ReadFile (rd_tls deps)) (X509KeyPair (rd_tls deps)) (AdmissionServer (rs_config s0)) \<noteq> Inr tls"
    for tls
    by (simp add: defaults flag_defaults_def toTLSConfig_def readKeyPairFiles_def no_file
        DefaultAdmissionWebhookCertPath_def)
  then have never: "Run_setup S deps s0 \<noteq> Ok x t" for x t
    using Run_setup_Ok(4) [of S deps s0 "fst x" "snd x" t] by auto
  then show "Run S deps s0 \<noteq> Ok u t" for u t
    by (auto simp: Run_def and_then_Ok_iff)
  show "Run S (deps\<lparr>rd_Start := start\<rparr>) s0 = Run S deps s0" for start
    unfolding Run_def Run_setup_without_start by (rule and_then_not_Ok [OF never])
  show "rs_servers t = rs_servers s0" if "Run S deps s0 = Fail e t" for e t
    using that never by (intro Run_setup_no_certificate [OF no_cert]) (auto simp: Run_def and_then_Fail_iff)
qed

theorem start_needs_webhook_certificate_witness:
  "\<exists>e t. Run table_store (sample_run no_files ''postgres'') sample_start = Fail e t \<and> rs_servers t = [] \<and>
    Run table_store ((sample_run no_files ''postgres'')\<lparr>rd_Start := \<lambda>w. (None, ([], [''started'']))\<rparr>) sample_start = Fail e t"
proof -
  have d: "AdmissionServer (rs_config sample_start) = AdmissionServer (flag_defaults ())"
    by (simp add: sample_start_def)
  have f: "ReadFile (rd_tls (sample_run no_files ''postgres'')) ''/admission-webhook/tls.crt'' =
      Inl (External ''no such file or directory'')"
    by (simp add: sample_run_def no_files_def)
  note never = start_needs_webhook_certificate [OF d f, of table_store]
  have "(\<forall>m. Run table_store (sample_run no_files ''postgres'') sample_start \<noteq> Panics m) \<and>
      Run table_store (sample_run no_files ''postgres'') sample_start \<noteq> Hangs"
    by (simp add: Run_def start_defs)
  then obtain e t where r: "Run table_store (sample_run no_files ''postgres'') sample_start = Fail e t"
    using never by (cases "Run table_store (sample_run no_files ''postgres'') sample_start") auto
  have "rs_servers sample_start = []" by (simp add: sample_start_def)
  with r never show ?thesis by auto
qed

text \<open>C38. What every successful set-up of the manager has established: the webhook server is
  started on the configured address, whatever it is; leader election is on whatever the database; the
  proxy has an empty cache, the configured class and a consistent database mode; and the readiness
  check passes exactly when the mode is not off.\<close>
theorem successful_start:
  assumes "Run_setup S deps s0 = Ok (p, opts) t"
  shows "rs_servers t = ListenAddr (AdmissionServer (rs_config s0)) # rs_servers s0 \<and>
    co_LeaderElection opts \<and> store p = NewCacheStores S \<and>
    controllerClassName p = ControllerClassName (rs_config s0) \<and>
    in_memory_of (dbmode p) = Some (InMemory (kongConfig p)) \<and>
    (readyz p = None \<longleftrightarrow> dbmode p \<noteq> ''off'') \<and> (NeedLeaderElection p \<longleftrightarrow> dbmode p \<noteq> ''off'')"
  using Run_setup_Ok [OF assms]
  by (simp add: resolver_ok_def readyz_def IsReady_def NeedLeaderElection_def)

theorem successful_start_witness:
  "\<exists>p opts t. Run_setup table_store (sample_run sample_tls ''off'') sample_start = Ok (p, opts) t \<and>
    rs_servers t = [''off''] \<and> co_LeaderElection opts \<and> \<not> NeedLeaderElection p \<and> readyz p \<noteq> None"
proof -
  have "\<exists>p opts t. Run_setup table_store (sample_run sample_tls ''off'') sample_start = Ok (p, opts) t \<and> dbmode p = ''off''"
    by (simp add: start_defs)
  then obtain p opts t where run: "Run_setup table_store (sample_run sample_tls ''off'') sample_start = Ok (p, opts) t"
    and off: "dbmode p = ''off''" by blast
  have "ListenAddr (AdmissionServer (rs_config sample_start)) = ''off''" "rs_servers sample_start = []"
    by (simp_all add: sample_start_def flag_defaults_def)
  with successful_start [OF run] run off show ?thesis by auto
qed

text \<open>C31. Setting up the controllers registers nothing, without an error, when the API server
  does not know the kongfile resource; otherwise it registers one controller whose filter passes a
  created resource exactly when it carries the configured class and passes every update.\<close>
theorem controller_registration:
  assumes "filters_by_object (rd_NewPredicateFuncs deps)"
  shows "\<exists>preds. setup_each (setupControllers deps c) s =
      (if \<exists>err. rd_KindFor deps \<lparr>gvr_Group = ''developer.konghq.com'', gvr_Version = ''v1'', gvr_Resource = ''kongfile''\<rparr>
           (rs_world s) = Some err \<and> rd_IsNoMatch deps err then Ok () s
       else wrap_error (Wrapf ''unable to create controller %q: %w'' [''*developer.KongFileReconciler''])
         (world_call (rd_Complete deps preds) s)) \<and>
    (\<forall>m. CreateFunc preds m = MatchesControllerClassName m (ControllerClassName c)) \<and>
    (\<forall>old new. UpdateFunc preds old new)"
proof -
  let ?preds = "GeneratePredicateFuncsForControllerClassFilter (rd_NewPredicateFuncs deps) (ControllerClassName c) False True"
  let ?found = "CRDExists (rd_KindFor deps) (rd_IsNoMatch deps)
    \<lparr>gvr_Group = ''developer.konghq.com'', gvr_Version = ''v1'', gvr_Resource = ''kongfile''\<rparr> (rs_world s)"
  have "setup_each (setupControllers deps c) s =
      (if \<not> ?found then Ok () s
       else wrap_error (Wrapf ''unable to create controller %q: %w'' [''*developer.KongFileReconciler''])
         (world_call (rd_Complete deps ?preds) s))"
    by (cases "rd_Complete deps ?preds (rs_world s)")
      (auto simp: setupControllers_def MaybeSetupWithManager_def SchemeGroupVersion_def world_call_def
        SetupWithManager_def check_error_def split: option.split)
  moreover have "\<not> ?found \<longleftrightarrow> (\<exists>err. rd_KindFor deps \<lparr>gvr_Group = ''developer.konghq.com'', gvr_Version = ''v1'',
      gvr_Resource = ''kongfile''\<rparr> (rs_world s) = Some err \<and> rd_IsNoMatch deps err)"
    by (auto simp: CRDExists_def split: option.split)
  moreover have "CreateFunc ?preds m = MatchesControllerClassName m (ControllerClassName c)"
    and "UpdateFunc ?preds old new" for m old new
    using class_filter_events [OF assms refl, of "ControllerClassName c" False True] by simp_all
  ultimately show ?thesis
    by (intro exI [of _ ?preds]) (simp del: setup_each.simps)
qed

text \<open>A registration that reports the filter's answer for an update of a resource without annotations.\<close>

theorem controller_registration_witness:
  "setup_each (setupControllers ((sample_run sample_tls ''postgres'')
      \<lparr>rd_Complete := \<lambda>preds. Pair (if UpdateFunc preds (kf_Meta zero_KongFile) (kf_Meta zero_KongFile)
        then Some (External ''all updates pass'') else None)\<rparr>) (flag_defaults ())) sample_start =
    Fail (Wrapf ''unable to create controller %q: %w'' [''*developer.KongFileReconciler'']
      (External ''all updates pass'')) sample_start"
proof -
  let ?deps = "(sample_run sample_tls ''postgres'')
      \<lparr>rd_Complete := \<lambda>preds. Pair (if UpdateFunc preds (kf_Meta zero_KongFile) (kf_Meta zero_KongFile)
        then Some (External ''all updates pass'') else None)\<rparr>"
  have "filters_by_object (rd_NewPredicateFuncs ?deps)"
    by (simp add: sample_run_def filters_by_object_predicate)
  from controller_registration [OF this, of "flag_defaults ()" sample_start] show ?thesis
    by (auto simp: sample_run_def world_call_def check_error_def simp del: setup_each.simps)
qed

end
