(* ===== verification/Root_Command.thy ===== *)
theory Root_Command
  imports Manager_Run
begin

text \<open>
  The command of the program: \<^verbatim>\<open>internal/cmd/rootcmd/rootcmd.go\<close> and \<^verbatim>\<open>internal/cmd/main.go\<close>. The
  command is a record of its two hooks. cobra runs it: it parses the flags into the configuration, and
  then calls the hooks in their order; that contract is the locale \<open>cobra\<close>.

  The properties compose the parts: what is on the command line and in the environment decides
  what the manager runs with, and a value that cannot be bound keeps anything from being started.
\<close>

section \<open>The command\<close>

record 's Command =
  PersistentPreRunE :: "(string \<Rightarrow> bool) \<Rightarrow> 's \<Rightarrow> (unit, 's) step" \<comment> \<open>given which flags were set\<close>
  RunE :: "'s \<Rightarrow> (unit, 's) step"
  SilenceUsage :: bool

text \<open>The package variable \<^verbatim>\<open>rootCmd\<close>; \<^verbatim>\<open>init\<close> adds the flags of the configuration to it, which
  \<^verbatim>\<open>bindEnvVars\<close> visits.\<close>

definition rootCmd :: "(string \<Rightarrow> string option) \<Rightarrow> 'f parsers \<Rightarrow> 'c cache_Store \<Rightarrow>
    ('f, 'pool, 'cert, 'w, 'v, 'reg) run_deps \<Rightarrow> ('f, 'pool, 'cert, 'w, 'reg) run_state Command" where
  "rootCmd lookupEnv P S deps =
     \<lparr>PersistentPreRunE = (\<lambda>changed s.
        case bindEnvVars lookupEnv P changed command_flags (rs_config s) of
          (err, c) \<Rightarrow> check_error err (s\<lparr>rs_config := c\<rparr>)),
      RunE = rootcmd_Run S deps,
      SilenceUsage = True\<rparr>"

text \<open>How a process ends: \<^verbatim>\<open>CheckErr\<close> exits with 1 on an error, a panic of the runtime with 2.\<close>

datatype 's ending =
    Exited int 's
  | Crashed
  | Waits

definition Execute :: "('s Command \<Rightarrow> string list \<Rightarrow> 's \<Rightarrow> (unit, 's) step) \<Rightarrow> 's Command \<Rightarrow> string list \<Rightarrow> 's \<Rightarrow> 's ending" where
  "Execute ExecuteContext cmd args s =
     (case ExecuteContext cmd args s of
        Ok u t \<Rightarrow> Exited 0 t
      | Fail e t \<Rightarrow> Exited 1 t
      | Panics m \<Rightarrow> Crashed
      | Hangs \<Rightarrow> Waits)"

section \<open>cobra\<close>

text \<open>What the parser makes of the arguments: an error, a request for help, or the state with the values
  written and the set of flags that were given.\<close>

datatype 's parsed_args =
    BadArgs error
  | WantsHelp
  | Parsed "string \<Rightarrow> bool" 's

locale cobra =
  fixes ExecuteContext :: "'s Command \<Rightarrow> string list \<Rightarrow> 's \<Rightarrow> (unit, 's) step"
    and parse :: "string list \<Rightarrow> 's \<Rightarrow> 's parsed_args"
  assumes bad_args: "parse args s = BadArgs e \<Longrightarrow> ExecuteContext cmd args s = Fail e s"
    and wants_help: "parse args s = WantsHelp \<Longrightarrow> ExecuteContext cmd args s = Ok () s"
    and hooks_run: "parse args s = Parsed changed s1 \<Longrightarrow>
      ExecuteContext cmd args s = and_then (PersistentPreRunE cmd changed s1) (\<lambda>_ s2. RunE cmd s2)"
begin

lemma pre_run_fails:
  assumes "parse args s = Parsed changed s1" and "PersistentPreRunE cmd changed s1 = Fail e s2"
  shows "ExecuteContext cmd args s = Fail e s2"
  using hooks_run [OF assms(1), of cmd] by (simp add: assms(2))

lemma pre_run_succeeds:
  assumes "parse args s = Parsed changed s1" and "PersistentPreRunE cmd changed s1 = Ok () s2"
  shows "ExecuteContext cmd args s = RunE cmd s2"
  using hooks_run [OF assms(1), of cmd] by (simp add: assms(2))

end

lemma rootCmd_sel [simp]:
  "PersistentPreRunE (rootCmd lookupEnv P S deps) changed s =
    (case bindEnvVars lookupEnv P changed command_flags (rs_config s) of (err, c) \<Rightarrow> check_error err (s\<lparr>rs_config := c\<rparr>))"
  "RunE (rootCmd lookupEnv P S deps) = rootcmd_Run S deps"
  by (simp_all add: rootCmd_def)

lemma StartDiagnosticsServer_Ok:
  "StartDiagnosticsServer addr s = Ok b t \<Longrightarrow> rs_config t = rs_config s"
  by (auto simp: StartDiagnosticsServer_def Let_def split: sum.splits if_splits)

text \<open>A run that returns has set the manager up with the class of its configuration.\<close>

lemma rootcmd_Run_Ok:
  assumes "rootcmd_Run S deps s = Ok () t"
  obtains b s1 p opts s2 where "StartDiagnosticsServer '':10256'' s = Ok b s1"
    and "Run_setup S deps s1 = Ok (p, opts) s2" and "world_call (rd_Start deps) s2 = Ok () t"
    and "controllerClassName p = ControllerClassName (rs_config s)"
    and "ControllerClassName (rs_config s2) = ControllerClassName (rs_config s)"
proof -
  from assms obtain b s1 where d: "StartDiagnosticsServer '':10256'' s = Ok b s1" and run: "Run S deps s1 = Ok () t"
    by (auto simp: rootcmd_Run_def and_then_Ok_iff)
  from run obtain p opts s2 where prepared: "Run_setup S deps s1 = Ok (p, opts) s2"
    and start: "world_call (rd_Start deps) s2 = Ok () t"
    by (auto simp: Run_def and_then_Ok_iff)
  show ?thesis
    by (rule that [OF d prepared start])
      (use Run_setup_Ok(1,5) [OF prepared] StartDiagnosticsServer_Ok [OF d] in simp_all)
qed

section \<open>A sample command line\<close>

text \<open>One argument, the class.\<close>

fun sample_parse :: "string list \<Rightarrow> (unit, string, string, mem_spaces, string list) run_state \<Rightarrow>
    (unit, string, string, mem_spaces, string list) run_state parsed_args" where
  "sample_parse [] s = Parsed (\<lambda>_. False) s"
| "sample_parse [v] s =
     (if v = ''--help'' then WantsHelp
      else Parsed (\<lambda>name. name = ''controller-class'') (s\<lparr>rs_config := (rs_config s)\<lparr>ControllerClassName := v\<rparr>\<rparr>))"
| "sample_parse (_ # _ # _) s = BadArgs (External ''too many arguments'')"

definition sample_execute :: "(unit, string, string, mem_spaces, string list) run_state Command \<Rightarrow> string list \<Rightarrow>
    (unit, string, string, mem_spaces, string list) run_state \<Rightarrow>
    (unit, (unit, string, string, mem_spaces, string list) run_state) step" where
  "sample_execute cmd args s =
     (case sample_parse args s of
        BadArgs e \<Rightarrow> Fail e s
      | WantsHelp \<Rightarrow> Ok () s
      | Parsed changed s1 \<Rightarrow> and_then (PersistentPreRunE cmd changed s1) (\<lambda>_ s2. RunE cmd s2))"

interpretation sample_cobra: cobra sample_execute sample_parse
  by unfold_locales (simp_all add: sample_execute_def)

text \<open>With no variable for a flag that was not given, binding changes nothing.\<close>

lemma visit_flags_unset:
  "list_all (\<lambda>flag. changed (fst flag) \<or> lookupEnv (env_key (fst flag)) = None) flags \<Longrightarrow>
    visit_flags lookupEnv P changed flags c = (None, c)"
  by (induction lookupEnv P changed flags c rule: visit_flags.induct) (auto simp: Let_def)

lemma bindEnvVars_unset:
  assumes "\<And>name. name \<in> fst ` set flags \<Longrightarrow> changed name \<or> lookupEnv (env_key name) = None"
  shows "bindEnvVars lookupEnv P changed flags c = (None, c)"
  using visit_flags_unset [of changed lookupEnv "sort_key fst flags" P c] assms
  by (simp add: bindEnvVars_def list_all_iff)

lemma env_key_inj:
  assumes "name \<in> fst ` set (command_flags :: (string \<times> 'f setter) list)"
    and "name' \<in> fst ` set (command_flags :: (string \<times> 'f setter) list)" and "env_key name = env_key name'"
  shows "name = name'"
  using flags_have_distinct_variables [THEN conjunct1] assms
  by (metis distinct_map inj_onD list.set_map)

lemma class_flag: "''controller-class'' \<in> fst ` set (command_flags :: (string \<times> 'f setter) list)"
  by (simp add: command_flags_def FlagSet_def)

lemma sample_unset:
  "bindEnvVars [env_key ''controller-class'' \<mapsto> v] P (\<lambda>name. name = ''controller-class'') command_flags c = (None, c)"
  by (rule bindEnvVars_unset) (use env_key_inj [OF _ class_flag] in auto)

section \<open>Properties\<close>

text \<open>C35. When the environment has a value for a flag that was not given and that the flag
  cannot parse, the program exits with status 1 and nothing but the configuration has been touched: no
  server is started, no call is made to Kong or to the API server.\<close>
theorem unbindable_environment_starts_nothing:
  assumes cobra: "cobra ExecuteContext parse" and parsed: "parse args s = Parsed changed s1"
    and flag: "(name, set_value) \<in> set command_flags" "\<not> changed name"
    and env: "lookupEnv (env_key name) = Some v" "\<not> takes_value P set_value v"
  shows "\<exists>c. Execute ExecuteContext (rootCmd lookupEnv P S deps) args s = Exited 1 (s1\<lparr>rs_config := c\<rparr>)"
proof -
  have "\<not> env_fits lookupEnv P changed (name, set_value)"
    using flag(2) env by (simp add: env_fits_def)
  with flag(1) have "\<not> list_all (env_fits lookupEnv P changed) command_flags"
    by (auto simp: list_all_iff)
  then obtain e c where "bindEnvVars lookupEnv P changed command_flags (rs_config s1) = (Some e, c)"
    using bindEnvVars_ok_iff [OF command_flags_uniform, of lookupEnv P changed "rs_config s1"]
    by (cases "bindEnvVars lookupEnv P changed command_flags (rs_config s1)") auto
  then have "ExecuteContext (rootCmd lookupEnv P S deps) args s = Fail e (s1\<lparr>rs_config := c\<rparr>)"
    by (intro cobra.pre_run_fails [OF cobra parsed]) (simp add: check_error_def)
  then show ?thesis by (auto simp: Execute_def)
qed

text \<open>A switch with a value that is no boolean.\<close>

theorem unbindable_environment_starts_nothing_witness:
  "\<exists>c. Execute sample_execute (rootCmd [''CONTROLLER_PROFILING'' \<mapsto> ''maybe''] sample_parsers table_store
      (sample_run sample_tls ''postgres'')) [] sample_start = Exited 1 (sample_start\<lparr>rs_config := c\<rparr>)"
proof (rule unbindable_environment_starts_nothing [OF sample_cobra.cobra_axioms])
  show "sample_parse [] sample_start = Parsed (\<lambda>_. False) sample_start" by simp
  show "(''profiling'', BoolVar (\<lambda>v c. c\<lparr>EnableProfiling := v\<rparr>)) \<in> set command_flags" by (simp add: command_flags_def FlagSet_def)
  have "env_key ''profiling'' = ''CONTROLLER_PROFILING''" by code_simp
  then show "[''CONTROLLER_PROFILING'' \<mapsto> ''maybe''] (env_key ''profiling'') = Some ''maybe''" by simp
  show "\<not> takes_value sample_parsers (BoolVar (\<lambda>v c. c\<lparr>EnableProfiling := v\<rparr>)) ''maybe''"
    by (simp add: takes_value_def BoolVar_def sample_parsers_def parsed_Inr)
qed simp

text \<open>C34. From the command line to the proxy: when the program, started with the defaults of
  its flags and with arguments that are not a request for help, ends with exit status 0, its run was
  the binding of the environment to the parsed configuration, the start of the diagnostics server, the
  set-up of the manager and the manager's start, and the set-up made a proxy whose class, like that of
  the configuration it leaves, is the value of the flag controller-class when it was given, else the
  value of the environment variable CONTROLLER_CONTROLLER_CLASS when that is set, else the default
  class. Of pflag it is assumed that it does not write the class when the flag is not given.\<close>
theorem command_line_decides_class:
  fixes s s1 t :: "('f, 'pool, 'cert, 'w, 'reg) run_state"
  assumes cobra: "cobra ExecuteContext parse" and defaults: "rs_config s = flag_defaults timeout"
    and parsed: "parse args s = Parsed changed s1"
    and kept: "\<not> changed ''controller-class'' \<Longrightarrow>
      ControllerClassName (rs_config s1) = ControllerClassName (rs_config s)"
    and ended: "Execute ExecuteContext (rootCmd lookupEnv P S deps) args s = Exited 0 t"
  shows "\<exists>c b s2 p opts s3.
    bindEnvVars lookupEnv P changed command_flags (rs_config s1) = (None, c) \<and>
    StartDiagnosticsServer '':10256'' (s1\<lparr>rs_config := c\<rparr>) = Ok b s2 \<and>
    Run_setup S deps s2 = Ok (p, opts) s3 \<and> world_call (rd_Start deps) s3 = Ok () t \<and>
    controllerClassName p =
      (if changed ''controller-class'' then ControllerClassName (rs_config s1)
       else case lookupEnv ''CONTROLLER_CONTROLLER_CLASS'' of
              None \<Rightarrow> DefaultControllerClass | Some v \<Rightarrow> v) \<and>
    ControllerClassName (rs_config s3) = controllerClassName p"
proof -
  obtain err c where b: "bindEnvVars lookupEnv P changed command_flags (rs_config s1) = (err, c)"
    by (cases "bindEnvVars lookupEnv P changed command_flags (rs_config s1)")
  from ended have ok: "ExecuteContext (rootCmd lookupEnv P S deps) args s = Ok () t"
    by (simp add: Execute_def split: step.splits)
  have none: "err = None"
  proof (rule ccontr)
    assume "err \<noteq> None"
    then obtain e where "err = Some e" by blast
    with b have "ExecuteContext (rootCmd lookupEnv P S deps) args s = Fail e (s1\<lparr>rs_config := c\<rparr>)"
      by (intro cobra.pre_run_fails [OF cobra parsed]) (simp add: check_error_def)
    with ok show False by simp
  qed
  note bound = b [unfolded none]
  have "ExecuteContext (rootCmd lookupEnv P S deps) args s = RunE (rootCmd lookupEnv P S deps) (s1\<lparr>rs_config := c\<rparr>)"
    by (rule cobra.pre_run_succeeds [OF cobra parsed]) (simp add: bound)
  with ok have run: "rootcmd_Run S deps (s1\<lparr>rs_config := c\<rparr>) = Ok () t" by simp
  obtain started s2 p opts s3 where steps: "StartDiagnosticsServer '':10256'' (s1\<lparr>rs_config := c\<rparr>) = Ok started s2"
    "Run_setup S deps s2 = Ok (p, opts) s3" "world_call (rd_Start deps) s3 = Ok () t"
    and "controllerClassName p = ControllerClassName (rs_config (s1\<lparr>rs_config := c\<rparr>))"
      "ControllerClassName (rs_config s3) = ControllerClassName (rs_config (s1\<lparr>rs_config := c\<rparr>))"
    by (rule rootcmd_Run_Ok [OF run])
  then have same_class: "controllerClassName p = ControllerClassName c" "ControllerClassName (rs_config s3) = ControllerClassName c"
    by simp_all
  have "ControllerClassName c = (if changed ''controller-class'' then ControllerClassName (rs_config s1)
      else case lookupEnv ''CONTROLLER_CONTROLLER_CLASS'' of
             None \<Rightarrow> DefaultControllerClass | Some v \<Rightarrow> v)"
    using class_from_flag_or_environment [OF bound] kept
    by (simp add: defaults flag_defaults_def split: option.split)
  then have "controllerClassName p = (if changed ''controller-class'' then ControllerClassName (rs_config s1)
      else case lookupEnv ''CONTROLLER_CONTROLLER_CLASS'' of
             None \<Rightarrow> DefaultControllerClass | Some v \<Rightarrow> v)"
    unfolding same_class(1) .
  with same_class bound steps show ?thesis by (intro exI conjI) (assumption | simp only:)+
qed

text \<open>The class given on the command line, with another one in the environment.\<close>

theorem command_line_decides_class_witness:
  "\<exists>t b s2 p opts s3. Execute sample_execute (rootCmd [''CONTROLLER_CONTROLLER_CLASS'' \<mapsto> ''public''] sample_parsers
      table_store (sample_run sample_tls ''postgres'')) [''internal''] sample_start = Exited 0 t \<and>
    StartDiagnosticsServer '':10256''
      (sample_start\<lparr>rs_config := (rs_config sample_start)\<lparr>ControllerClassName := ''internal''\<rparr>\<rparr>) = Ok b s2 \<and>
    Run_setup table_store (sample_run sample_tls ''postgres'') s2 = Ok (p, opts) s3 \<and>
    world_call (rd_Start (sample_run sample_tls ''postgres'')) s3 = Ok () t \<and>
    controllerClassName p = ''internal''"
proof -
  let ?deps = "sample_run sample_tls ''postgres''" and ?env = "[''CONTROLLER_CONTROLLER_CLASS'' \<mapsto> ''public'']"
  let ?changed = "\<lambda>name. name = ''controller-class''"
  define s1 where "s1 = sample_start\<lparr>rs_config := (rs_config sample_start)\<lparr>ControllerClassName := ''internal''\<rparr>\<rparr>"
  have parsed: "sample_parse [''internal''] sample_start = Parsed ?changed s1" by (simp add: s1_def)
  have defaults: "rs_config sample_start = flag_defaults ()" by (simp add: sample_start_def)
  have "env_key ''controller-class'' = ''CONTROLLER_CONTROLLER_CLASS''" by code_simp
  then have unset: "bindEnvVars ?env sample_parsers ?changed command_flags c = (None, c)" for c
    using sample_unset [of "''public''"] by simp
  have "\<exists>t. Execute sample_execute (rootCmd ?env sample_parsers table_store ?deps) [''internal''] sample_start = Exited 0 t"
    by (simp add: Execute_def sample_execute_def unset check_error_def
        rootcmd_Run_def StartDiagnosticsServer_def Run_def s1_def start_defs)
  then obtain t where ended: "Execute sample_execute (rootCmd ?env sample_parsers table_store ?deps) [''internal''] sample_start =
      Exited 0 t" ..
  have kept: "ControllerClassName (rs_config s1) = ControllerClassName (rs_config sample_start)"
    if "\<not> ?changed ''controller-class''"
    using that by simp
  from command_line_decides_class [OF sample_cobra.cobra_axioms defaults parsed kept ended] ended show ?thesis
    by (simp add: unset s1_def) blast
qed

end
