(* ===== verification/Diagnostics.thy ===== *)
theory Diagnostics
  imports Go_Prelude
begin

text \<open>
  The diagnostics server, \<^verbatim>\<open>internal/diagnostics/server.go\<close>: \<^verbatim>\<open>Listen\<close> and its goroutines as a step
  relation. Three processes run: \<^verbatim>\<open>Listen\<close> itself, waiting in its \<^verbatim>\<open>select\<close>; the goroutine around
  \<^verbatim>\<open>ListenAndServe\<close>, which sends an error on the unbuffered \<^verbatim>\<open>errChan\<close>; and \<^verbatim>\<open>receiveConfig\<close>, which
  waits for the context to end. The context, the listening socket and the result of \<^verbatim>\<open>Shutdown\<close> are the
  environment. The handlers are in the theory \<^verbatim>\<open>Diagnostics_Handlers\<close>.
\<close>

section \<open>States\<close>

text \<open>The goroutine of the HTTP server: serving; stopped by an error it is about to send; done after the
  send; done after a shutdown (\<^verbatim>\<open>http.ErrServerClosed\<close>).\<close>

datatype listener =
    Serving
  | Sending error
  | Sent
  | Closed

datatype waiter =
    Selecting
  | Returned "error option"

record diag =
  ctx_done :: bool
  server :: listener
  listen :: waiter
  receiver :: bool \<comment> \<open>\<^verbatim>\<open>receiveConfig\<close> still runs\<close>

definition diag_init :: "diag \<Rightarrow> bool" where
  "diag_init s \<longleftrightarrow> s = \<lparr>ctx_done = False, server = Serving, listen = Selecting, receiver = True\<rparr>"

section \<open>Steps\<close>

text \<open>Receiving from the unbuffered channel is one step of both sides. With the context done and an error
  waiting, \<^verbatim>\<open>select\<close> takes either case. Shutting down makes a running \<^verbatim>\<open>ListenAndServe\<close> return
  \<^verbatim>\<open>ErrServerClosed\<close>.\<close>

inductive diag_step :: "diag \<Rightarrow> diag \<Rightarrow> bool" where
  cancel: "diag_step s (s\<lparr>ctx_done := True\<rparr>)"
| serve_fails: "server s = Serving \<Longrightarrow> diag_step s (s\<lparr>server := Sending e\<rparr>)"
| select_done: "listen s = Selecting \<Longrightarrow> ctx_done s \<Longrightarrow>
    diag_step s (s\<lparr>listen := Returned shutdown_error,
      server := (if server s = Serving then Closed else server s)\<rparr>)"
| select_error: "listen s = Selecting \<Longrightarrow> server s = Sending e \<Longrightarrow>
    diag_step s (s\<lparr>listen := Returned (Some e), server := Sent\<rparr>)"
| receiver_ends: "ctx_done s \<Longrightarrow> diag_step s (s\<lparr>receiver := False\<rparr>)"

inductive_cases diag_stepE: "diag_step s t"

inductive_simps diag_step_simps: "diag_step \<lparr>ctx_done = d, server = v, listen = l, receiver = r\<rparr> t"

text \<open>\<^verbatim>\<open>Listen\<close> returns for a cancelled context or with the server's error, and not otherwise; the server's
  error is received only by a \<^verbatim>\<open>Listen\<close> that returns it.\<close>

definition diag_inv :: "diag \<Rightarrow> bool" where
  "diag_inv s \<longleftrightarrow>
     (\<forall>r. listen s = Returned r \<longrightarrow> ctx_done s \<or> (\<exists>e. r = Some e \<and> server s = Sent)) \<and>
     (server s = Sent \<longrightarrow> (\<exists>e. listen s = Returned (Some e))) \<and>
     (server s = Closed \<longrightarrow> ctx_done s \<and> (\<exists>r. listen s = Returned r)) \<and>
     (server s = Serving \<longrightarrow> listen s = Selecting) \<and>
     (\<not> receiver s \<longrightarrow> ctx_done s)"

lemma diag_inv_step: "diag_step s t \<Longrightarrow> diag_inv s \<Longrightarrow> diag_inv t"
proof (induction rule: diag_step.induct)
  case (select_done s shutdown_error)
  then show ?case by (cases "server s") (simp_all add: diag_inv_def)
qed (simp_all add: diag_inv_def)

interpretation diagnostics: invariant_system diag_init diag_step diag_inv
proof
  show "diag_inv s" if "diag_init s" for s
    using that by (simp add: diag_init_def diag_inv_def)
  show "diag_inv t" if "diag_inv s" and "diag_step s t" for s t
    using that(2,1) by (rule diag_inv_step)
qed

section \<open>Properties\<close>

lemma Listen_returns_for_a_reason:
  assumes "reach diag_init diag_step s" and "listen s = Returned r"
  shows "ctx_done s \<or> (\<exists>e. r = Some e \<and> server s = Sent)"
  using diagnostics.reach_inv [OF assms(1)] assms(2) by (simp add: diag_inv_def)

text \<open>A run: the server fails, and its error is received.\<close>

lemma failing_run:
  "reach diag_init diag_step \<lparr>ctx_done = False, server = Sending e, listen = Selecting, receiver = True\<rparr>"
  by (rule reach_step [where s = "\<lparr>ctx_done = False, server = Serving, listen = Selecting, receiver = True\<rparr>"],
      rule reach_init, simp add: diag_init_def) (simp add: diag_step_simps)

lemma Listen_returns_for_a_reason_witness:
  "\<exists>s e. reach diag_init diag_step s \<and> listen s = Returned (Some e) \<and> \<not> ctx_done s \<and> server s = Sent"
proof -
  let ?t = "\<lparr>ctx_done = False, server = Sent, listen = Returned (Some (External ''in use'')), receiver = True\<rparr>"
  have r: "reach diag_init diag_step ?t"
    by (rule reach_step [OF failing_run [of "External ''in use''"]]) (simp add: diag_step_simps)
  from Listen_returns_for_a_reason [OF r] have "server ?t = Sent" by simp
  with r show ?thesis by (intro exI conjI) auto
qed

text \<open>C39. Once Listen has returned while the goroutine of the HTTP server is waiting to send
  its error on the unbuffered channel, no continuation of the system ever receives it: the goroutine
  is blocked for good.\<close>
theorem cancelled_Listen_can_leak_the_server:
  assumes "diag_step\<^sup>*\<^sup>* s t" and "listen s = Returned r" and "server s = Sending e"
  shows "listen t = Returned r \<and> server t = Sending e"
  using assms by (induction rule: rtranclp_induct) (auto elim!: diag_stepE)

theorem cancelled_Listen_can_leak_the_server_witness:
  "\<exists>s. reach diag_init diag_step s \<and> listen s = Returned None \<and> server s = Sending (External ''in use'') \<and>
    (\<forall>t. diag_step\<^sup>*\<^sup>* s t \<longrightarrow> server t = Sending (External ''in use''))"
proof -
  let ?s = "\<lparr>ctx_done = True, server = Sending (External ''in use''), listen = Returned None, receiver = True\<rparr>"
  have "reach diag_init diag_step
      \<lparr>ctx_done = True, server = Sending (External ''in use''), listen = Selecting, receiver = True\<rparr>"
    by (rule reach_step [OF failing_run [of "External ''in use''"]]) (simp add: diag_step_simps)
  then have "reach diag_init diag_step ?s"
    by (rule reach_step) (auto simp: diag_step_simps)
  moreover have "server t = Sending (External ''in use'')" if "diag_step\<^sup>*\<^sup>* ?s t" for t
    using cancelled_Listen_can_leak_the_server [OF that, of None "External ''in use''"] by simp
  ultimately show ?thesis by (intro exI [of _ ?s]) simp
qed

end
