(* ===== verification/Diagnostics_Handlers.thy ===== *)
theory Diagnostics_Handlers
  imports Admission
begin

text \<open>
  The pages of the diagnostics server: the rest of \<^verbatim>\<open>internal/diagnostics/server.go\<close>. The multiplexer is
  \<^verbatim>\<open>net/http\<close>'s \<^verbatim>\<open>ServeMux\<close> of Go 1.17: a table from patterns to handlers, which refuses a pattern it
  has, and gives a request to the exact pattern, or else to the longest pattern that ends in a slash
  and is a prefix of the path. \<^verbatim>\<open>pprof\<close>'s handlers are named and not modelled.
\<close>

section \<open>The multiplexer\<close>

datatype page =
    RedirectTo string
  | Pprof_Index
  | Pprof_Cmdline
  | Pprof_Profile
  | Pprof_Symbol
  | Pprof_Trace

type_synonym ServeMux = "(string \<times> page) list"

definition HandleFunc :: "string \<Rightarrow> page \<Rightarrow> ServeMux \<Rightarrow> ServeMux outcome" where
  "HandleFunc pattern h mux =
     (if pattern = '''' then Panic ''http: invalid pattern''
      else if pattern \<in> set (map fst mux) then Panic (''http: multiple registrations for '' @ pattern)
      else Return ((pattern, h) # mux))"

fun HandleFuncs :: "(string \<times> page) list \<Rightarrow> ServeMux \<Rightarrow> ServeMux outcome" where
  "HandleFuncs [] mux = Return mux"
| "HandleFuncs ((pattern, h) # rest) mux =
     (case HandleFunc pattern h mux of
        Panic m \<Rightarrow> Panic m
      | Return mux' \<Rightarrow> HandleFuncs rest mux')"

text \<open>The longest pattern that ends in a slash and starts the path.\<close>

fun longest_subtree :: "ServeMux \<Rightarrow> string \<Rightarrow> (string \<times> page) option" where
  "longest_subtree [] path = None"
| "longest_subtree ((pattern, h) # rest) path =
     (let best = longest_subtree rest path in
      if last pattern = CHR ''/'' \<and> take (length pattern) path = pattern \<and>
         (case best of None \<Rightarrow> True | Some (p, _) \<Rightarrow> length p < length pattern)
      then Some (pattern, h) else best)"

definition mux_route :: "ServeMux \<Rightarrow> string \<Rightarrow> page option" where
  "mux_route mux path =
     (case map_of mux path of
        Some h \<Rightarrow> Some h
      | None \<Rightarrow> map_option snd (longest_subtree mux path))"

section \<open>The handlers\<close>

definition installProfilingHandlers :: "ServeMux \<Rightarrow> ServeMux outcome" where
  "installProfilingHandlers mux = HandleFuncs
     [(''/debug/pprof'', RedirectTo ''/debug/pprof/''),
      (''/debug/pprof/'', Pprof_Index),
      (''/debug/pprof/heap'', Pprof_Index),
      (''/debug/pprof/mutex'', Pprof_Index),
      (''/debug/pprof/goroutine'', Pprof_Index),
      (''/debug/pprof/threadcreate'', Pprof_Index),
      (''/debug/pprof/block'', Pprof_Index),
      (''/debug/pprof/cmdline'', Pprof_Cmdline),
      (''/debug/pprof/profile'', Pprof_Profile),
      (''/debug/pprof/symbol'', Pprof_Symbol),
      (''/debug/pprof/trace'', Pprof_Trace)] mux"

text \<open>The multiplexer \<^verbatim>\<open>Listen\<close> serves.\<close>

definition Listen_mux :: "bool \<Rightarrow> ServeMux outcome" where
  "Listen_mux profilingEnabled = (if profilingEnabled then installProfilingHandlers [] else Return [])"

definition StatusFound :: int where
  "StatusFound = 302"

text \<open>\<^verbatim>\<open>http.Redirect\<close> of the standard library, for a target without special characters and a response whose
  content type is not set: a GET gets a page with a link too, whose write's result is dropped.\<close>

definition http_Redirect :: "'w ResponseWriter \<Rightarrow> string \<Rightarrow> string \<Rightarrow> int \<Rightarrow> 'w \<Rightarrow> 'w" where
  "http_Redirect rw verb url code w =
     (let w1 = rw_SetHeader rw ''Location'' url w;
          w2 = (if verb \<in> {''GET'', ''HEAD''}
            then rw_SetHeader rw ''Content-Type'' ''text/html; charset=utf-8'' w1 else w1);
          w3 = rw_WriteHeader rw code w2
      in if verb = ''GET''
         then snd (rw_Write rw (''<a href='' @ [CHR 0x22] @ url @ [CHR 0x22] @ ''>Found</a>.'' @ NL @ NL) w3) else w3)"

definition redirectTo :: "string \<Rightarrow> 'w ResponseWriter \<Rightarrow> string \<Rightarrow> 'w \<Rightarrow> 'w" where
  "redirectTo url rw verb w = http_Redirect rw verb url StatusFound w"

text \<open>\<^verbatim>\<open>lastConfig\<close> holds the lock for reading while it encodes the configuration; the encoder writes only
  what it could marshal. The state is the number of readers beside the response. Dereferencing an absent
  configuration panics.\<close>

definition lastConfig :: "('conf \<Rightarrow> error + string) \<Rightarrow> 'conf option \<Rightarrow> 'w ResponseWriter \<Rightarrow> nat \<times> 'w \<Rightarrow>
    (nat \<times> 'w) outcome" where
  "lastConfig marshal config rw = (\<lambda>(readers, w).
     let w1 = rw_SetHeader rw ''Content-Type'' ''application/json'' w;
         locked = Suc readers
     in case config of
          None \<Rightarrow> Panic ''invalid memory address or nil pointer dereference''
        | Some c \<Rightarrow>
            (let (err, w2) = (case marshal c of Inl e \<Rightarrow> (Some e, w1) | Inr d \<Rightarrow> rw_Write rw (d @ NL) w1);
                 w3 = (if err \<noteq> None then rw_WriteHeader rw StatusInternalServerError w2 else w2)
             in Return (locked - 1, w3)))"

section \<open>Lemmas\<close>

lemma HandleFuncs_fresh:
  assumes "distinct (map fst hs)" and "'''' \<notin> set (map fst hs)" and "set (map fst hs) \<inter> set (map fst mux) = {}"
  shows "HandleFuncs hs mux = Return (rev hs @ mux)"
  using assms by (induction hs mux rule: HandleFuncs.induct) (auto simp: HandleFunc_def)

lemma longest_subtree_pattern:
  "longest_subtree mux path = Some (p, h) \<Longrightarrow> (p, h) \<in> set mux \<and> take (length p) path = p"
  by (induction mux path rule: longest_subtree.induct) (auto simp: Let_def split: if_splits option.splits)

text \<open>A request is never given to a pattern that does not start its path.\<close>

lemma mux_route_prefix:
  assumes "mux_route mux path = Some h"
  shows "\<exists>p. (p, h) \<in> set mux \<and> take (length p) path = p"
  using assms longest_subtree_pattern [of mux path]
  by (auto simp: mux_route_def dest: map_of_SomeD split: option.splits)

context response_writer
begin

lemma redirect_status:
  assumes "status w = None"
  shows "status (redirectTo url rw verb w) = Some StatusFound"
  using assms
  by (simp add: redirectTo_def http_Redirect_def Let_def set_header write_header write_status ok_unless_set_def)

lemma lastConfig_status:
  assumes "status w = None"
  shows "\<exists>w'. lastConfig marshal (Some c) rw (n, w) = Return (n, w') \<and>
    status w' = Some (case marshal c of Inl _ \<Rightarrow> StatusInternalServerError | Inr _ \<Rightarrow> StatusOK)"
proof (cases "marshal c")
  case (Inl e)
  then show ?thesis
    using assms by (simp add: lastConfig_def Let_def set_header write_header)
next
  case (Inr d)
  obtain err w' where w: "rw_Write rw (d @ NL) (rw_SetHeader rw ''Content-Type'' ''application/json'' w) = (err, w')"
    by fastforce
  from write_done [OF w] assms have "status w' = Some StatusOK" by (simp add: set_header ok_unless_set_def)
  then show ?thesis
    using Inr w by (cases err) (simp_all add: lastConfig_def Let_def write_header)
qed

end

section \<open>Properties\<close>

lemma profiling_mux:
  "Listen_mux True = Return
     [(''/debug/pprof/trace'', Pprof_Trace), (''/debug/pprof/symbol'', Pprof_Symbol),
      (''/debug/pprof/profile'', Pprof_Profile), (''/debug/pprof/cmdline'', Pprof_Cmdline),
      (''/debug/pprof/block'', Pprof_Index), (''/debug/pprof/threadcreate'', Pprof_Index),
      (''/debug/pprof/goroutine'', Pprof_Index), (''/debug/pprof/mutex'', Pprof_Index),
      (''/debug/pprof/heap'', Pprof_Index), (''/debug/pprof/'', Pprof_Index),
      (''/debug/pprof'', RedirectTo ''/debug/pprof/'')]"
  by (simp add: Listen_mux_def installProfilingHandlers_def HandleFuncs_fresh del: HandleFuncs.simps)

lemma profiling_routes:
  "\<exists>mux. Listen_mux enabled = Return mux \<and>
    mux_route mux path =
      (if \<not> enabled then None
       else if path = ''/debug/pprof'' then Some (RedirectTo ''/debug/pprof/'')
       else if path = ''/debug/pprof/cmdline'' then Some Pprof_Cmdline
       else if path = ''/debug/pprof/profile'' then Some Pprof_Profile
       else if path = ''/debug/pprof/symbol'' then Some Pprof_Symbol
       else if path = ''/debug/pprof/trace'' then Some Pprof_Trace
       else if take (length ''/debug/pprof/'') path = ''/debug/pprof/'' then Some Pprof_Index
       else None)"
proof (cases enabled)
  case True
  then show ?thesis
    by (simp add: profiling_mux mux_route_def)
next
  case False
  then show ?thesis by (simp add: Listen_mux_def mux_route_def)
qed

end
