(* ===== verification/Spec2Isabelle.thy ===== *)
theory Spec2Isabelle
  imports Deep_Copies Cache_Lock Controller_Draining Component_Properties Request_Bounds Root_Command Diagnostics Diagnostics_Handlers
begin

text \<open>
  A verification development for the Kong portal controller, a Kubernetes controller in Go that publishes
  \<^verbatim>\<open>KongFile\<close> resources as files of Kong's developer portal.

  \<^bold>\<open>The program.\<close> The entry points in \<^verbatim>\<open>internal/cmd/rootcmd\<close> bind flags and environment variables to one
  configuration and start a diagnostics server (\<^verbatim>\<open>internal/diagnostics\<close>) and the controller manager
  (\<^verbatim>\<open>internal/manager\<close>). The manager builds a client for Kong's Admin API (\<^verbatim>\<open>internal/adminapi\<close>), starts the
  admission webhook (\<^verbatim>\<open>internal/admission\<close>), constructs the proxy resolver
  (\<^verbatim>\<open>internal/dataplane/proxy\<close>) over an object cache (\<^verbatim>\<open>internal/store\<close>) and a file service
  (\<^verbatim>\<open>internal/kong\<close>), and registers the reconciler (\<^verbatim>\<open>internal/controllers/developer\<close>) with an event filter
  (\<^verbatim>\<open>internal/controllers/utils\<close>, \<^verbatim>\<open>internal/annotations\<close>). From then on the reconciler is called for one
  resource at a time: it reads the resource from the API server, asks the proxy to push or delete the file
  built from it, and writes the status back.

  \<^bold>\<open>The theories\<close>, in the order they build on each other.
  \<^item> \<^verbatim>\<open>Go_Prelude\<close>: Go's error values, panics as the type \<open>outcome\<close>, reachability, and the locale
    \<open>invariant_system\<close> of an inductive invariant. \<^verbatim>\<open>Go_Strings\<close>: what the code uses of Go's \<^verbatim>\<open>strings\<close>
    (\<^verbatim>\<open>SplitN\<close>, \<^verbatim>\<open>TrimSpace\<close> on UTF-8 bytes, \<^verbatim>\<open>ReplaceAll\<close>, \<^verbatim>\<open>ToUpper\<close> on ASCII) with their laws.
  \<^item> \<^verbatim>\<open>KongFile_Types\<close>: the resource (\<^verbatim>\<open>pkg/apis/v1\<close>), the file of \<^verbatim>\<open>internal/kong/types.go\<close>, and the heap
    of shared \<^verbatim>\<open>KongFile\<close> objects: the cache, the reconciler and the API client alias one object, and two
    properties depend on it. \<^verbatim>\<open>Deep_Copies\<close>: the generated copies (\<^verbatim>\<open>zz_generated.deepcopy.go\<close>) on a memory
    of typed cells in which annotations, timestamps and items are reached by pointers; apimachinery's copies of
    the metadata are the locale \<open>meta_copies\<close>.
  \<^item> \<^verbatim>\<open>Class_Filter\<close>: class annotations and the event filter. \<^verbatim>\<open>Cache_Stores\<close>: \<^verbatim>\<open>CacheStores\<close> and \<^verbatim>\<open>Store\<close> over
    client-go's \<^verbatim>\<open>cache.Store\<close>, whose laws are the locale \<open>cache_store\<close>, interpreted on an association list.
    \<^verbatim>\<open>Cache_Lock\<close>: the read-write mutex of \<^verbatim>\<open>CacheStores\<close>, with the goroutines that call its methods as a step
    relation, refined to the methods run one by one.
    \<^verbatim>\<open>File_Service\<close>: the four file operations over go-kong's client; the contract of the Admin API is the
    locale \<open>kong_admin\<close>, interpreted on an in-memory server that fails on demand. \<^verbatim>\<open>Ctrl_Metrics\<close>: the
    collectors and their registration.
  \<^item> \<^verbatim>\<open>Proxy_Resolver\<close>: the interface \<^verbatim>\<open>Proxy\<close> as a record of operations with its contract, the locale
    \<open>proxy_contract\<close>; the resolver's methods, \<^verbatim>\<open>Build\<close> and the construction; the proof that the resolver
    meets the contract.
  \<^item> \<^verbatim>\<open>KongFile_Reconciler\<close>: \<^verbatim>\<open>Reconcile\<close> as one function from a state (heap, proxy, API server) to a result,
    an error and a state, over any \<^verbatim>\<open>Proxy\<close>; one equation per branch; the well-formedness of cache and heap
    and its preservation.
  \<^item> \<^verbatim>\<open>Controller_System\<close>: the abstract portal (files tracked per resource, files published) and its
    specification \<open>portal_sync\<close>; the simulation by the reconciler; the controller as a step relation whose
    steps are whole calls and arbitrary moves of the API server and of Kong; its invariant.
    \<^verbatim>\<open>Controller_Runs\<close>: schedules of calls, what one call can touch, failure and recovery.
    \<^verbatim>\<open>Controller_Schedules\<close>: schedules for many resources against an environment that serves.
    \<^verbatim>\<open>Reference_Env\<close>: an executable API server and Kong that interpret all the locales, the sample resource of
    \<^verbatim>\<open>cr-kongfile.yaml\<close>, and the states the witnesses run on. \<^verbatim>\<open>Request_Bounds\<close>: how many requests a call sends,
    through a client that counts. \<^verbatim>\<open>Controller_Queue\<close>: the reconciler behind its event filter and
    controller-runtime's work queue (the locale \<open>work_queue\<close>), as a step relation that refines the one of
    \<^verbatim>\<open>Controller_System\<close>. \<^verbatim>\<open>Controller_Draining\<close>: what becomes of the queue when the environment serves.
  \<^item> \<^verbatim>\<open>Admission\<close>, \<^verbatim>\<open>Admin_Client\<close>, \<^verbatim>\<open>Manager_Config\<close>, \<^verbatim>\<open>Manager_Run\<close>, \<^verbatim>\<open>Diagnostics\<close>,
    \<^verbatim>\<open>Diagnostics_Handlers\<close>: the webhook, the set-up of the Kong client, the configuration with its flags and
    environment variables, the start of the manager as a pipeline of steps, and the diagnostics server as a
    step relation of its goroutines and its table of pages. \<^verbatim>\<open>Root_Command\<close>: the command with its two hooks,
    over cobra's contract (the locale \<open>cobra\<close>).
  \<^item> \<^verbatim>\<open>Component_Properties\<close> states the properties of the small components, the other theories state their own,
    and this theory states the properties of the whole controller.

  \<^bold>\<open>What the properties say.\<close> The controller implements the abstract portal (C1), touches
  nothing but the file of the resource it is called for when the paths are plain (C2), always returns (C3), and publishes every
  resource it can serve and is called for when its environment serves (C4). Behind its filter and queue it forgets no
  pending resource (C5), and with a queue of resources it can serve it comes to rest within two calls for each
  name, with the new files published and the deleted ones gone (C6), but it never hears of the deletion of a resource that lost its class before (C7). It
  retries a failed push until it succeeds (C8), converges on deletions that Kong accepts (C9), unless two
  resources share a path (C10), keeps its cache well-formed (C11), and may share it between goroutines (C12).
  The next group says, as theorems about the same definitions, where the code falls short of its purpose: a
  refused deletion is forgotten, an edit is not pushed, a terminating resource never settles, a restart
  orphans files, a DB-less controller is never ready, a refused status marks the cached object, and a resource
  without a kind is admitted and never settles. The rest are the functional behaviour, the error paths and the bounds of
  the single components. Every property with hypotheses is followed by a witness that applies it to concrete
  values.

  \<^bold>\<open>Conventions.\<close> Code outside the repository is a parameter: controller-runtime, client-go, go-kong,
  crypto/tls, JSON and pflag's parsers are records of functions, with the documented behaviour the proofs need
  as hypotheses or locale assumptions, each satisfied by an executable instance. Goroutines of the diagnostics
  server and of the users of the object cache are steps of a relation; the reconciler runs one call at a time, as controller-runtime does with the
  default of one worker. Durations, times and ports are integers: the code does no arithmetic on them. Strings
  are byte sequences. No definition needs fuel: every loop of the code runs over a finite list, and the one
  call that can wait for ever, for the mutex of the workspace set-up, has that as a value of its result.

  \<^bold>\<open>Not modelled.\<close> Logging; the help texts of flags;
  \<^verbatim>\<open>pkg/clientset\<close>, whose files hold no code; the build metadata; the parsing of the
  command line, which is cobra's and pflag's; the pages of \<^verbatim>\<open>pprof\<close>; the delays of the
  work queue, and the asynchrony of watches and client caches: events are filed together with the changes they
  report, and a call reads the API server as it is; cancellation of a context during a request; and that waiting writers of a mutex keep new readers
  out. The readers of \<^verbatim>\<open>Store\<close> take no lock and rely on client-go's own. The contract
  of the Admin API is stated for paths without the characters a URL gives a meaning to: the code puts the path
  into the endpoint unescaped.
\<close>

text \<open>C1. Refinement of the abstract portal by the reconciler: from every state the controller
  can reach, a call of Reconcile that returns without an error moves the files tracked per resource
  and the files published in Kong exactly as portal_sync says for the resource the API server holds:
  publish an unvalidated resource of our class, remove the tracked file of a missing one, remove the
  file of a terminating one, and change nothing otherwise. It is a simulation over every cache, Admin
  API and Kubernetes client that keep their contracts, for file paths without characters a URL
  interprets.\<close>
theorem Reconcile_implements_portal_sync:
  assumes env: "portal_env S contents kc files K resources"
    and reachable: "reach (ctrl_init S) (ctrl_step S kc K className) s"
    and "\<And>f. tracked (portal_of contents files s) (key_of req) = Some f \<Longrightarrow> plain_file f"
    and "\<And>f. resources (kube s) req = Some f \<Longrightarrow> plain_file (Build f)"
    and "Reconcile (resolver_Proxy S kc) K className now req s = Return ((res, None), t)"
  shows "portal_of contents files t =
    portal_sync className now req (resources (kube s) req) (portal_of contents files s)"
  by (rule portal_env.Reconcile_simulates [OF env reachable_wf [OF env reachable] assms(3-5)])

theorem Reconcile_implements_portal_sync_witness:
  "\<exists>t. Reconcile (resolver_Proxy table_store mem_client) mem_kube_client ''kong'' 5 sample_name
      (started [] Map.empty [] [sample_name \<mapsto> sample_file]) = Return ((\<lparr>Requeue = False\<rparr>, None), t) \<and>
    portal_of DAList.lookup snd t = portal_sync ''kong'' 5 sample_name (Some sample_file)
      (portal_of DAList.lookup snd (started [] Map.empty [] [sample_name \<mapsto> sample_file])) \<and>
    published (portal_of DAList.lookup snd t) ''content/products/test.txt'' =
      file_Contents (Build sample_file)"
proof -
  let ?s = "started [] Map.empty [] [sample_name \<mapsto> sample_file]"
  have "\<exists>t. Reconcile (resolver_Proxy table_store mem_client) mem_kube_client ''kong'' 5 sample_name ?s =
      Return ((\<lparr>Requeue = False\<rparr>, None), t)"
    by (simp add: model_run sample_resolver_def)
  then obtain t where t: "Reconcile (resolver_Proxy table_store mem_client) mem_kube_client ''kong'' 5
      sample_name ?s = Return ((\<lparr>Requeue = False\<rparr>, None), t)" ..
  have "portal_of DAList.lookup snd t = portal_sync ''kong'' 5 sample_name
      (snd (kube ?s) sample_name) (portal_of DAList.lookup snd ?s)"
    by (rule Reconcile_implements_portal_sync [OF model.portal_env_axioms started_reach _ _ t])
      (auto simp: portal_of_def sample_resolver_def NewCacheStores_def table_store_def sample_plain)
  then show ?thesis
    using t by (simp add: portal_sync_def publish_def)
qed

text \<open>C2. Whatever one call of Reconcile for a resource ends in, errors included, it leaves
  every file in Kong alone that is neither the file tracked for that resource nor the file its stored
  version builds, and it leaves the tracked files of every other resource alone, provided that the
  paths of these two files hold no characters that a URL interprets: the code does not escape the path
  in the endpoint.\<close>
theorem Reconcile_touches_own_file_only:
  assumes env: "portal_env S contents kc files K resources"
    and reachable: "reach (ctrl_init S) (ctrl_step S kc K className) s"
    and "\<And>f. tracked (portal_of contents files s) (key_of req) = Some f \<Longrightarrow>
      plain_file f \<and> file_Path f \<noteq> Some q"
    and "\<And>f. resources (kube s) req = Some f \<Longrightarrow>
      plain_file (Build f) \<and> file_Path (Build f) \<noteq> Some q"
    and "Reconcile (resolver_Proxy S kc) K className now req s = Return (out, t)"
  shows "published (portal_of contents files t) q = published (portal_of contents files s) q \<and>
    (\<forall>k. k \<noteq> key_of req \<longrightarrow>
      tracked (portal_of contents files t) k = tracked (portal_of contents files s) k)"
  by (rule portal_env.Reconcile_frame [OF env reachable_wf [OF env reachable] assms(3-5)])

text \<open>A push that Kong refuses, with another file next to it.\<close>

theorem Reconcile_touches_own_file_only_witness:
  "\<exists>e t. Reconcile (resolver_Proxy table_store mem_client) mem_kube_client ''kong'' 5 sample_name
      (started [False] [''content/other'' \<mapsto> ''text''] [] [sample_name \<mapsto> sample_file]) =
        Return ((\<lparr>Requeue = False\<rparr>, Some e), t) \<and>
    published (portal_of DAList.lookup snd t) ''content/other'' = Some ''text''"
proof -
  let ?s = "started [False] [''content/other'' \<mapsto> ''text''] [] [sample_name \<mapsto> sample_file]"
  have "\<exists>e t. Reconcile (resolver_Proxy table_store mem_client) mem_kube_client ''kong'' 5 sample_name ?s =
      Return ((\<lparr>Requeue = False\<rparr>, Some e), t)"
    by (simp add: model_run sample_resolver_def)
  then obtain e t where t: "Reconcile (resolver_Proxy table_store mem_client) mem_kube_client ''kong'' 5
      sample_name ?s = Return ((\<lparr>Requeue = False\<rparr>, Some e), t)" by blast
  have "published (portal_of DAList.lookup snd t) ''content/other'' =
      published (portal_of DAList.lookup snd ?s) ''content/other''"
    by (rule conjunct1 [OF Reconcile_touches_own_file_only [OF model.portal_env_axioms started_reach _ _ t]])
      (auto simp: portal_of_def sample_resolver_def NewCacheStores_def table_store_def sample_plain)
  then show ?thesis
    using t by (simp add: portal_of_def)
qed

text \<open>C3. After a successful construction, and after any interleaving of reconcile calls with
  moves of the API server and of Kong, every further schedule of reconcile calls runs to its end: each
  call returns a result, and none panics on a nil object or an unexpected kind.\<close>
theorem controller_never_panics:
  assumes "controller S contents K"
    and "NewCacheBasedProxyWithStagger deps v0 kong0 cls rs tmo (NewCacheStores S) env = Return (Inr p, env')"
    and "fst (prox s0) = p" and "(ctrl_step S kc K className)\<^sup>*\<^sup>* s0 s"
  shows "\<exists>outs t. run_calls (resolver_Proxy S kc) K className calls s = Return (outs, t) \<and>
    length outs = length calls"
proof -
  have "reach (ctrl_init S) (ctrl_step S kc K className) s"
    using constructed_init [OF assms(2,3)] assms(4) by (auto simp: reach_rtranclp)
  then have "ctrl_inv contents s"
    by (rule controller.reach_ctrl_inv [OF assms(1)])
  from controller.run_calls_total [OF assms(1) this] show ?thesis by blast
qed

theorem controller_never_panics_witness:
  "\<exists>p env' outs t. NewCacheBasedProxyWithStagger (sample_deps ''postgres'') [] sample_kong ''kong'' False 10
      (NewCacheStores table_store) (([], Map.empty) :: mem_kong, []) = Return (Inr p, env') \<and>
    run_calls (resolver_Proxy table_store mem_client) mem_kube_client ''kong''
      [(1, sample_name), (2, sample_name)]
      ((started [] Map.empty [] Map.empty)\<lparr>prox := (p, ([], Map.empty))\<rparr>) = Return (outs, t) \<and>
    length outs = length [(1 :: time, sample_name), (2, sample_name)]"
proof -
  let ?new = "NewCacheBasedProxyWithStagger (sample_deps ''postgres'') [] sample_kong ''kong'' False 10
      (NewCacheStores table_store) (([], Map.empty) :: mem_kong, [])"
  have "\<exists>p env'. ?new = Return (Inr p, env')"
    by (simp add: sample_init)
  then obtain p env' where p: "?new = Return (Inr p, env')" by blast
  have "\<exists>outs t. run_calls (resolver_Proxy table_store mem_client) mem_kube_client ''kong''
      [(1, sample_name), (2, sample_name)]
      ((started [] Map.empty [] Map.empty)\<lparr>prox := (p, ([], Map.empty))\<rparr>) = Return (outs, t) \<and>
    length outs = length [(1 :: time, sample_name), (2, sample_name)]"
    by (rule controller_never_panics [OF kong_controller.controller_axioms p _ rtranclp.rtrancl_refl]) simp
  with p show ?thesis by blast
qed

text \<open>C4. Against a Kong and an API server that serve, any schedule of calls, in any order and
  with any repetition, for resources without a deletion timestamp that are either of our class, of
  known kinds and with pairwise distinct plain paths, or of another class, succeeds call by call and
  asks for no requeue; afterwards every resource of our class that was called for is validated and its
  file is published if it was not validated before, and no other resource and no other path in Kong
  has changed.\<close>
theorem schedule_publishes_every_resource:
  assumes env: "serving_env S contents kc files K resources up ready"
    and serving: "up (snd (prox s))" "ready (kube s)"
    and called: "\<forall>req \<in> snd ` set calls. \<exists>f. resources (kube s) req = Some f \<and> servable className f"
    and apart: "paths_apart className (resources (kube s)) (snd ` set calls)"
  shows "\<exists>t. run_calls (resolver_Proxy S kc) K className calls s = Return (replicate (length calls) idle, t) \<and>
    (\<forall>req. resources (kube t) req =
      (if req \<in> snd ` set calls then map_option (synced className) (resources (kube s) req)
       else resources (kube s) req)) \<and>
    (\<forall>req \<in> snd ` set calls. \<forall>f p. resources (kube s) req = Some f \<longrightarrow> awaits className f \<longrightarrow>
      file_Path (Build f) = Some p \<longrightarrow> files (snd (prox t)) p = file_Contents (Build f)) \<and>
    (\<forall>q. (\<forall>req \<in> snd ` set calls. \<forall>f. resources (kube s) req = Some f \<longrightarrow> awaits className f \<longrightarrow>
        file_Path (Build f) \<noteq> Some q) \<longrightarrow> files (snd (prox t)) q = files (snd (prox s)) q)"
  by (rule serving_env.serve_schedule [OF env serving subset_refl _ apart]) (use called in blast)

text \<open>Two resources, called for in turn, one of them twice.\<close>

theorem schedule_publishes_every_resource_witness:
  "\<exists>t. run_calls (resolver_Proxy table_store mem_client) mem_kube_client ''kong''
      [(1, sample_name), (2, other_name), (3, sample_name)]
      (started [] Map.empty [] [sample_name \<mapsto> sample_file, other_name \<mapsto> other_file]) =
        Return ([idle, idle, idle], t) \<and>
    snd (snd (prox t)) ''base/assets/products/logo.svg'' = Some ''Yeah'' \<and>
    snd (kube t) sample_name = Some (set_validated sample_file)"
proof -
  let ?s = "started [] Map.empty [] [sample_name \<mapsto> sample_file, other_name \<mapsto> other_file]"
  let ?calls = "[(1 :: time, sample_name), (2, other_name), (3, sample_name)]"
  have up: "answers_all (snd (prox ?s))" and ready: "names_right (kube ?s)"
    by (simp_all add: answers_all_def names_right_def)
  have called: "\<forall>req \<in> snd ` set ?calls. \<exists>f. snd (kube ?s) req = Some f \<and> servable ''kong'' f"
    by auto
  have apart: "paths_apart ''kong'' (snd (kube ?s)) (snd ` set ?calls)"
    by (auto simp: paths_apart_def)
  from schedule_publishes_every_resource [OF serving_model.serving_env_axioms up ready called apart]
  show ?thesis
  proof (elim exE conjE, intro exI conjI)
    fix t
    assume "run_calls (resolver_Proxy table_store mem_client) mem_kube_client ''kong'' ?calls ?s =
      Return (replicate (length ?calls) idle, t)"
    then show "run_calls (resolver_Proxy table_store mem_client) mem_kube_client ''kong'' ?calls ?s =
      Return ([idle, idle, idle], t)"
      by (simp add: numeral_3_eq_3 del: run_calls.simps)
  next
    fix t
    assume "\<forall>req \<in> snd ` set ?calls. \<forall>f p. snd (kube ?s) req = Some f \<longrightarrow> awaits ''kong'' f \<longrightarrow>
      file_Path (Build f) = Some p \<longrightarrow> snd (snd (prox t)) p = file_Contents (Build f)"
    then show "snd (snd (prox t)) ''base/assets/products/logo.svg'' = Some ''Yeah''"
      by simp
  next
    fix t
    assume "\<forall>req. snd (kube t) req =
      (if req \<in> snd ` set ?calls then map_option (synced ''kong'') (snd (kube ?s) req) else snd (kube ?s) req)"
    then show "snd (kube t) sample_name = Some (set_validated sample_file)"
      by (simp add: synced_def)
  qed
qed

text \<open>C8. When Kong refuses the push of a new resource of our class that is not being deleted
  and has a plain path, Reconcile returns the error, which makes controller-runtime retry, and leaves
  the API server alone; and from any later state in which the API server still returns that resource,
  whatever has become of the other resources, of Kong and of the cache, the first call whose push and
  status update succeed publishes the file built from the resource, marks the resource validated, and
  changes no other file and no other resource.\<close>
theorem failed_push_is_retried:
  fixes s :: "(('c, 'v, 'w) resolver_state, 'k) world"
  assumes env: "portal_env S contents kc files K resources"
    and reachable: "reach (ctrl_init S) (ctrl_step S kc K className) s"
    and found: "k_Get K req zero_KongFile (kube s) = (None, f)"
    and alive: "time_IsZero (om_DeletionTimestamp (kf_Meta f))"
    and ours: "MatchesControllerClassName (kf_Meta f) className" and pending: "\<not> Validated (kf_Status f)"
    and plain: "plain_file (Build f)"
    and refused: "FileService_Update kc (Build f) (snd (prox s)) = ((v, Some e), w)"
  shows "\<exists>t. Reconcile (resolver_Proxy S kc) K className now req s = Return ((\<lparr>Requeue = False\<rparr>, Some e), t) \<and>
    kube t = kube s \<and>
    (\<forall>(u :: (('c, 'v, 'w) resolver_state, 'k) world) now' v' w' g k. k_Get K req zero_KongFile (kube u) = (None, f) \<longrightarrow>
      FileService_Update kc (Build f) (snd (prox u)) = ((v', None), w') \<longrightarrow>
      k_StatusUpdate K (set_validated f) (kube u) = ((None, g), k) \<longrightarrow>
      (\<exists>t'. Reconcile (resolver_Proxy S kc) K className now' req u = Return ((\<lparr>Requeue = False\<rparr>, None), t') \<and>
        files (snd (prox t')) = publish (Build f) (files (snd (prox u))) \<and>
        resources (kube t') = (resources (kube u))(req \<mapsto> set_validated f)))"
proof -
  have fetch: "fetch_error K req u = None" "fetched K req u = f" if "k_Get K req zero_KongFile (kube u) = (None, f)"
    for u :: "(('c, 'v, 'w) resolver_state, 'k) world"
    using that by (simp_all add: fetch_error_def fetched_def)
  have pend: "\<not> terminating now' f" "ours className f" "\<not> validated f" for now'
    using alive ours pending by (simp_all add: terminating_def ours_def validated_def)
  obtain t where t: "Reconcile (resolver_Proxy S kc) K className now req s =
      Return ((\<lparr>Requeue = False\<rparr>, Some e), t)" "kube t = kube s"
    using portal_env.failed_push [OF env reachable_wf [OF env reachable] fetch(1) [OF found]]
      fetch(2) [OF found] pend refused by blast
  have "\<exists>t'. Reconcile (resolver_Proxy S kc) K className now' req u = Return ((\<lparr>Requeue = False\<rparr>, None), t') \<and>
      files (snd (prox t')) = publish (Build f) (files (snd (prox u))) \<and>
      resources (kube t') = (resources (kube u))(req \<mapsto> set_validated f)"
    if "k_Get K req zero_KongFile (kube u) = (None, f)" "FileService_Update kc (Build f) (snd (prox u)) = ((v', None), w')"
      "k_StatusUpdate K (set_validated f) (kube u) = ((None, g), k)"
    for u :: "(('c, 'v, 'w) resolver_state, 'k) world" and now' v' w' g k
    using portal_env.successful_push [OF env, of req u now' className v' w' g k] fetch [OF that(1)] pend plain that(2,3)
    by simp
  with t show ?thesis by blast
qed

text \<open>Before the retry another resource has been created, and another file has appeared in Kong.\<close>

theorem failed_push_is_retried_witness:
  "\<exists>e t t'. Reconcile (resolver_Proxy table_store mem_client) mem_kube_client ''kong'' 5 sample_name
      (started [False] Map.empty [] [sample_name \<mapsto> sample_file]) = Return ((\<lparr>Requeue = False\<rparr>, Some e), t) \<and>
    Reconcile (resolver_Proxy table_store mem_client) mem_kube_client ''kong'' 6 sample_name
      (t\<lparr>prox := (fst (prox t), ([], [''content/other'' \<mapsto> ''text''])),
         kube := ([], [sample_name \<mapsto> sample_file, other_name \<mapsto> other_file])\<rparr>) =
        Return ((\<lparr>Requeue = False\<rparr>, None), t') \<and>
    snd (snd (prox t')) = publish (Build sample_file) [''content/other'' \<mapsto> ''text''] \<and>
    snd (kube t') = [sample_name \<mapsto> set_validated sample_file, other_name \<mapsto> other_file]"
proof -
  let ?s = "started [False] Map.empty [] [sample_name \<mapsto> sample_file]"
  let ?e = "External ''503 Service Unavailable''"
  let ?k = "([], [sample_name \<mapsto> sample_file, other_name \<mapsto> other_file]) :: mem_kube"
  let ?w = "([], [''content/other'' \<mapsto> ''text'']) :: mem_kong"
  have get: "k_Get mem_kube_client sample_name zero_KongFile (kube ?s) = (None, sample_file)"
    and again: "k_Get mem_kube_client sample_name zero_KongFile ?k = (None, sample_file)"
    by (simp_all add: mem_kube_client_def mem_get_def)
  have pend: "time_IsZero (om_DeletionTimestamp (kf_Meta sample_file))"
    "MatchesControllerClassName (kf_Meta sample_file) ''kong''" "\<not> Validated (kf_Status sample_file)"
    by (simp_all add: sample_file_def MatchesControllerClassName_iff)
  have "\<exists>v w. FileService_Update mem_client (Build sample_file) (snd (prox ?s)) = ((v, Some ?e), w)"
    by (simp add: model_run)
  then obtain v w where "FileService_Update mem_client (Build sample_file) (snd (prox ?s)) = ((v, Some ?e), w)"
    by blast
  from failed_push_is_retried [OF model.portal_env_axioms started_reach get pend sample_plain this, of 5]
  obtain t where t: "Reconcile (resolver_Proxy table_store mem_client) mem_kube_client ''kong'' 5 sample_name ?s =
      Return ((\<lparr>Requeue = False\<rparr>, Some ?e), t)"
    and retry: "\<And>(u :: model_world) now' v' w' g k. k_Get mem_kube_client sample_name zero_KongFile (kube u) = (None, sample_file) \<Longrightarrow>
      FileService_Update mem_client (Build sample_file) (snd (prox u)) = ((v', None), w') \<Longrightarrow>
      k_StatusUpdate mem_kube_client (set_validated sample_file) (kube u) = ((None, g), k) \<Longrightarrow>
      (\<exists>t'. Reconcile (resolver_Proxy table_store mem_client) mem_kube_client ''kong'' now' sample_name u =
          Return ((\<lparr>Requeue = False\<rparr>, None), t') \<and>
        snd (snd (prox t')) = publish (Build sample_file) (snd (snd (prox u))) \<and>
        snd (kube t') = (snd (kube u))(sample_name \<mapsto> set_validated sample_file))"
    by blast
  have "\<exists>v w. FileService_Update mem_client (Build sample_file) ?w = ((v, None), w)"
    by (simp add: model_run)
  moreover have "\<exists>g k. k_StatusUpdate mem_kube_client (set_validated sample_file) ?k = ((None, g), k)"
  proof -
    have "names_right ?k" by (auto simp: names_right_def split: if_splits)
    moreover have "snd ?k (name_of (set_validated sample_file)) = Some sample_file"
      by (simp add: name_of_set_validated)
    ultimately show ?thesis using mem_status_served by blast
  qed
  ultimately obtain v' w' g k where up: "FileService_Update mem_client (Build sample_file) ?w = ((v', None), w')"
    and st: "k_StatusUpdate mem_kube_client (set_validated sample_file) ?k = ((None, g), k)" by blast
  from retry [of "t\<lparr>prox := (fst (prox t), ?w), kube := ?k\<rparr>" v' w' g k 6] again up st
  show ?thesis
    using t by (auto simp: fun_eq_iff)
qed

text \<open>C9. When a tracked resource with a plain path is gone from the API server and Kong accepts
  the delete, one call removes its file from Kong and its entry from the cache and asks for a requeue,
  and every later call for the resource is idle: it returns without error or requeue and changes
  neither the proxy nor Kong.\<close>
theorem deletion_converges:
  fixes s :: "(('c, 'v, 'w) resolver_state, 'k) world"
  assumes env: "portal_env S contents kc files K resources"
    and reachable: "reach (ctrl_init S) (ctrl_step S kc K className) s"
    and missing: "k_Get K req zero_KongFile (kube s) = (Some err, z)" "k_IsNotFound K err"
    and tracked: "tracked (portal_of contents files s) (key_of req) = Some f" and plain: "plain_file f"
    and served: "FileService_Delete kc f (snd (prox s)) = ((v, None), w)"
  shows "\<exists>t. Reconcile (resolver_Proxy S kc) K className now req s = Return ((\<lparr>Requeue = True\<rparr>, None), t) \<and>
    portal_of contents files t =
      \<lparr>tracked = (tracked (portal_of contents files s))(key_of req := None),
       published = unpublish f (published (portal_of contents files s))\<rparr> \<and>
    (\<forall>calls. (\<forall>(now', req') \<in> set calls. req' = req) \<longrightarrow>
      (\<exists>u. run_calls (resolver_Proxy S kc) K className calls t = Return (replicate (length calls) idle, u) \<and>
        prox u = prox t \<and> kube u = kube s))"
proof -
  have "fetch_error K req s = Some err" using missing(1) by (simp add: fetch_error_def)
  note steps = portal_env.missing_then_forgotten
    [OF env reachable_wf [OF env reachable] this missing(2) tracked served, of className now]
  have "published (portal_of contents files s) = files (snd (prox s))" by (simp add: portal_of_def)
  with steps portal_env.unpublish_delete [OF env served plain] show ?thesis by simp
qed

theorem deletion_converges_witness:
  "\<exists>t. Reconcile (resolver_Proxy table_store mem_client) mem_kube_client ''kong'' 6 sample_name
      (pushed_then_removed []) = Return ((\<lparr>Requeue = True\<rparr>, None), t) \<and>
    published (portal_of DAList.lookup snd t) = Map.empty \<and>
    (\<exists>u. run_calls (resolver_Proxy table_store mem_client) mem_kube_client ''kong''
      [(7, sample_name)] t = Return ([idle], u))"
proof -
  let ?s = "pushed_then_removed []"
  have miss: "k_Get mem_kube_client sample_name zero_KongFile (kube ?s) = (Some kube_not_found, zero_KongFile)"
    "k_IsNotFound mem_kube_client kube_not_found"
    by (simp_all add: mem_kube_client_def mem_get_def pushed_then_removed_tracks)
  have "\<exists>v w. FileService_Delete mem_client (Build sample_file) (snd (prox ?s)) = ((v, None), w)"
    by (simp add: model_run pushed_then_removed_def)
  then obtain v w where "FileService_Delete mem_client (Build sample_file) (snd (prox ?s)) = ((v, None), w)"
    by blast
  note steps = deletion_converges [OF model.portal_env_axioms pushed_then_removed_reach miss
      pushed_then_removed_tracks(1) sample_plain this, of 6]
  then obtain t where t: "Reconcile (resolver_Proxy table_store mem_client) mem_kube_client ''kong'' 6
      sample_name ?s = Return ((\<lparr>Requeue = True\<rparr>, None), t)"
    and view: "portal_of DAList.lookup snd t =
      \<lparr>tracked = (tracked (portal_of DAList.lookup snd ?s))(key_of sample_name := None),
       published = unpublish (Build sample_file) (published (portal_of DAList.lookup snd ?s))\<rparr>"
    and later: "\<And>calls. (\<forall>(now', req') \<in> set calls. req' = sample_name) \<Longrightarrow>
      \<exists>u. run_calls (resolver_Proxy table_store mem_client) mem_kube_client ''kong'' calls t =
        Return (replicate (length calls) idle, u)"
    by blast
  have "published (portal_of DAList.lookup snd t) = Map.empty"
    using view by (simp add: pushed_then_removed_tracks publish_def unpublish_def)
  moreover have "\<exists>u. run_calls (resolver_Proxy table_store mem_client) mem_kube_client ''kong''
      [(7, sample_name)] t = Return ([idle], u)"
    using later [of "[(7, sample_name)]"] by simp
  ultimately show ?thesis using t by blast
qed

text \<open>C10. Files are identified by their path alone, which says nothing of the namespace: when a
  tracked resource is gone whose file has the same plain path as that of another one, which is
  validated and not being deleted, and Kong accepts the delete, the call for the first deletes the
  file of both and asks for a requeue, and every call for the other that follows is idle and does not
  bring the file back, with the cache entry of the other as it was: if the file was tracked for it, it
  still is.\<close>
theorem shared_path_is_lost:
  fixes s :: "(('c, 'v, 'w) resolver_state, 'k) world"
  assumes env: "portal_env S contents kc files K resources"
    and reachable: "reach (ctrl_init S) (ctrl_step S kc K className) s"
    and missing: "k_Get K req zero_KongFile (kube s) = (Some err, z)" "k_IsNotFound K err"
    and tracked: "tracked (portal_of contents files s) (key_of req) = Some g" and plain: "plain_file g"
    and served: "FileService_Delete kc g (snd (prox s)) = ((v, None), w)"
    and other: "k_Get K req' zero_KongFile (kube s) = (None, f)" "Validated (kf_Status f)"
      "time_IsZero (om_DeletionTimestamp (kf_Meta f))" "key_of req' \<noteq> key_of req"
    and shared: "file_Path (Build f) = Some p" "file_Path g = Some p"
    and calls: "\<forall>(now', r) \<in> set calls. r = req'"
  shows "\<exists>t u. Reconcile (resolver_Proxy S kc) K className now req s = Return ((\<lparr>Requeue = True\<rparr>, None), t) \<and>
    run_calls (resolver_Proxy S kc) K className calls t = Return (replicate (length calls) idle, u) \<and>
    published (portal_of contents files u) p = None \<and>
    tracked (portal_of contents files u) (key_of req') = tracked (portal_of contents files s) (key_of req')"
proof -
  have miss: "fetch_error K req s = Some err" using missing(1) by (simp add: fetch_error_def)
  note wf = reachable_wf [OF env reachable]
  from portal_env.missing_then_forgotten [OF env wf miss missing(2) tracked served, of className now] obtain t where
    t: "Reconcile (resolver_Proxy S kc) K className now req s = Return ((\<lparr>Requeue = True\<rparr>, None), t)"
    and view: "portal_of contents files t =
      \<lparr>tracked = (tracked (portal_of contents files s))(key_of req := None), published = files w\<rparr>"
    by auto
  have "kube t = kube s" by (rule portal_env.kube_of_unwritten [OF env _ t]) (simp add: miss)
  then have f: "fetch_error K req' t = None" "fetched K req' t = f"
    using other(1) by (simp_all add: fetch_error_def fetched_def)
  have wf': "cache_wf (\<lambda>st. contents (store (fst st))) t"
    by (rule reachable_wf [OF env reach_step [OF reachable ctrl_step.reconciles [OF t]]])
  have "\<not> ours className (fetched K req' t) \<or> validated (fetched K req' t)"
    "\<forall>(now, r) \<in> set calls. r = req' \<and> \<not> terminating now (fetched K req' t)"
    using calls other(2,3) by (auto simp: f(2) validated_def terminating_def)
  from portal_env.settled_view [OF env wf' f(1) this] obtain u where
    u: "run_calls (resolver_Proxy S kc) K className calls t = Return (replicate (length calls) idle, u)"
    and "portal_of contents files u = portal_of contents files t" by blast
  moreover have "files w p = None"
    using portal_env.unpublish_delete [OF env served plain] shared by (simp add: unpublish_def)
  ultimately show ?thesis using t u view other(4) by auto
qed

text \<open>The sample in two namespaces, pushed for both, and then removed from the first.\<close>

theorem shared_path_is_lost_witness:
  "\<exists>t u. Reconcile (resolver_Proxy table_store mem_client) mem_kube_client ''kong'' 6 sample_name
      shared_then_removed = Return ((\<lparr>Requeue = True\<rparr>, None), t) \<and>
    run_calls (resolver_Proxy table_store mem_client) mem_kube_client ''kong'' [(7, staging_name)] t = Return ([idle], u) \<and>
    published (portal_of DAList.lookup snd shared_then_removed) ''content/products/test.txt'' =
      file_Contents (Build staging_file) \<and>
    published (portal_of DAList.lookup snd u) ''content/products/test.txt'' = None \<and>
    tracked (portal_of DAList.lookup snd u) (key_of staging_name) = Some (Build staging_file)"
proof -
  let ?s = shared_then_removed
  have miss: "k_Get mem_kube_client sample_name zero_KongFile (kube ?s) = (Some kube_not_found, zero_KongFile)"
    "k_IsNotFound mem_kube_client kube_not_found"
    by (simp_all add: mem_kube_client_def mem_get_def staging_facts shared_then_removed_tracks)
  have get: "k_Get mem_kube_client staging_name zero_KongFile (kube ?s) = (None, set_validated staging_file)"
    by (simp add: mem_kube_client_def mem_get_def staging_facts shared_then_removed_tracks)
  have "\<exists>v w. FileService_Delete mem_client (Build sample_file) (snd (prox ?s)) = ((v, None), w)"
    by (simp add: model_run shared_then_removed_def)
  then obtain v w where del: "FileService_Delete mem_client (Build sample_file) (snd (prox ?s)) = ((v, None), w)"
    by blast
  have keys: "key_of staging_name \<noteq> key_of sample_name"
    by (simp add: key_of_def staging_name_def sample_name_def)
  from shared_path_is_lost [OF model.portal_env_axioms shared_then_removed_reach miss shared_then_removed_tracks(1)
      sample_plain del get _ _ keys _ sample_facts(5), of "[(7, staging_name)]" 6]
  show ?thesis by (auto simp: staging_facts shared_then_removed_tracks publish_def)
qed

text \<open>C11. In every reachable state of the controller, every cached object is a KongFile that
  has been allocated, it is filed under the key that its namespace and name give now, and
  ObjectExistsInCache finds it through any pointer whose object has a namespace and name of that key,
  not only through the cached pointer itself.\<close>
theorem reachable_cache_is_wellformed:
  assumes "controller S contents K"
    and "reach (ctrl_init S) (ctrl_step S kc K className) s"
    and "contents (store (fst (prox s))) k = Some ob"
  shows "\<exists>r. ob = KongFileObj r \<and> r < next_ref (objects s) \<and> key_of (name_of (at_ref (objects s) r)) = k \<and>
    (\<forall>q. key_of (name_of (at_ref (objects s) q)) = k \<longrightarrow>
      ObjectExistsInCache S (objects s) (Some (KongFileObj q)) (prox s) = (Some ob, True, None))"
proof -
  have wf: "cache_wf (\<lambda>st. contents (store (fst st))) s"
    by (rule reachable_inv(1) [OF assms(1,2)])
  from cache_wfE [OF this assms(3)] obtain r where r: "r < next_ref (objects s)" "ob = KongFileObj r"
      "object_key (objects s) r = k"
    unfolding new_ref_def by blast
  moreover have "resolver S contents"
    using assms(1) by (simp add: controller_def)
  then have "ObjectExistsInCache S (objects s) (Some (KongFileObj q)) (prox s) = (Some ob, True, None)"
    if "key_of (name_of (at_ref (objects s) q)) = k" for q
    using resolver.ObjectExistsInCache_file [of S contents "objects s" q "fst (prox s)" "snd (prox s)"] assms(3) that
    by (simp add: object_key_name)
  ultimately show ?thesis by (auto simp: object_key_name)
qed

theorem reachable_cache_is_wellformed_witness:
  "\<exists>r. DAList.lookup (store (fst (prox (pushed_then_removed [])))) ''default/my-kong-file'' = Some (KongFileObj r) \<and>
    r < next_ref (objects (pushed_then_removed [])) \<and>
    name_of (at_ref (objects (pushed_then_removed [])) r) = sample_name"
proof -
  have c: "DAList.lookup (store (fst (prox (pushed_then_removed [])))) ''default/my-kong-file'' = Some (KongFileObj 0)"
    by (simp add: pushed_then_removed_def)
  from reachable_cache_is_wellformed [OF kong_controller.controller_axioms pushed_then_removed_reach c]
  have "0 < next_ref (objects (pushed_then_removed []))" by simp
  with c show ?thesis
    by (intro exI [of _ 0]) (simp add: pushed_then_removed_def name_of_set_validated)
qed

text \<open>C13. When Kong refuses the delete of a removed resource, the call returns the error but
  has already dropped the resource from the cache: every retry finds nothing to delete, returns
  success, and the file stays published as Kong left it.\<close>
theorem failed_delete_is_lost:
  fixes s :: "(('c, 'v, 'w) resolver_state, 'k) world"
  assumes env: "portal_env S contents kc files K resources"
    and reachable: "reach (ctrl_init S) (ctrl_step S kc K className) s"
    and missing: "k_Get K req zero_KongFile (kube s) = (Some err, z)" "k_IsNotFound K err"
    and tracked: "tracked (portal_of contents files s) (key_of req) = Some f"
    and refused: "FileService_Delete kc f (snd (prox s)) = ((v, Some e), w)"
  shows "\<exists>t. Reconcile (resolver_Proxy S kc) K className now req s = Return ((\<lparr>Requeue = False\<rparr>, Some e), t) \<and>
    published (portal_of contents files t) = files w \<and>
    (\<forall>calls. (\<forall>(now', req') \<in> set calls. req' = req) \<longrightarrow>
      (\<exists>u. run_calls (resolver_Proxy S kc) K className calls t = Return (replicate (length calls) idle, u) \<and>
        published (portal_of contents files u) = files w))"
proof -
  have "fetch_error K req s = Some err" using missing(1) by (simp add: fetch_error_def)
  from portal_env.missing_then_forgotten
    [OF env reachable_wf [OF env reachable] this missing(2) tracked refused, of className now]
  show ?thesis by (fastforce simp: portal_of_def)
qed

theorem failed_delete_is_lost_witness:
  "\<exists>e t u. Reconcile (resolver_Proxy table_store mem_client) mem_kube_client ''kong'' 6 sample_name
      (pushed_then_removed [False]) = Return ((\<lparr>Requeue = False\<rparr>, Some e), t) \<and>
    run_calls (resolver_Proxy table_store mem_client) mem_kube_client ''kong''
      [(7, sample_name), (8, sample_name)] t = Return ([idle, idle], u) \<and>
    published (portal_of DAList.lookup snd u) ''content/products/test.txt'' =
      file_Contents (Build sample_file)"
proof -
  let ?s = "pushed_then_removed [False]" and ?m = "publish (Build sample_file) Map.empty"
  let ?e = "External ''503 Service Unavailable''"
  have miss: "k_Get mem_kube_client sample_name zero_KongFile (kube ?s) = (Some kube_not_found, zero_KongFile)"
    "k_IsNotFound mem_kube_client kube_not_found"
    by (simp_all add: mem_kube_client_def mem_get_def pushed_then_removed_tracks)
  have "\<exists>v. FileService_Delete mem_client (Build sample_file) (snd (prox ?s)) = ((v, Some ?e), ([], ?m))"
    by (simp add: model_run pushed_then_removed_def)
  then obtain v where "FileService_Delete mem_client (Build sample_file) (snd (prox ?s)) =
      ((v, Some ?e), ([], ?m))" by blast
  from failed_delete_is_lost [OF model.portal_env_axioms pushed_then_removed_reach miss
      pushed_then_removed_tracks(1) this, of 6]
  obtain t where t: "Reconcile (resolver_Proxy table_store mem_client) mem_kube_client ''kong'' 6
      sample_name ?s = Return ((\<lparr>Requeue = False\<rparr>, Some ?e), t)"
    and later: "\<And>calls. (\<forall>(now', req') \<in> set calls. req' = sample_name) \<Longrightarrow>
      \<exists>u. run_calls (resolver_Proxy table_store mem_client) mem_kube_client ''kong'' calls t =
        Return (replicate (length calls) idle, u) \<and> published (portal_of DAList.lookup snd u) = ?m"
    by auto
  from later [of "[(7, sample_name), (8, sample_name)]"] obtain u where
    "run_calls (resolver_Proxy table_store mem_client) mem_kube_client ''kong''
      [(7, sample_name), (8, sample_name)] t = Return ([idle, idle], u)"
    "published (portal_of DAList.lookup snd u) = ?m"
    by (auto simp: numeral_2_eq_2 simp del: run_calls.simps)
  then show ?thesis
    using t by (auto simp: publish_def simp del: run_calls.simps)
qed

text \<open>C14. Once the status of a resource says validated, and as long as it is not being deleted,
  its spec can be edited at will: every later call for it, whatever the new spec and the controller
  class, returns success and changes neither the proxy, nor Kong, nor the API server. The edited
  content is never published.\<close>
theorem edits_are_never_pushed:
  fixes s :: "(('c, 'v, 'w) resolver_state, 'k) world"
  assumes found: "k_Get K req zero_KongFile (kube s) = (None, f\<lparr>kf_Spec := edited\<rparr>)"
    and settled: "Validated (kf_Status f)" and alive: "time_IsZero (om_DeletionTimestamp (kf_Meta f))"
    and calls: "\<forall>(now, req') \<in> set calls. req' = req"
  shows "\<exists>t. run_calls (resolver_Proxy S kc) K className calls s = Return (replicate (length calls) idle, t) \<and>
    prox t = prox s \<and> kube t = kube s"
proof -
  have f: "fetch_error K req s = None" "fetched K req s = f\<lparr>kf_Spec := edited\<rparr>"
    using found by (simp_all add: fetch_error_def fetched_def)
  show ?thesis
    by (rule settled_calls [OF f(1)])
      (use calls settled alive in \<open>auto simp: f(2) validated_def terminating_def\<close>)
qed

text \<open>The sample, published with content \<open>Yeah\<close> and then edited.\<close>

theorem edits_are_never_pushed_witness:
  "\<exists>t. run_calls (resolver_Proxy table_store mem_client) mem_kube_client ''kong''
      [(5, sample_name), (6, sample_name)]
      (started [] (publish (Build sample_file) Map.empty) []
        [sample_name \<mapsto> (set_validated sample_file)
          \<lparr>kf_Spec := (kf_Spec sample_file)\<lparr>Spec_Content := ''Nope''\<rparr>\<rparr>]) = Return ([idle, idle], t) \<and>
    snd (snd (prox t)) ''content/products/test.txt'' = file_Contents (Build sample_file)"
proof -
  let ?f = "(set_validated sample_file)\<lparr>kf_Spec := (kf_Spec sample_file)\<lparr>Spec_Content := ''Nope''\<rparr>\<rparr>"
  let ?s = "started [] (publish (Build sample_file) Map.empty) [] [sample_name \<mapsto> ?f]"
  have "name_of ?f = sample_name"
    by (simp add: name_of_def set_validated_def sample_file_def sample_name_def)
  then have "k_Get mem_kube_client sample_name zero_KongFile (kube ?s) = (None, ?f)"
    by (simp add: mem_kube_client_def mem_get_def)
  from edits_are_never_pushed [OF this, of "[(5, sample_name), (6, sample_name)]"
      table_store mem_client "''kong''"]
  show ?thesis
    by (auto simp: set_validated_def sample_file_def publish_def Build_def kind_defs Let_def zero_File_def
        numeral_2_eq_2 simp del: run_calls.simps)
qed

text \<open>C15. A resource with a deletion timestamp in the past never settles: every call for it
  either asks for a requeue or fails, and it fails when its file, at a plain path, is already gone
  from Kong, because the existence check reports the missing file as an error and not as absence.\<close>
theorem termination_never_settles:
  assumes env: "portal_env S contents kc files K resources"
    and found: "k_Get K req zero_KongFile (kube s) = (None, f)"
    and dying: "om_DeletionTimestamp (kf_Meta f) = Some d" "d \<noteq> 0" "d < now"
    and ret: "Reconcile (resolver_Proxy S kc) K className now req s = Return ((res, err), t)"
  shows "(err \<noteq> None \<or> Requeue res) \<and>
    (\<forall>p. file_Path (Build f) = Some p \<longrightarrow> plain_path p \<longrightarrow> files (snd (prox s)) p = None \<longrightarrow> err \<noteq> None)"
proof -
  have f: "fetch_error K req s = None" "fetched K req s = f"
    using found by (simp_all add: fetch_error_def fetched_def)
  have "terminating now (fetched K req s)" using dying by (simp add: terminating_def f(2))
  from portal_env.terminating_unsettled [OF env f(1) this ret] show ?thesis
    by (auto simp: f(2))
qed

text \<open>The sample, in deletion, with its file gone from Kong.\<close>

theorem termination_never_settles_witness:
  "\<exists>res e t. Reconcile (resolver_Proxy table_store mem_client) mem_kube_client ''kong'' 9 sample_name
      (started [] Map.empty [] [sample_name \<mapsto> sample_file
        \<lparr>kf_Meta := (kf_Meta sample_file)\<lparr>om_DeletionTimestamp := Some 3\<rparr>\<rparr>]) =
    Return ((res, Some e), t)"
proof -
  let ?f = "sample_file\<lparr>kf_Meta := (kf_Meta sample_file)\<lparr>om_DeletionTimestamp := Some 3\<rparr>\<rparr>"
  let ?s = "started [] Map.empty [] [sample_name \<mapsto> ?f]"
  have "name_of ?f = sample_name"
    by (simp add: name_of_def sample_file_def sample_name_def)
  then have get: "k_Get mem_kube_client sample_name zero_KongFile (kube ?s) = (None, ?f)"
    by (simp add: mem_kube_client_def mem_get_def)
  have "returned (Reconcile (resolver_Proxy table_store mem_client) mem_kube_client ''kong'' 9 sample_name ?s)"
    by (simp add: model_run)
  then obtain res err t where r: "Reconcile (resolver_Proxy table_store mem_client) mem_kube_client ''kong'' 9
      sample_name ?s = Return ((res, err), t)"
    by (auto simp: returned_iff)
  have path: "file_Path (Build ?f) = Some ''content/products/test.txt''"
    using Build_spec [of ?f sample_file] by simp
  have "plain_path ''content/products/test.txt''"
    using sample_plain by (simp add: plain_file_def)
  with termination_never_settles [OF model.portal_env_axioms get _ _ _ r, of 3] path
  have "err \<noteq> None" by simp
  with r show ?thesis by auto
qed

text \<open>C16. A controller that has just been constructed has an empty cache: for a resource
  removed while it was down every call returns success and leaves Kong unchanged, so the file
  published before the restart stays.\<close>
theorem restart_orphans_files:
  fixes s :: "(('c, 'v, 'w) resolver_state, 'k) world"
  assumes env: "portal_env S contents kc files K resources"
    and fresh: "NewCacheBasedProxyWithStagger deps v0 kong0 cls rs tmo (NewCacheStores S) env0 = Return (Inr p, env1)"
      "fst (prox s) = p"
    and missing: "k_Get K req zero_KongFile (kube s) = (Some err, z)" "k_IsNotFound K err"
    and calls: "\<forall>(now, req') \<in> set calls. req' = req"
  shows "\<exists>t. run_calls (resolver_Proxy S kc) K className calls s = Return (replicate (length calls) idle, t) \<and>
    files (snd (prox t)) = files (snd (prox s))"
proof -
  have e: "fetch_error K req s = Some err" using missing(1) by (simp add: fetch_error_def)
  have "store (fst (prox s)) = NewCacheStores S"
    using constructed_resolver [OF fresh(1)] fresh(2) by simp
  then have "contents (store (fst (prox s))) (key_of req) = None"
    using portal_env_new [OF env] by simp
  from portal_env.forgotten_calls [OF env e missing(2) this calls] show ?thesis by fastforce
qed

theorem restart_orphans_files_witness:
  "\<exists>p env1 t. NewCacheBasedProxyWithStagger (sample_deps ''postgres'') [] sample_kong ''kong'' False 10
      (NewCacheStores table_store) (([], Map.empty) :: mem_kong, []) = Return (Inr p, env1) \<and>
    run_calls (resolver_Proxy table_store mem_client) mem_kube_client ''kong'' [(7, sample_name)]
      ((started [] Map.empty [] Map.empty)\<lparr>prox := (p, ([], publish (Build sample_file) Map.empty))\<rparr>) =
        Return ([idle], t) \<and>
    snd (snd (prox t)) = publish (Build sample_file) Map.empty"
proof -
  let ?new = "NewCacheBasedProxyWithStagger (sample_deps ''postgres'') [] sample_kong ''kong'' False 10
      (NewCacheStores table_store) (([], Map.empty) :: mem_kong, [])"
  have "\<exists>p env'. ?new = Return (Inr p, env')"
    by (simp add: sample_init)
  then obtain p env1 where p: "?new = Return (Inr p, env1)" by blast
  let ?s = "(started [] Map.empty [] Map.empty)\<lparr>prox := (p, ([], publish (Build sample_file) Map.empty))\<rparr>"
  have miss: "k_Get mem_kube_client sample_name zero_KongFile (kube ?s) = (Some kube_not_found, zero_KongFile)"
    "k_IsNotFound mem_kube_client kube_not_found"
    by (simp_all add: mem_kube_client_def mem_get_def)
  have "fst (prox ?s) = p" by simp
  from restart_orphans_files [OF model.portal_env_axioms p this miss, of "[(7, sample_name)]" "''kong''"]
  have "\<exists>t. run_calls (resolver_Proxy table_store mem_client) mem_kube_client ''kong'' [(7, sample_name)] ?s =
      Return ([idle], t) \<and> snd (snd (prox t)) = publish (Build sample_file) Map.empty"
    by (simp del: run_calls.simps)
  with p show ?thesis by blast
qed

text \<open>C17. Readiness and the need for leader election are decided by the database mode found at
  construction and never change afterwards, whatever is reconciled: a controller of a DB-less Kong is
  never ready, because nothing sets configApplied.\<close>
theorem readiness_is_fixed_at_start:
  fixes s :: "(('c, 'v, 'w) resolver_state, 'k) world"
  assumes "controller S contents K"
    and fresh: "NewCacheBasedProxyWithStagger deps v0 kong0 cls rs tmo (NewCacheStores S) env = Return (Inr p, env')"
      "fst (prox s0) = p"
    and steps: "(ctrl_step S kc K className)\<^sup>*\<^sup>* s0 s"
  shows "(IsReady (fst (prox s)) \<longleftrightarrow> dbmode p \<noteq> ''off'') \<and>
    (NeedLeaderElection (fst (prox s)) \<longleftrightarrow> dbmode p \<noteq> ''off'')"
proof -
  have "reach (ctrl_init S) (ctrl_step S kc K className) s"
    using constructed_init [OF fresh] steps by (auto simp: reach_rtranclp)
  then have "resolver_ok (fst (prox s))"
    by (rule reachable_inv(2) [OF assms(1)])
  moreover have "dbmode (fst (prox s)) = dbmode p"
    using steps_dbmode [OF steps] fresh(2) by simp
  ultimately show ?thesis
    by (simp_all add: IsReady_def NeedLeaderElection_def resolver_ok_def)
qed

theorem readiness_is_fixed_at_start_witness:
  "\<exists>p env' s. NewCacheBasedProxyWithStagger (sample_deps ''off'') [] sample_kong ''kong'' False 10
      (NewCacheStores table_store) (([], Map.empty) :: mem_kong, []) = Return (Inr p, env') \<and>
    ctrl_step table_store mem_client mem_kube_client ''kong''
      ((started [] Map.empty [] [sample_name \<mapsto> sample_file])\<lparr>prox := (p, ([], Map.empty))\<rparr>) s \<and>
    \<not> IsReady (fst (prox s))"
proof -
  let ?new = "NewCacheBasedProxyWithStagger (sample_deps ''off'') [] sample_kong ''kong'' False 10
      (NewCacheStores table_store) (([], Map.empty) :: mem_kong, [])"
  have "\<exists>p env'. ?new = Return (Inr p, env') \<and> dbmode p = ''off''"
    by (simp add: sample_init)
  then obtain p env' where p: "?new = Return (Inr p, env')" and off: "dbmode p = ''off''" by blast
  let ?s0 = "(started [] Map.empty [] [sample_name \<mapsto> sample_file])\<lparr>prox := (p, ([], Map.empty))\<rparr>"
  have "fst (prox ?s0) = p" by simp
  note fixed = readiness_is_fixed_at_start [OF kong_controller.controller_axioms p this]
  have "\<exists>out s. Reconcile (resolver_Proxy table_store mem_client) mem_kube_client ''kong'' 5 sample_name ?s0 =
      Return (out, s)"
    by (simp add: model_run)
  then obtain out s where "Reconcile (resolver_Proxy table_store mem_client) mem_kube_client ''kong'' 5
      sample_name ?s0 = Return (out, s)" by blast
  then have step: "ctrl_step table_store mem_client mem_kube_client ''kong'' ?s0 s"
    by (rule ctrl_step.reconciles)
  have "\<not> IsReady (fst (prox s))"
    using fixed [OF r_into_rtranclp [of "ctrl_step table_store mem_client mem_kube_client ''kong''", OF step]]
      off by simp
  with p step show ?thesis by blast
qed

text \<open>C18. When the push of a resource succeeds and the API server refuses the status update and
  keeps its resources as they were, the call returns that error and the stored resource is still not
  validated, but the object in the cache, which GetKongFile then returns, is marked validated.\<close>
theorem refused_status_marks_cached_object:
  fixes s :: "(('c, 'v, 'w) resolver_state, 'k) world"
  assumes env: "portal_env S contents kc files K resources"
    and found: "k_Get K req zero_KongFile (kube s) = (None, f)"
    and alive: "time_IsZero (om_DeletionTimestamp (kf_Meta f))"
    and ours: "MatchesControllerClassName (kf_Meta f) className" and pending: "\<not> Validated (kf_Status f)"
    and pushed: "FileService_Update kc (Build f) (snd (prox s)) = ((v, None), w)"
    and refused: "k_StatusUpdate K (set_validated f) (kube s) = ((Some e, u), k)" "resources k = resources (kube s)"
  shows "\<exists>t r. Reconcile (resolver_Proxy S kc) K className now req s = Return ((\<lparr>Requeue = False\<rparr>, Some e), t) \<and>
    kube t = k \<and> resources (kube t) req = Some f \<and> \<not> Validated (kf_Status f) \<and>
    GetKongFile S \<lparr>stores = store (fst (prox t)), controllerClass = className,
        isValidControllerClass = (\<lambda>_ _. Return True)\<rparr> (nn_Namespace req) (nn_Name req) = Return (Inr r) \<and>
    Validated (kf_Status (at_ref (objects t) r))"
proof -
  have fetch: "fetch_error K req s = None" "fetched K req s = f"
    using found by (simp_all add: fetch_error_def fetched_def)
  have pend: "\<not> terminating now f" "ours className f" "\<not> validated f"
    using alive ours pending by (simp_all add: terminating_def ours_def validated_def)
  obtain t r where t: "Reconcile (resolver_Proxy S kc) K className now req s =
      Return ((\<lparr>Requeue = False\<rparr>, Some e), t)" "kube t = k"
    "contents (store (fst (prox t))) (key_of req) = Some (KongFileObj r)"
    "at_ref (objects t) r = set_validated f"
    using portal_env.refused_status [OF env fetch(1), of now className v w e u k] fetch(2) pend pushed refused
    by auto
  have "kube_api K resources"
    using env by (simp add: portal_env_def)
  then have stored: "resources (kube s) req = Some f"
    using kube_api.get_resource [OF _ found] by blast
  have "cache_store S contents"
    using env by (simp add: portal_env_def resolver_def)
  from cache_store.GetKongFile_contents [OF this, of "\<lparr>stores = store (fst (prox t)),
      controllerClass = className, isValidControllerClass = (\<lambda>_ _. Return True)\<rparr>" "nn_Namespace req" "nn_Name req"]
  show ?thesis
    using t stored refused(2) pending by (auto simp: key_of_def set_validated_def)
qed

theorem refused_status_marks_cached_object_witness:
  "\<exists>e t r. Reconcile (resolver_Proxy table_store mem_client) mem_kube_client ''kong'' 5 sample_name
      (started [] Map.empty [False] [sample_name \<mapsto> sample_file]) = Return ((\<lparr>Requeue = False\<rparr>, Some e), t) \<and>
    Validated (kf_Status (at_ref (objects t) r)) \<and>
    snd (kube t) sample_name = Some sample_file"
proof -
  let ?s = "started [] Map.empty [False] [sample_name \<mapsto> sample_file]"
  have get: "k_Get mem_kube_client sample_name zero_KongFile (kube ?s) = (None, sample_file)"
    by (simp add: mem_kube_client_def mem_get_def)
  have pend: "time_IsZero (om_DeletionTimestamp (kf_Meta sample_file))"
    "MatchesControllerClassName (kf_Meta sample_file) ''kong''" "\<not> Validated (kf_Status sample_file)"
    by (simp_all add: sample_file_def MatchesControllerClassName_iff)
  have "\<exists>v w. FileService_Update mem_client (Build sample_file) (snd (prox ?s)) = ((v, None), w)"
    by (simp add: model_run)
  then obtain v w where up: "FileService_Update mem_client (Build sample_file) (snd (prox ?s)) = ((v, None), w)"
    by blast
  have st: "k_StatusUpdate mem_kube_client (set_validated sample_file) (kube ?s) =
      ((Some (External ''Conflict''), set_validated sample_file), ([], [sample_name \<mapsto> sample_file]))"
    "snd ([] :: bool list, [sample_name \<mapsto> sample_file]) = snd (kube ?s)"
    by (simp_all add: mem_kube_client_def)
  from refused_status_marks_cached_object [OF model.portal_env_axioms get pend up st, of 5]
  show ?thesis by fastforce
qed

text \<open>C19. A resource of our class without a kind, whose names and path are filled, passes the
  admission webhook (and the CRD, whose enumeration restricts only a kind that is given), and yet, as
  long as it is stored unvalidated and not being deleted, every call of Reconcile for it fails with
  the same error, without a request to Kong and without a change of the API server: it is retried for
  ever.\<close>
theorem admitted_kindless_file_never_settles:
  fixes s :: "(('c, 'v, 'w) resolver_state, 'k) world"
  assumes env: "portal_env S contents kc files K resources"
    and found: "k_Get K req zero_KongFile (kube s) = (None, f)"
    and alive: "time_IsZero (om_DeletionTimestamp (kf_Meta f))"
    and ours: "MatchesControllerClassName (kf_Meta f) className" and pending: "\<not> Validated (kf_Status f)"
    and filled: "om_Name (kf_Meta f) \<noteq> ''''" "Spec_Name (kf_Spec f) \<noteq> ''''" "Spec_Path (kf_Spec f) \<noteq> ''''"
    and kindless: "Spec_Kind (kf_Spec f) = ''''"
    and calls: "\<forall>(now, req') \<in> set calls. req' = req"
  shows "ValidateKongFile f = (True, '''', None) \<and>
    (\<exists>e t. run_calls (resolver_Proxy S kc) K className calls s =
        Return (replicate (length calls) (\<lparr>Requeue = False\<rparr>, Some e), t) \<and>
      snd (prox t) = snd (prox s) \<and> kube t = kube s)"
proof
  show "ValidateKongFile f = (True, '''', None)"
    using filled kindless by (simp add: ValidateKongFile_def CONTENT_def)
  have fetch: "fetch_error K req t = None" "fetched K req t = f" if "kube t = kube s"
    for t :: "(('c, 'v, 'w) resolver_state, 'k) world"
    using found that by (simp_all add: fetch_error_def fetched_def)
  have pend: "\<not> terminating now f" "ours className f" "\<not> validated f" for now
    using alive ours pending by (simp_all add: terminating_def ours_def validated_def)
  have "isEmptyString (file_Path (Build f))"
    using kindless by (simp add: Build_path_blank_iff kind_prefix_def kind_defs)
  then obtain e where e: "FileService_Update kc (Build f) (snd (prox s)) = ((None, Some e), snd (prox s))"
    using FileService_blank_path(1) [of "Build f" kc "snd (prox s)"] by blast
  have "\<exists>t. run_calls (resolver_Proxy S kc) K className calls s =
      Return (replicate (length calls) (\<lparr>Requeue = False\<rparr>, Some e), t) \<and> snd (prox t) = snd (prox s) \<and> kube t = kube s"
  proof (rule run_calls_steady [where I = "\<lambda>t. snd (prox t) = snd (prox s) \<and> kube t = kube s"])
    fix now req' and t :: "(('c, 'v, 'w) resolver_state, 'k) world"
    assume "(now, req') \<in> set calls" and t: "snd (prox t) = snd (prox s) \<and> kube t = kube s"
    then have "req' = req" using calls by auto
    moreover obtain c where "Reconcile (resolver_Proxy S kc) K className now req t = Return ((\<lparr>Requeue = False\<rparr>, Some e),
        t\<lparr>objects := put_new t f, prox := ((fst (prox t))\<lparr>store := c\<rparr>, snd (prox t))\<rparr>)"
      by (rule portal_env.pending_resolver [OF env fetch(1), of t now className None "Some e" "snd (prox t)"])
        (use fetch(2) [of t] t pend e in simp_all)
    ultimately show "\<exists>u. Reconcile (resolver_Proxy S kc) K className now req' t =
        Return ((\<lparr>Requeue = False\<rparr>, Some e), u) \<and> snd (prox u) = snd (prox s) \<and> kube u = kube s"
      using t by simp
  qed simp
  then show "\<exists>e t. run_calls (resolver_Proxy S kc) K className calls s =
      Return (replicate (length calls) (\<lparr>Requeue = False\<rparr>, Some e), t) \<and>
    snd (prox t) = snd (prox s) \<and> kube t = kube s" by blast
qed

text \<open>The sample with its kind left out.\<close>

theorem admitted_kindless_file_never_settles_witness:
  "\<exists>e t. run_calls (resolver_Proxy table_store mem_client) mem_kube_client ''kong'' [(5, sample_name), (6, sample_name)]
      (started [] Map.empty [] [sample_name \<mapsto> sample_file
        \<lparr>kf_Spec := (kf_Spec sample_file)\<lparr>Spec_Kind := ''''\<rparr>\<rparr>]) =
    Return ([(\<lparr>Requeue = False\<rparr>, Some e), (\<lparr>Requeue = False\<rparr>, Some e)], t)"
proof -
  let ?f = "sample_file\<lparr>kf_Spec := (kf_Spec sample_file)\<lparr>Spec_Kind := ''''\<rparr>\<rparr>"
  let ?s = "started [] Map.empty [] [sample_name \<mapsto> ?f]"
  have "name_of ?f = sample_name"
    by (simp add: name_of_def sample_file_def sample_name_def)
  then have get: "k_Get mem_kube_client sample_name zero_KongFile (kube ?s) = (None, ?f)"
    by (simp add: mem_kube_client_def mem_get_def)
  have "time_IsZero (om_DeletionTimestamp (kf_Meta ?f))" "MatchesControllerClassName (kf_Meta ?f) ''kong''"
    "\<not> Validated (kf_Status ?f)" "om_Name (kf_Meta ?f) \<noteq> ''''" "Spec_Name (kf_Spec ?f) \<noteq> ''''"
    "Spec_Path (kf_Spec ?f) \<noteq> ''''" "Spec_Kind (kf_Spec ?f) = ''''"
    by (simp_all add: sample_file_def MatchesControllerClassName_iff)
  from admitted_kindless_file_never_settles [OF model.portal_env_axioms get this, of "[(5, sample_name), (6, sample_name)]"]
  show ?thesis by (auto simp: numeral_2_eq_2 simp del: run_calls.simps)
qed

end
